(* ===== verification/Prelude.thy ===== *)
theory Prelude
  imports Complex_Main "HOL-Library.Char_ord" "HOL-Library.List_Lexorder" "HOL-Library.Word"
    "HOL-Library.AList" "HOL-Library.Multiset" "HOL-Library.Code_Target_Numeral"
begin

text \<open>
  What every component shares: Go's error returns as a sum type, early-returning loops,
  64-bit signed arithmetic with its wrap-around and saturation, instants and durations, and
  sorting with an unstable algorithm.
\<close>

named_theorems result_simps \<open>splitting a successful or failed result into its steps\<close>
named_theorems go_defs \<open>unfolding the small helpers of the model\<close>

section \<open>Errors and results\<close>

text \<open>
  \<^term>\<open>Inl e\<close> is a non-nil error return, \<^term>\<open>Inr v\<close> the value. The record
  \<open>api_error\<close> is \<^verbatim>\<open>ecs.APIError\<close>, which callers recognise with
  \<^verbatim>\<open>errors.As\<close>; \<open>Errorf\<close> is \<^verbatim>\<open>fmt.Errorf\<close> with its format and the
  operands it prints, \<open>Wrap\<close> the same around the error of its \<open>%w\<close>; \<open>DecodeError\<close> is a
  failure of a decoder, whose own text is not modelled, and \<open>Joined\<close> the value of
  \<^verbatim>\<open>errors.Join\<close>.
\<close>

record api_error =
  ae_logical :: string
  ae_status :: int
  ae_code :: int
  ae_kind :: string
  ae_retryable :: bool

datatype go_error =
    Errorf string "string list"
  | Wrap string "string list" go_error
  | DecodeError string
  | Api api_error
  | Joined "go_error list"

type_synonym 'a result = "go_error + 'a"

abbreviation Msg :: "string \<Rightarrow> go_error" where
  "Msg s \<equiv> Errorf s []"

definition andThen :: "'e + 'a \<Rightarrow> ('a \<Rightarrow> 'e + 'b) \<Rightarrow> 'e + 'b" where
  "andThen m f = (case m of Inl e \<Rightarrow> Inl e | Inr a \<Rightarrow> f a)"

lemma andThen_simps [simp]: "andThen (Inl e) f = Inl e" "andThen (Inr a) f = f a"
  by (simp_all add: andThen_def)

lemma andThen_Inr [result_simps]:
  "andThen m f = Inr b \<longleftrightarrow> (\<exists>a. m = Inr a \<and> f a = Inr b)"
  by (cases m) simp_all

lemma andThen_Inl [result_simps]:
  "andThen m f = Inl e \<longleftrightarrow> m = Inl e \<or> (\<exists>a. m = Inr a \<and> f a = Inl e)"
  by (cases m) simp_all

lemma andThen_cong [fundef_cong]:
  "m = m' \<Longrightarrow> (\<And>a. m' = Inr a \<Longrightarrow> f a = g a) \<Longrightarrow> andThen m f = andThen m' g"
  by (cases m') simp_all

lemma if_Inr [result_simps]:
  "(if b then Inl e else m) = Inr a \<longleftrightarrow> \<not> b \<and> m = Inr a"
  by simp

definition succeeds :: "'e + 'a \<Rightarrow> bool" where
  "succeeds m = (case m of Inl e \<Rightarrow> False | Inr a \<Rightarrow> True)"

lemma succeeds_simps [simp]: "succeeds (Inr a)" "\<not> succeeds (Inl e)"
  by (simp_all add: succeeds_def)

lemma succeeds_iff: "succeeds m \<longleftrightarrow> (\<exists>a. m = Inr a)"
  by (cases m) simp_all

lemma succeeds_andThen [simp]:
  "succeeds (andThen m f) \<longleftrightarrow> (\<exists>a. m = Inr a \<and> succeeds (f a))"
  by (cases m) simp_all

text \<open>An error that is wrapped on its way up, and a sequence of checks that stops at the first error.\<close>

definition wrap_error :: "string \<Rightarrow> string list \<Rightarrow> go_error + 'a \<Rightarrow> go_error + 'a" where
  "wrap_error format operands m = (case m of Inl e \<Rightarrow> Inl (Wrap format operands e) | Inr a \<Rightarrow> Inr a)"

lemma wrap_error_simps [simp]:
  "wrap_error f ops (Inl e) = Inl (Wrap f ops e)" "wrap_error f ops (Inr a) = Inr a"
  by (simp_all add: wrap_error_def)

lemma wrap_error_Inr [result_simps, simp]: "wrap_error f ops m = Inr a \<longleftrightarrow> m = Inr a"
  by (cases m) simp_all

definition require :: "bool \<Rightarrow> 'e \<Rightarrow> 'e + unit" where
  "require b e = (if b then Inr () else Inl e)"

lemma require_Inr [result_simps, simp]: "require b e = Inr u \<longleftrightarrow> b"
  by (simp add: require_def)

primrec checks :: "('e + unit) list \<Rightarrow> 'e + unit" where
  "checks [] = Inr ()"
| "checks (m # ms) = andThen m (\<lambda>_. checks ms)"

lemma checks_Inr [result_simps]: "checks ms = Inr u \<longleftrightarrow> list_all (\<lambda>m. m = Inr ()) ms"
  by (induction ms) (auto simp: andThen_Inr)

declare checks.simps [simp del]

text \<open>Go ranges over a map in an unspecified order: any reordering of its entries.\<close>

definition iterates :: "('a list \<Rightarrow> 'a list) \<Rightarrow> bool" where
  "iterates ord \<longleftrightarrow> (\<forall>xs. mset (ord xs) = mset xs)"

lemma iterates_set: "iterates ord \<Longrightarrow> set (ord xs) = set xs"
  unfolding iterates_def by (metis set_mset_mset)

lemma iterates_mset: "iterates ord \<Longrightarrow> mset (ord xs) = mset xs"
  by (simp add: iterates_def)

lemma iterates_distinct: "iterates ord \<Longrightarrow> distinct (map f (ord xs)) = distinct (map f xs)"
  by (metis iterates_def mset_eq_imp_distinct_iff mset_map)

lemma iterates_id [simp]: "iterates (\<lambda>xs. xs)" and iterates_rev [simp]: "iterates rev"
  by (simp_all add: iterates_def)

section \<open>Loops that return early\<close>

text \<open>\<open>foldE f xs s\<close> runs the body f over xs and stops at the first error.\<close>

primrec foldE :: "('a \<Rightarrow> 's \<Rightarrow> 'e + 's) \<Rightarrow> 'a list \<Rightarrow> 's \<Rightarrow> 'e + 's" where
  "foldE f [] s = Inr s"
| "foldE f (x # xs) s = andThen (f x s) (foldE f xs)"

lemma foldE_append: "foldE f (xs @ ys) s = andThen (foldE f xs s) (foldE f ys)"
proof (induction xs arbitrary: s)
  case (Cons x xs)
  then show ?case by (cases "f x s") simp_all
qed simp

lemma foldE_cong [fundef_cong]:
  "xs = ys \<Longrightarrow> s = t \<Longrightarrow> (\<And>x u. x \<in> set ys \<Longrightarrow> f x u = g x u) \<Longrightarrow> foldE f xs s = foldE g ys t"
proof (induction ys arbitrary: xs s t)
  case (Cons y ys)
  then show ?case by (cases "g y t") (auto simp: Cons.IH)
qed simp

text \<open>The loop rule: P relates the elements consumed so far to the loop's state.\<close>

lemma foldE_rule [consumes 1, case_names start step]:
  assumes "foldE f xs s = Inr t"
    and "P [] s"
    and "\<And>ys y u v. \<lbrakk>P ys u; y \<in> set xs; f y u = Inr v\<rbrakk> \<Longrightarrow> P (ys @ [y]) v"
  shows "P xs t"
  using assms
proof (induction xs arbitrary: t rule: rev_induct)
  case (snoc x xs)
  then obtain u where u: "foldE f xs s = Inr u" "f x u = Inr t"
    by (auto simp: foldE_append andThen_Inr)
  then have "P xs u" using snoc.prems by (intro snoc.IH) auto
  then show ?case using u snoc.prems by auto
qed simp

text \<open>A loop whose body never fails along the way is a plain fold.\<close>

lemma foldE_total:
  assumes "\<And>x u. x \<in> set xs \<Longrightarrow> I u \<Longrightarrow> \<exists>v. f x u = Inr v \<and> I v" and "I s"
  shows "\<exists>t. foldE f xs s = Inr t \<and> I t"
  using assms
proof (induction xs arbitrary: s)
  case (Cons x xs)
  then obtain v where "f x s = Inr v" "I v" by (meson list.set_intros(1))
  with Cons show ?case by simp
qed simp

text \<open>Loops whose body appends one element with a new key.\<close>

lemma foldE_unique:
  assumes "foldE f xs [] = Inr r"
    and "\<And>x acc r. x \<in> set xs \<Longrightarrow> f x acc = Inr r \<Longrightarrow> \<exists>y. r = acc @ [y] \<and> key y \<notin> key ` set acc \<and> P y"
  shows "distinct (map key r) \<and> list_all P r \<and> length r = length xs"
  using assms(1)
proof (induction rule: foldE_rule)
  case (step ys y u v)
  then show ?case using assms(2) by fastforce
qed simp

text \<open>Loops that succeed on the same inputs with the same results, whatever their errors.\<close>

lemma foldE_same_success:
  assumes "\<And>x u r. x \<in> set xs \<Longrightarrow> f x u = Inr r \<longleftrightarrow> g x u = Inr r"
  shows "foldE f xs s = Inr t \<longleftrightarrow> foldE g xs s = Inr t"
  using assms
proof (induction xs arbitrary: s)
  case (Cons x xs)
  then show ?case by (auto simp: andThen_Inr)
qed simp

primrec mapE :: "('a \<Rightarrow> 'e + 'b) \<Rightarrow> 'a list \<Rightarrow> 'e + 'b list" where
  "mapE f [] = Inr []"
| "mapE f (x # xs) = andThen (f x) (\<lambda>y. andThen (mapE f xs) (\<lambda>ys. Inr (y # ys)))"

lemma mapE_Inr: "mapE f xs = Inr ys \<longleftrightarrow> list_all2 (\<lambda>x y. f x = Inr y) xs ys"
proof (induction xs arbitrary: ys)
  case (Cons x xs)
  then show ?case by (cases ys) (auto simp: andThen_Inr)
qed auto

lemma list_all2_right: "list_all2 P xs ys \<Longrightarrow> y \<in> set ys \<Longrightarrow> \<exists>x \<in> set xs. P x y"
  by (induction rule: list_all2_induct) auto


section \<open>64-bit integers, durations and instants\<close>

text \<open>
  Go's \<open>int\<close> (on the 64-bit targets the project builds for), \<open>int64\<close> and
  \<open>time.Duration\<close> wrap at 64 bits; an instant is a number of nanoseconds since
  0001-01-01T00:00:00Z, whose value 0 is the zero \<open>time.Time\<close> (monotonic clock readings are
  not modelled).
\<close>

definition max_int64 :: int where "max_int64 = 2 ^ 63 - 1"
definition min_int64 :: int where "min_int64 = - (2 ^ 63)"

definition int64 :: "int \<Rightarrow> bool" where
  "int64 k \<longleftrightarrow> min_int64 \<le> k \<and> k \<le> max_int64"

definition wrap64 :: "int \<Rightarrow> int" where
  "wrap64 k = signed_take_bit 63 k"

definition sat64 :: "int \<Rightarrow> int" where
  "sat64 k = max min_int64 (min max_int64 k)"

lemma int64_iff: "int64 k \<longleftrightarrow> - (2 ^ 63) \<le> k \<and> k < 2 ^ 63"
  by (auto simp: int64_def min_int64_def max_int64_def)

lemma int64_wrap64 [simp]: "int64 (wrap64 k)"
  using signed_take_bit_int_greater_eq_minus_exp [of 63 k] signed_take_bit_int_less_exp [of 63 k]
  by (simp add: int64_iff wrap64_def)

lemma wrap64_id: "int64 k \<Longrightarrow> wrap64 k = k"
  by (simp add: wrap64_def int64_iff signed_take_bit_int_eq_self)

lemma sat64_id: "int64 k \<Longrightarrow> sat64 k = k"
  by (simp add: sat64_def int64_def)

lemma sat64_mono: "j \<le> k \<Longrightarrow> sat64 j \<le> sat64 k"
  by (auto simp: sat64_def)

lemma int64_sat64 [simp]: "int64 (sat64 k)"
  by (auto simp: sat64_def int64_def min_int64_def max_int64_def)

type_synonym time = int
type_synonym duration = int

definition is_zero_time :: "time \<Rightarrow> bool" where "is_zero_time t \<longleftrightarrow> t = 0"

definition second :: duration where "second = 1000000000"

text \<open>\<open>Time.Sub\<close> saturates.\<close>

definition time_sub :: "time \<Rightarrow> time \<Rightarrow> duration" where
  "time_sub t u = sat64 (t - u)"

text \<open>Seconds between 0001-01-01 and 1970-01-01, and \<open>Time.Unix\<close> and \<open>time.Unix\<close>.\<close>

definition unix_epoch :: int where "unix_epoch = 62135596800"

definition unix_seconds :: "time \<Rightarrow> int" where
  "unix_seconds t = t div second - unix_epoch"

definition time_unix :: "int \<Rightarrow> time" where
  "time_unix s = (s + unix_epoch) * second"

lemma unix_seconds_time_unix [simp]: "unix_seconds (time_unix s) = s"
  by (simp add: unix_seconds_def time_unix_def second_def)

section \<open>Sorting\<close>

text \<open>
  \<open>slices.Sort\<close> and \<open>slices.SortFunc\<close> promise an ascending permutation and no order
  among equal elements. The locale states that contract; where the keys are distinct it
  determines the result, which is then also independent of the input's order.
\<close>

locale sort_algorithm =
  fixes srt :: "('a \<Rightarrow> 'k::linorder) \<Rightarrow> 'a list \<Rightarrow> 'a list"
  assumes srt_mset: "mset (srt f xs) = mset xs"
    and srt_sorted: "sorted (map f (srt f xs))"
begin

lemma srt_set: "set (srt f xs) = set xs"
  by (metis srt_mset set_mset_mset)

lemma srt_keys_distinct: "distinct (map f xs) \<Longrightarrow> distinct (map f (srt f xs))"
  by (metis srt_mset mset_map mset_eq_imp_distinct_iff)

lemma srt_determined:
  assumes "mset xs = mset ys" "distinct (map f xs)" "sorted (map f ys)"
  shows "srt f xs = ys"
proof (rule map_sorted_distinct_set_unique)
  have sets: "set xs = set ys" by (metis assms(1) set_mset_mset)
  then show "set (srt f xs) = set ys" by (simp add: srt_set)
  show "inj_on f (set (srt f xs) \<union> set ys)"
    using assms(2) sets by (simp add: srt_set distinct_map)
  show "sorted (map f (srt f xs))" by (rule srt_sorted)
  show "distinct (map f (srt f xs))" using srt_keys_distinct [OF assms(2)] .
  show "sorted (map f ys)" by (rule assms(3))
  show "distinct (map f ys)"
    using assms(1,2) by (metis mset_map mset_eq_imp_distinct_iff)
qed

lemma srt_perm:
  assumes "mset xs = mset ys" "distinct (map f xs)"
  shows "srt f xs = srt f ys"
  using srt_determined [of xs "srt f ys" f] assms by (simp add: srt_mset srt_sorted)

end

interpretation stable: sort_algorithm sort_key
  by unfold_locales simp_all

text \<open>Concatenating in another order does not change the multiset.\<close>

lemma mset_concat_map_perm:
  assumes "mset xs = mset ys"
  shows "mset (concat (map g xs)) = mset (concat (map g ys))"
proof -
  have "mset (concat (map g zs)) = sum_mset (image_mset (\<lambda>x. mset (g x)) (mset zs))" for zs
    by (induction zs) auto
  then show ?thesis by (simp add: assms)
qed

end
