(* ===== verification/Go_Strings.thy ===== *)
theory Go_Strings
  imports Prelude
begin

text \<open>
  The functions of Go's \<open>strings\<close> and \<open>unicode\<close> packages the program uses. A Go string
  is a sequence of bytes, so \<open>length\<close> counts bytes; the Unicode white space and control
  characters outside ASCII are recognised by their UTF-8 bytes, whose lead byte never continues
  another character.
\<close>

abbreviation byte :: "char \<Rightarrow> nat" where "byte c \<equiv> of_char c"

definition has_prefix :: "string \<Rightarrow> string \<Rightarrow> bool" where
  "has_prefix s p \<longleftrightarrow> take (length p) s = p"

definition has_suffix :: "string \<Rightarrow> string \<Rightarrow> bool" where
  "has_suffix s p \<longleftrightarrow> has_prefix (rev s) (rev p)"

definition trim_prefix :: "string \<Rightarrow> string \<Rightarrow> string" where
  "trim_prefix s p = (if has_prefix s p then drop (length p) s else s)"

fun str_contains :: "string \<Rightarrow> string \<Rightarrow> bool" where
  "str_contains [] p = (p = [])"
| "str_contains (c # cs) p = (has_prefix (c # cs) p \<or> str_contains cs p)"

definition contains_any :: "string \<Rightarrow> string \<Rightarrow> bool" where
  "contains_any s chars = list_ex (\<lambda>c. c \<in> set chars) s"

definition trim_right :: "string \<Rightarrow> string \<Rightarrow> string" where
  "trim_right s cutset = rev (dropWhile (\<lambda>c. c \<in> set cutset) (rev s))"

text \<open>\<open>unicode.IsSpace\<close>, as the UTF-8 encodings of the White\_Space characters.\<close>

definition space_words :: "string list" where
  "space_words =
     [[CHR 0x09], [CHR 0x0A], [CHR 0x0B], [CHR 0x0C], [CHR 0x0D], [CHR 0x20],
      [CHR 0xC2, CHR 0x85], [CHR 0xC2, CHR 0xA0], [CHR 0xE1, CHR 0x9A, CHR 0x80],
      [CHR 0xE2, CHR 0x80, CHR 0x80], [CHR 0xE2, CHR 0x80, CHR 0x81],
      [CHR 0xE2, CHR 0x80, CHR 0x82], [CHR 0xE2, CHR 0x80, CHR 0x83],
      [CHR 0xE2, CHR 0x80, CHR 0x84], [CHR 0xE2, CHR 0x80, CHR 0x85],
      [CHR 0xE2, CHR 0x80, CHR 0x86], [CHR 0xE2, CHR 0x80, CHR 0x87],
      [CHR 0xE2, CHR 0x80, CHR 0x88], [CHR 0xE2, CHR 0x80, CHR 0x89],
      [CHR 0xE2, CHR 0x80, CHR 0x8A], [CHR 0xE2, CHR 0x80, CHR 0xA8],
      [CHR 0xE2, CHR 0x80, CHR 0xA9], [CHR 0xE2, CHR 0x80, CHR 0xAF],
      [CHR 0xE2, CHR 0x81, CHR 0x9F], [CHR 0xE3, CHR 0x80, CHR 0x80]]"

definition leading_word :: "string list \<Rightarrow> string \<Rightarrow> nat" where
  "leading_word ws s = (case find (has_prefix s) ws of None \<Rightarrow> 0 | Some w \<Rightarrow> length w)"

function trim_words :: "string list \<Rightarrow> string \<Rightarrow> string" where
  "trim_words ws s =
     (if leading_word ws s = 0 \<or> s = [] then s else trim_words ws (drop (leading_word ws s) s))"
  by pat_completeness auto
termination
  by (relation "measure (\<lambda>(ws, s). length s)") auto

declare trim_words.simps [simp del]

definition trim_space :: "string \<Rightarrow> string" where
  "trim_space s =
     rev (trim_words (map rev space_words) (rev (trim_words space_words s)))"

fun contains_space :: "string \<Rightarrow> bool" where
  "contains_space [] = False"
| "contains_space (c # cs) = (leading_word space_words (c # cs) \<noteq> 0 \<or> contains_space cs)"

text \<open>\<open>unicode.IsControl\<close>: 0x00--0x1F, 0x7F, and 0x80--0x9F, the latter encoded as C2 80 to C2 9F.\<close>

fun contains_control :: "string \<Rightarrow> bool" where
  "contains_control [] = False"
| "contains_control (c # cs) =
     (byte c < 32 \<or> byte c = 127
      \<or> (byte c = 194 \<and> (case cs of [] \<Rightarrow> False | d # _ \<Rightarrow> 128 \<le> byte d \<and> byte d \<le> 159))
      \<or> contains_control cs)"

text \<open>
  Case mapping. Besides the ASCII letters, U+212A and U+0130 have ASCII lower case, U+0131 and
  U+017F ASCII upper case, and U+212A and U+017F fold to ASCII; every other character outside
  ASCII stays outside ASCII. The results are therefore equal to Go's wherever they are compared
  with, or searched for, ASCII text, which is all the program does with them.
\<close>

definition ascii_lower :: "char \<Rightarrow> char" where
  "ascii_lower c = (if 65 \<le> byte c \<and> byte c \<le> 90 then char_of (byte c + 32) else c)"

definition ascii_upper :: "char \<Rightarrow> char" where
  "ascii_upper c = (if 97 \<le> byte c \<and> byte c \<le> 122 then char_of (byte c - 32) else c)"

fun to_lower :: "string \<Rightarrow> string" where
  "to_lower (c # d # e # r) =
     (if c = CHR 0xE2 \<and> d = CHR 0x84 \<and> e = CHR 0xAA then CHR ''k'' # to_lower r
      else if c = CHR 0xC4 \<and> d = CHR 0xB0 then CHR ''i'' # to_lower (e # r)
      else ascii_lower c # to_lower (d # e # r))"
| "to_lower [c, d] =
     (if c = CHR 0xC4 \<and> d = CHR 0xB0 then ''i'' else [ascii_lower c, ascii_lower d])"
| "to_lower [c] = [ascii_lower c]"
| "to_lower [] = []"

fun to_upper :: "string \<Rightarrow> string" where
  "to_upper (c # d # r) =
     (if c = CHR 0xC4 \<and> d = CHR 0xB1 then CHR ''I'' # to_upper r
      else if c = CHR 0xC5 \<and> d = CHR 0xBF then CHR ''S'' # to_upper r
      else ascii_upper c # to_upper (d # r))"
| "to_upper [c] = [ascii_upper c]"
| "to_upper [] = []"

fun fold_case :: "string \<Rightarrow> string" where
  "fold_case (c # d # e # r) =
     (if c = CHR 0xE2 \<and> d = CHR 0x84 \<and> e = CHR 0xAA then CHR ''K'' # fold_case r
      else if c = CHR 0xC5 \<and> d = CHR 0xBF then CHR ''S'' # fold_case (e # r)
      else ascii_upper c # fold_case (d # e # r))"
| "fold_case [c, d] =
     (if c = CHR 0xC5 \<and> d = CHR 0xBF then ''S'' else [ascii_upper c, ascii_upper d])"
| "fold_case [c] = [ascii_upper c]"
| "fold_case [] = []"

definition equal_fold :: "string \<Rightarrow> string \<Rightarrow> bool" where
  "equal_fold s t \<longleftrightarrow> fold_case s = fold_case t"

definition is_digit :: "char \<Rightarrow> bool" where
  "is_digit c \<longleftrightarrow> 48 \<le> byte c \<and> byte c \<le> 57"

definition digit_val :: "char \<Rightarrow> nat" where
  "digit_val c = byte c - 48"

definition is_alnum :: "char \<Rightarrow> bool" where
  "is_alnum c \<longleftrightarrow> is_digit c \<or> 65 \<le> byte c \<and> byte c \<le> 90 \<or> 97 \<le> byte c \<and> byte c \<le> 122"

text \<open>The value of a digit string, and a natural number in decimal.\<close>

definition dec_value :: "string \<Rightarrow> nat" where
  "dec_value ds = fold (\<lambda>c n. 10 * n + digit_val c) ds 0"

fun dec_digits :: "nat \<Rightarrow> string" where
  "dec_digits n = (if n < 10 then [char_of (48 + n)] else dec_digits (n div 10) @ [char_of (48 + n mod 10)])"

declare dec_digits.simps [simp del]

text \<open>\<open>strconv.Atoi\<close>.\<close>

definition Atoi :: "string \<Rightarrow> int option" where
  "Atoi s =
     (let negative = has_prefix s ''-'';
          ds = (if negative \<or> has_prefix s ''+'' then drop 1 s else s);
          k = (if negative then -1 else 1) * int (dec_value ds)
      in if ds = [] \<or> \<not> list_all is_digit ds \<or> \<not> int64 k then None else Some k)"

lemma has_prefix_iff: "has_prefix s p \<longleftrightarrow> (\<exists>t. s = p @ t)"
  by (metis append_eq_conv_conj append_take_drop_id has_prefix_def)

lemma has_prefix_append [simp]: "has_prefix (p @ t) p"
  by (simp add: has_prefix_def)

lemma trim_prefix_append [simp]: "trim_prefix (p @ t) p = t"
  by (simp add: trim_prefix_def)

lemma has_prefix_str_contains: "has_prefix s p \<Longrightarrow> str_contains s p"
  by (cases s) (auto simp: has_prefix_def)

lemma str_contains_append: "str_contains (u @ p @ v) p"
  by (induction u) (auto intro: has_prefix_str_contains)

lemma length_trim_words: "length (trim_words ws s) \<le> length s"
proof (induction ws s rule: trim_words.induct)
  case (1 ws s)
  then show ?case by (subst trim_words.simps) (auto intro: le_trans)
qed

lemma length_trim_space: "length (trim_space s) \<le> length s"
  unfolding trim_space_def
  using length_trim_words [of space_words s]
    length_trim_words [of "map rev space_words" "rev (trim_words space_words s)"]
  by simp

lemma trim_words_no_lead: "trim_words ws s = [] \<or> leading_word ws (trim_words ws s) = 0"
proof (induction ws s rule: trim_words.induct)
  case (1 ws s)
  then show ?case by (subst trim_words.simps, subst (2) trim_words.simps) auto
qed

lemma trim_words_fix: "leading_word ws s = 0 \<Longrightarrow> trim_words ws s = s"
  by (subst trim_words.simps) simp

lemma trim_words_suffix: "\<exists>u. s = u @ trim_words ws s"
proof (induction ws s rule: trim_words.induct)
  case (1 ws s)
  show ?case
  proof (cases "leading_word ws s = 0 \<or> s = []")
    case True
    then show ?thesis by (subst trim_words.simps) auto
  next
    case False
    then obtain u where "drop (leading_word ws s) s = u @ trim_words ws (drop (leading_word ws s) s)"
      using 1 by blast
    then have "s = (take (leading_word ws s) s @ u) @ trim_words ws (drop (leading_word ws s) s)"
      by (metis append.assoc append_take_drop_id)
    moreover have "trim_words ws s = trim_words ws (drop (leading_word ws s) s)"
      using False by (subst trim_words.simps) simp
    ultimately show ?thesis by metis
  qed
qed

text \<open>Text of visible ASCII characters has nothing to trim.\<close>

definition visible :: "char \<Rightarrow> bool" where
  "visible c \<longleftrightarrow> 33 \<le> byte c \<and> byte c \<le> 126"

lemma leading_word_visible:
  assumes ws: "\<forall>w \<in> set ws. w \<noteq> [] \<and> \<not> visible (hd w)" and s: "s = [] \<or> visible (hd s)"
  shows "leading_word ws s = 0"
proof -
  have "\<not> has_prefix s w" if "w \<in> set ws" for w
    using that ws s by (cases w) (auto simp: has_prefix_iff)
  then show ?thesis
    by (auto simp: leading_word_def find_None_iff split: option.splits)
      (metis find_Some_iff nth_mem)
qed

lemma trim_space_visible:
  assumes "s = [] \<or> visible (hd s) \<and> visible (last s)" shows "trim_space s = s"
proof -
  have "\<forall>w \<in> set space_words. w \<noteq> [] \<and> \<not> visible (hd w)"
    and "\<forall>w \<in> set (map rev space_words). w \<noteq> [] \<and> \<not> visible (hd w)"
    by (simp_all add: space_words_def visible_def)
  then have "leading_word space_words s = 0" "leading_word (map rev space_words) (rev s) = 0"
    using assms by (auto intro!: leading_word_visible simp: hd_rev)
  then show ?thesis by (simp add: trim_space_def trim_words_fix)
qed

lemma contains_control_append:
  "contains_control t \<Longrightarrow> contains_control (u @ t)"
  by (induction u) auto

lemma is_digit_dec: "(n::nat) < 10 \<Longrightarrow> is_digit (char_of (48 + n))"
  by (simp add: is_digit_def)

lemma digit_val_dec: "(n::nat) < 10 \<Longrightarrow> digit_val (char_of (48 + n)) = n"
  by (simp add: digit_val_def)

lemma dec_value_snoc: "dec_value (ds @ [c]) = 10 * dec_value ds + digit_val c"
  by (simp add: dec_value_def)

lemma dec_digits_digits: "\<forall>c \<in> set (dec_digits n). is_digit c"
proof (induction n rule: dec_digits.induct)
  case (1 n)
  then show ?case by (subst dec_digits.simps) (auto simp: is_digit_dec)
qed

lemma dec_digits_nonempty [simp]: "dec_digits n \<noteq> []"
  by (subst dec_digits.simps) simp

lemma dec_value_dec_digits: "dec_value (dec_digits n) = n"
proof (induction n rule: dec_digits.induct)
  case (1 n)
  show ?case
  proof (cases "n < 10")
    case True
    then show ?thesis
      by (subst dec_digits.simps) (simp add: dec_value_def digit_val_dec)
  next
    case False
    then show ?thesis
      using 1 by (subst dec_digits.simps) (simp add: dec_value_snoc digit_val_dec)
  qed
qed

section \<open>Comparison and comparator sorts\<close>

text \<open>
  \<open>strings.Compare\<close>, and \<open>slices.SortFunc\<close> as an insertion sort: one of the sorts its
  contract allows. Where the comparator orders by a key and the keys are distinct, the locale
  \<open>sort_algorithm\<close> makes its result that of every other.
\<close>

definition str_compare :: "string \<Rightarrow> string \<Rightarrow> int" where
  "str_compare a b = (if a < b then -1 else if b < a then 1 else 0)"

primrec insert_by :: "('a \<Rightarrow> 'a \<Rightarrow> int) \<Rightarrow> 'a \<Rightarrow> 'a list \<Rightarrow> 'a list" where
  "insert_by cmp x [] = [x]"
| "insert_by cmp x (y # ys) = (if cmp x y \<le> 0 then x # y # ys else y # insert_by cmp x ys)"

definition sort_func :: "('a \<Rightarrow> 'a \<Rightarrow> int) \<Rightarrow> 'a list \<Rightarrow> 'a list" where
  "sort_func cmp xs = foldr (insert_by cmp) xs []"

lemma str_compare_simps [simp]:
  "str_compare a b \<le> 0 \<longleftrightarrow> a \<le> b" "str_compare a b = 0 \<longleftrightarrow> a = b"
  "str_compare a b < 0 \<longleftrightarrow> a < b"
  by (auto simp: str_compare_def)

lemma insert_by_key:
  "(\<And>a b. cmp a b \<le> 0 \<longleftrightarrow> key a \<le> key b) \<Longrightarrow> insert_by cmp x ys = insort_key key x ys"
  by (induction ys) auto

lemma sort_func_key:
  "(\<And>a b. cmp a b \<le> 0 \<longleftrightarrow> key a \<le> key b) \<Longrightarrow> sort_func cmp xs = sort_key key xs"
  by (induction xs) (simp_all add: sort_func_def insert_by_key)

lemma insert_by_key_on:
  "(\<And>a. a \<in> set ys \<Longrightarrow> cmp x a \<le> 0 \<longleftrightarrow> key x \<le> key a) \<Longrightarrow> insert_by cmp x ys = insort_key key x ys"
  by (induction ys) auto

lemma sort_func_key_on:
  assumes "\<And>a b. a \<in> set xs \<Longrightarrow> b \<in> set xs \<Longrightarrow> cmp a b \<le> 0 \<longleftrightarrow> key a \<le> key b"
  shows "sort_func cmp xs = sort_key key xs"
  using assms
proof (induction xs)
  case (Cons x xs)
  then have "sort_func cmp xs = sort_key key xs" by simp
  then have "sort_func cmp (x # xs) = insert_by cmp x (sort_key key xs)"
    by (simp add: sort_func_def)
  also have "\<dots> = insort_key key x (sort_key key xs)"
    using Cons.prems by (intro insert_by_key_on) simp
  finally show ?case by simp
qed (simp add: sort_func_def)

lemma mset_insert_by: "mset (insert_by cmp x ys) = add_mset x (mset ys)"
  by (induction ys) auto

lemma mset_sort_func [simp]: "mset (sort_func cmp xs) = mset xs"
  by (induction xs) (simp_all add: sort_func_def mset_insert_by)

lemma set_sort_func [simp]: "set (sort_func cmp xs) = set xs"
  by (metis mset_sort_func set_mset_mset)

lemma sort_func_Nil [simp]: "sort_func cmp [] = []"
  by (simp add: sort_func_def)

lemma sort_func_Nil_iff [simp]: "sort_func cmp xs = [] \<longleftrightarrow> xs = []"
  by (metis mset_sort_func mset_zero_iff)

lemma length_sort_func [simp]: "length (sort_func cmp xs) = length xs"
  by (metis mset_sort_func size_mset)

lemma sorted_sort_func:
  "(\<And>a b. cmp a b \<le> 0 \<longleftrightarrow> key a \<le> (key b :: 'k::linorder)) \<Longrightarrow> sorted (map key (sort_func cmp xs))"
  by (simp add: sort_func_key)

text \<open>The result of a comparator sort, on distinct keys, does not depend on the input's order.\<close>

lemma sort_func_perm:
  assumes "\<And>a b. cmp a b \<le> 0 \<longleftrightarrow> key a \<le> (key b :: 'k::linorder)"
    and "mset xs = mset ys" "distinct (map key xs)"
  shows "sort_func cmp xs = sort_func cmp ys"
  using stable.srt_perm [OF assms(2,3)] by (simp add: sort_func_key [OF assms(1)])

end
