(* ===== verification/Float64.thy ===== *)
theory Float64
  imports Complex_Main "HOL-Library.Log_Nat"
begin

text \<open>
  Go's float64: IEEE 754 binary64 with round to nearest, ties to even. A finite value is a
  sign and a magnitude, a non-negative rational; every operation computes exactly and rounds
  once, as the hardware does. The lemmas are what the parsers' range checks need: rounding is
  monotone, idempotent, and exact on representable values.
\<close>

section \<open>Rounding a magnitude\<close>

text \<open>The binary exponent: the k with 2 powi k \<le> r < 2 powi (k + 1), for 0 < r.\<close>

definition expo :: "rat \<Rightarrow> int" where
  "expo r =
     (let (p, q) = quotient_of r;
          k = int (floorlog 2 (nat p)) - int (floorlog 2 (nat q))
      in if 2 powi k \<le> r then k else k - 1)"

text \<open>The exponent of the last place: 53 significant bits, but never below the subnormals.\<close>

definition ulp_exp :: "rat \<Rightarrow> int" where
  "ulp_exp r = max (-1074) (expo r - 52)"

definition rne :: "rat \<Rightarrow> int" where
  "rne x =
     (let n = \<lfloor>x\<rfloor>; d = x - of_int n
      in if d < 1/2 then n else if 1/2 < d then n + 1 else if even n then n else n + 1)"

definition rnd :: "rat \<Rightarrow> rat" where
  "rnd r = (if r = 0 then 0 else of_int (rne (r / 2 powi ulp_exp r)) * 2 powi ulp_exp r)"

lemma powi2_pos [simp]: "(0::rat) < 2 powi k"
  by simp

lemma powi2_mono: "j \<le> k \<Longrightarrow> (2::rat) powi j \<le> 2 powi k"
  by (rule power_int_increasing) auto

lemma powi2_less_iff: "(2::rat) powi j < 2 powi k \<longleftrightarrow> j < k"
  by (metis linorder_not_less order_le_less power_int_strict_increasing one_less_numeral_iff
      semiring_norm(76))

lemma powi2_le_iff: "(2::rat) powi j \<le> 2 powi k \<longleftrightarrow> j \<le> k"
  by (metis linorder_not_less powi2_less_iff)

lemma powi2_add: "(2::rat) powi (j + k) = 2 powi j * 2 powi k"
  by (simp add: power_int_add)

lemma powi2_diff: "(2::rat) powi (j - k) = 2 powi j / 2 powi k"
  by (simp add: power_int_diff)

lemma powi2_of_nat: "(2::rat) powi (int n) = 2 ^ n"
  by simp

lemma floorlog2_bounds:
  assumes "0 < n"
  shows "(2::rat) powi (int (floorlog 2 n) - 1) \<le> of_nat n \<and> of_nat n < (2::rat) powi int (floorlog 2 n)"
proof -
  have b: "2 ^ (floorlog 2 n - 1) \<le> n \<and> n < 2 ^ floorlog 2 n"
    using floorlog_bounds [of n 2] assms by simp
  have pos: "0 < floorlog 2 n"
    using assms by (simp add: floorlog_def)
  have "(2::rat) powi (int (floorlog 2 n) - 1) = 2 ^ (floorlog 2 n - 1)"
    using pos by (metis One_nat_def Suc_leI int_ops(2) of_nat_diff power_int_of_nat)
  moreover have "(2::rat) ^ (floorlog 2 n - 1) \<le> of_nat n"
    using b by (metis of_nat_le_iff of_nat_numeral of_nat_power)
  moreover have "of_nat n < (2::rat) ^ floorlog 2 n"
    using b by (metis of_nat_less_iff of_nat_numeral of_nat_power)
  ultimately show ?thesis by simp
qed

lemma expo_bounds:
  assumes "0 < r"
  shows "2 powi expo r \<le> r" and "r < 2 powi (expo r + 1)"
proof -
  obtain p q where pq: "quotient_of r = (p, q)" by fastforce
  have q: "0 < q" using quotient_of_denom_pos [OF pq] .
  have r: "r = of_int p / of_int q" using quotient_of_div [OF pq] .
  have p: "0 < p" using assms q unfolding r by (simp add: zero_less_divide_iff)
  define a where "a = int (floorlog 2 (nat p))"
  define b where "b = int (floorlog 2 (nat q))"
  have ab: "2 powi (a - 1) \<le> (of_int p :: rat)" "(of_int p :: rat) < 2 powi a"
      "2 powi (b - 1) \<le> (of_int q :: rat)" "(of_int q :: rat) < 2 powi b"
    using floorlog2_bounds [of "nat p"] floorlog2_bounds [of "nat q"] p q
    by (simp_all add: a_def b_def)
  have lo: "2 powi (a - b - 1) \<le> r"
  proof -
    have "(2::rat) powi (a - b - 1) = 2 powi (a - 1) / 2 powi b"
      by (metis (no_types, lifting) diff_diff_eq2 diff_diff_eq add.commute powi2_diff)
    also have "\<dots> \<le> of_int p / of_int q"
      using ab q p by (intro frac_le) auto
    finally show ?thesis by (simp add: r)
  qed
  have hi: "r < 2 powi (a - b + 1)"
  proof -
    have "r < 2 powi a / 2 powi (b - 1)"
      unfolding r using ab q p by (intro frac_less) auto
    also have "\<dots> = 2 powi (a - b + 1)"
      by (metis diff_diff_eq2 diff_add_eq powi2_diff)
    finally show ?thesis .
  qed
  have e: "expo r = (if 2 powi (a - b) \<le> r then a - b else a - b - 1)"
    by (simp add: expo_def pq a_def b_def)
  show "2 powi expo r \<le> r" using lo by (simp add: e)
  show "r < 2 powi (expo r + 1)" using hi by (simp add: e)
qed

lemma expo_mono: "0 < r \<Longrightarrow> r \<le> s \<Longrightarrow> expo r \<le> expo s"
proof -
  assume r: "0 < r" "r \<le> s"
  have "(2::rat) powi expo r < 2 powi (expo s + 1)"
    using expo_bounds [of r] expo_bounds [of s] r by linarith
  then have "expo r < expo s + 1" by (simp only: powi2_less_iff)
  then show ?thesis by simp
qed

lemma ulp_exp_mono: "0 < r \<Longrightarrow> r \<le> s \<Longrightarrow> ulp_exp r \<le> ulp_exp s"
  using expo_mono [of r s] by (auto simp: ulp_exp_def)

lemma rne_of_int [simp]: "rne (of_int k) = k"
  by (simp add: rne_def)

lemma rne_floor: "\<lfloor>x\<rfloor> \<le> rne x"
  by (auto simp: rne_def Let_def)

lemma rne_floor1: "rne x \<le> \<lfloor>x\<rfloor> + 1"
  by (auto simp: rne_def Let_def)

lemma rne_mono: "x \<le> y \<Longrightarrow> rne x \<le> rne y"
proof (cases "\<lfloor>x\<rfloor> = \<lfloor>y\<rfloor>")
  case True
  assume "x \<le> y"
  with True show ?thesis by (auto simp: rne_def Let_def)
next
  case False
  assume "x \<le> y"
  then have "\<lfloor>x\<rfloor> + 1 \<le> \<lfloor>y\<rfloor>" using False floor_mono [of x y] by linarith
  then show ?thesis using rne_floor1 [of x] rne_floor [of y] by linarith
qed

lemma rnd_0 [simp]: "rnd 0 = 0"
  by (simp add: rnd_def)

lemma rnd_nonneg: "0 \<le> r \<Longrightarrow> 0 \<le> rnd r"
proof -
  assume "0 \<le> r"
  then have "0 \<le> \<lfloor>r / 2 powi ulp_exp r\<rfloor>" by simp
  then have "0 \<le> rne (r / 2 powi ulp_exp r)"
    using rne_floor [of "r / 2 powi ulp_exp r"] by linarith
  then show ?thesis by (simp add: rnd_def)
qed

lemma scaled_less:
  assumes "0 < r" shows "r / 2 powi ulp_exp r < 2 ^ 53"
proof -
  have "r < 2 powi (expo r + 1)" using expo_bounds(2) [OF assms] .
  also have "\<dots> \<le> 2 powi (ulp_exp r + 53)"
    by (rule powi2_mono) (simp add: ulp_exp_def)
  also have "\<dots> = 2 ^ 53 * 2 powi ulp_exp r"
    by (simp add: powi2_add)
  finally show ?thesis by (simp add: pos_divide_less_eq)
qed

lemma scaled_rne_le:
  assumes "0 < r" shows "rne (r / 2 powi ulp_exp r) \<le> 2 ^ 53"
proof -
  have "rne (r / 2 powi ulp_exp r) \<le> rne (of_int (2 ^ 53))"
    using scaled_less [OF assms] by (intro rne_mono) simp
  then show ?thesis by (simp only: rne_of_int)
qed

lemma rnd_le_top: "0 < r \<Longrightarrow> rnd r \<le> 2 powi (ulp_exp r + 53)"
proof -
  assume r: "0 < r"
  have "(of_int (rne (r / 2 powi ulp_exp r)) :: rat) \<le> of_int (2 ^ 53)"
    using scaled_rne_le [OF r] by (simp only: of_int_le_iff)
  then show ?thesis using r by (simp add: rnd_def powi2_add)
qed

lemma rnd_ge_bottom:
  assumes r: "0 < r" and e: "-1074 < ulp_exp r"
  shows "2 powi (ulp_exp r + 52) \<le> rnd r"
proof -
  have u: "ulp_exp r = expo r - 52" using e by (auto simp: ulp_exp_def)
  have "(2::rat) powi (ulp_exp r + 52) \<le> r"
    using expo_bounds(1) [OF r] by (simp add: u)
  then have "of_int (2 ^ 52) \<le> r / 2 powi ulp_exp r"
    by (simp add: powi2_add pos_le_divide_eq)
  then have "2 ^ 52 \<le> rne (r / 2 powi ulp_exp r)"
    using rne_mono [of "of_int (2 ^ 52)"] by (simp only: rne_of_int)
  then have "(of_int (2 ^ 52) :: rat) \<le> of_int (rne (r / 2 powi ulp_exp r))"
    by (simp only: of_int_le_iff)
  then show ?thesis using r by (simp add: rnd_def powi2_add)
qed

text \<open>Rounding is monotone: equal exponents by monotone rounding to an integer, else the
  power of two between the two binades separates the results.\<close>

lemma rnd_mono:
  assumes "0 \<le> r" "r \<le> s" shows "rnd r \<le> rnd s"
proof (cases "r = 0")
  case True
  then show ?thesis using rnd_nonneg [of s] assms by simp
next
  case False
  then have r: "0 < r" and s: "0 < s" using assms by auto
  have le: "ulp_exp r \<le> ulp_exp s" using ulp_exp_mono r assms by blast
  show ?thesis
  proof (cases "ulp_exp r = ulp_exp s")
    case True
    have "rne (r / 2 powi ulp_exp s) \<le> rne (s / 2 powi ulp_exp s)"
      using assms by (intro rne_mono divide_right_mono) auto
    then show ?thesis using r s True by (simp add: rnd_def)
  next
    case False
    with le have lt: "ulp_exp r + 53 \<le> ulp_exp s + 52" "-1074 < ulp_exp s"
      by (auto simp: ulp_exp_def)
    have "rnd r \<le> 2 powi (ulp_exp r + 53)" by (rule rnd_le_top [OF r])
    also have "\<dots> \<le> 2 powi (ulp_exp s + 52)" using lt(1) by (rule powi2_mono)
    also have "\<dots> \<le> rnd s" by (rule rnd_ge_bottom [OF s lt(2)])
    finally show ?thesis .
  qed
qed

text \<open>A value with at most 53 significant bits is exact.\<close>

lemma rnd_exact:
  assumes x: "x = of_int m * 2 powi e" and m: "0 \<le> m" "m \<le> 2 ^ 53" and e: "-1074 \<le> e"
  shows "rnd x = x"
proof (cases "m = 0")
  case True
  then show ?thesis by (simp add: x)
next
  case False
  then have pos: "0 < x" using m by (simp add: x)
  have "\<exists>k. x / 2 powi ulp_exp x = of_int k"
  proof (cases "ulp_exp x \<le> e")
    case True
    have "x / 2 powi ulp_exp x = of_int m * 2 powi (e - ulp_exp x)"
      by (simp add: x powi2_diff)
    also have "\<dots> = of_int (m * 2 ^ nat (e - ulp_exp x))"
      using True by (simp add: power_int_def)
    finally show ?thesis by blast
  next
    case False
    then have u: "ulp_exp x = expo x - 52" using e by (auto simp: ulp_exp_def)
    have mle: "(of_int m :: rat) \<le> 2 ^ 53"
      using m(2) by (metis of_int_le_iff of_int_numeral of_int_power)
    have "(2::rat) powi (ulp_exp x + 52) \<le> x" using expo_bounds(1) [OF pos] by (simp add: u)
    also have "x \<le> 2 powi (e + 53)" using mle by (simp add: x powi2_add)
    finally have "ulp_exp x + 52 \<le> e + 53" by (simp only: powi2_le_iff)
    with False have ue: "ulp_exp x = e + 1" by simp
    have "(2::rat) powi (e + 53) \<le> x"
      using expo_bounds(1) [OF pos] u ue by (simp add: add.commute)
    with \<open>x \<le> 2 powi (e + 53)\<close> have "x = 2 powi (e + 53)" by simp
    then have "x / 2 powi ulp_exp x = 2 powi (e + 53) / 2 powi (e + 1)"
      by (metis ue)
    also have "\<dots> = 2 powi (e + 53 - (e + 1))"
      by (simp only: powi2_diff)
    also have "\<dots> = of_int (2 ^ 52)" by simp
    finally show ?thesis by blast
  qed
  then obtain k where k: "x / 2 powi ulp_exp x = of_int k" by blast
  then have "rnd x = of_int k * 2 powi ulp_exp x" using pos by (simp add: rnd_def)
  then show ?thesis using k by (simp add: divide_eq_eq)
qed

lemma rnd_idem [simp]:
  assumes "0 \<le> r" shows "rnd (rnd r) = rnd r"
proof (cases "r = 0")
  case False
  then have r: "0 < r" using assms by simp
  have "0 \<le> rne (r / 2 powi ulp_exp r)"
    using rne_mono [of "of_int 0" "r / 2 powi ulp_exp r"] r by (simp only: rne_of_int) simp
  then show ?thesis
    using r scaled_rne_le [OF r]
    by (intro rnd_exact [of _ "rne (r / 2 powi ulp_exp r)" "ulp_exp r"])
       (auto simp: rnd_def ulp_exp_def)
qed simp

lemma rnd_of_nat: "n \<le> 2 ^ 53 \<Longrightarrow> rnd (of_nat n) = of_nat n"
  by (rule rnd_exact [of _ "int n" 0]) (auto simp: nat_le_iff)

lemma ulp_exp_eq:
  assumes "2 powi (e + 52) \<le> x" "x < 2 powi (e + 53)" "-1074 \<le> e"
  shows "ulp_exp x = e"
proof -
  have x: "0 < x" using assms(1) powi2_pos by (metis less_le_trans)
  note b = expo_bounds [OF x]
  have "(2::rat) powi expo x < 2 powi (e + 53)" "(2::rat) powi (e + 52) < 2 powi (expo x + 1)"
    using b assms by linarith+
  then have "expo x = e + 52" unfolding powi2_less_iff by linarith
  then show ?thesis using assms(3) by (simp add: ulp_exp_def)
qed

lemma rne_near:
  assumes "2 * of_int n - 1 < 2 * y" "2 * y < 2 * of_int n + 1"
  shows "rne y = n"
proof (cases "of_int n \<le> y")
  case True
  then have "\<lfloor>y\<rfloor> = n" using assms by linarith
  then show ?thesis using assms True by (auto simp: rne_def Let_def)
next
  case False
  then have "\<lfloor>y\<rfloor> = n - 1" using assms by linarith
  then show ?thesis using assms False by (auto simp: rne_def Let_def)
qed

lemma rne_half: "rne (of_int n + 1/2) = (if even n then n else n + 1)"
proof -
  have "\<lfloor>of_int n + 1/2 :: rat\<rfloor> = n" by linarith
  then show ?thesis by (simp add: rne_def)
qed

text \<open>Rounding by position: the multiple of the last place that is nearest.\<close>

lemma rnd_near:
  assumes "2 ^ (k + 52) \<le> x" "x < 2 ^ (k + 53)"
    and "(2 * of_int n - 1) * 2 ^ k < 2 * x" "2 * x < (2 * of_int n + 1) * 2 ^ k"
  shows "rnd x = of_int n * 2 ^ k"
proof -
  have p: "(2::rat) powi (int k + 52) = 2 ^ (k + 52)" "(2::rat) powi (int k + 53) = 2 ^ (k + 53)"
    by (metis of_nat_add of_nat_numeral power_int_of_nat)+
  have u: "ulp_exp x = int k"
    using assms(1,2) by (intro ulp_exp_eq) (simp_all add: p)
  have "rne (x / 2 ^ k) = n"
    using assms(3,4) by (intro rne_near) (simp_all add: pos_less_divide_eq pos_divide_less_eq field_simps)
  moreover have "x \<noteq> 0" using assms(1) by (metis less_le_not_le zero_less_numeral zero_less_power)
  ultimately show ?thesis by (simp add: rnd_def u)
qed

lemma rnd_overflow:
  assumes "(2 ^ 54 - 1) * 2 ^ 970 \<le> x" shows "2 ^ 1024 \<le> rnd x"
proof -
  let ?m = "(2 ^ 54 - 1) * 2 ^ 970 :: rat"
  have u: "ulp_exp ?m = 971"
    by (rule ulp_exp_eq) simp_all
  have e: "?m / 2 powi 971 = of_int (2 ^ 53 - 1) + 1/2" by simp
  have h: "rne (of_int (2 ^ 53 - 1) + 1/2) = 2 ^ 53"
    by (simp only: rne_half) simp
  have "(?m = 0) = False" by simp
  then have "rnd ?m = of_int (2 ^ 53) * 2 powi 971"
    by (simp only: rnd_def if_False u e h)
  also have "\<dots> = 2 ^ 1024" by simp
  finally show ?thesis using rnd_mono [of ?m x] assms by simp
qed

section \<open>The floats\<close>

text \<open>
  \<^term>\<open>Fin s r\<close> is the finite value of sign bit s and magnitude r; the two zeros are
  \<^term>\<open>Fin False 0\<close> and \<^term>\<open>Fin True 0\<close>. \<open>wf_f64\<close> says that r is representable.
\<close>

datatype f64 = NaN | Inf bool | Fin bool rat

definition pack :: "bool \<Rightarrow> rat \<Rightarrow> f64" where
  "pack s r = (if 2 ^ 1024 \<le> rnd r then Inf s else Fin s (rnd r))"

fun wf_f64 :: "f64 \<Rightarrow> bool" where
  "wf_f64 (Fin s r) = (0 \<le> r \<and> rnd r = r \<and> r < 2 ^ 1024)"
| "wf_f64 _ = True"

fun f64_finite :: "f64 \<Rightarrow> bool" where
  "f64_finite (Fin s r) = True"
| "f64_finite _ = False"

fun fval :: "f64 \<Rightarrow> rat" where
  "fval (Fin s r) = (if s then - r else r)"
| "fval _ = 0"

fun fadd :: "f64 \<Rightarrow> f64 \<Rightarrow> f64" where
  "fadd (Fin s a) (Fin t b) =
     (let v = fval (Fin s a) + fval (Fin t b)
      in if v = 0 then Fin (s \<and> t) 0 else pack (v < 0) \<bar>v\<bar>)"
| "fadd (Inf s) (Inf t) = (if s = t then Inf s else NaN)"
| "fadd (Inf s) (Fin t b) = Inf s"
| "fadd (Fin s a) (Inf t) = Inf t"
| "fadd _ _ = NaN"

fun fneg :: "f64 \<Rightarrow> f64" where
  "fneg (Fin s a) = Fin (\<not> s) a"
| "fneg (Inf s) = Inf (\<not> s)"
| "fneg NaN = NaN"

definition fsub :: "f64 \<Rightarrow> f64 \<Rightarrow> f64" where
  "fsub x y = fadd x (fneg y)"

fun fmul :: "f64 \<Rightarrow> f64 \<Rightarrow> f64" where
  "fmul (Fin s a) (Fin t b) = pack (s \<noteq> t) (a * b)"
| "fmul (Inf s) (Inf t) = Inf (s \<noteq> t)"
| "fmul (Inf s) (Fin t b) = (if b = 0 then NaN else Inf (s \<noteq> t))"
| "fmul (Fin s a) (Inf t) = (if a = 0 then NaN else Inf (s \<noteq> t))"
| "fmul _ _ = NaN"

fun fdiv :: "f64 \<Rightarrow> f64 \<Rightarrow> f64" where
  "fdiv (Fin s a) (Fin t b) =
     (if b = 0 then (if a = 0 then NaN else Inf (s \<noteq> t)) else pack (s \<noteq> t) (a / b))"
| "fdiv (Inf s) (Inf t) = NaN"
| "fdiv (Inf s) (Fin t b) = Inf (s \<noteq> t)"
| "fdiv (Fin s a) (Inf t) = Fin (s \<noteq> t) 0"
| "fdiv _ _ = NaN"

text \<open>Go's comparisons; every comparison with NaN is false.\<close>

fun flt :: "f64 \<Rightarrow> f64 \<Rightarrow> bool" where
  "flt (Fin s a) (Fin t b) = (fval (Fin s a) < fval (Fin t b))"
| "flt (Inf s) (Inf t) = (s \<and> \<not> t)"
| "flt (Inf s) (Fin t b) = s"
| "flt (Fin s a) (Inf t) = (\<not> t)"
| "flt _ _ = False"

fun feq :: "f64 \<Rightarrow> f64 \<Rightarrow> bool" where
  "feq (Fin s a) (Fin t b) = (fval (Fin s a) = fval (Fin t b))"
| "feq (Inf s) (Inf t) = (s = t)"
| "feq _ _ = False"

definition fle :: "f64 \<Rightarrow> f64 \<Rightarrow> bool" where
  "fle x y = (flt x y \<or> feq x y)"

text \<open>\<open>math.Trunc(x) == x\<close>.\<close>

fun fintegral :: "f64 \<Rightarrow> bool" where
  "fintegral (Fin s r) = (r = of_int \<lfloor>r\<rfloor>)"
| "fintegral (Inf s) = True"
| "fintegral NaN = False"

definition f64_of_int :: "int \<Rightarrow> f64" where
  "f64_of_int k = pack (k < 0) (of_int \<bar>k\<bar>)"

definition fzero :: f64 where "fzero = Fin False 0"

definition max_f64 :: f64 where
  "max_f64 = Fin False ((2 ^ 53 - 1) * 2 ^ 971)"

lemma wf_pack [simp]: "0 \<le> r \<Longrightarrow> wf_f64 (pack s r)"
  by (simp add: pack_def rnd_nonneg)

lemma pack_wf: "wf_f64 (Fin t r) \<Longrightarrow> pack s r = Fin s r"
  by (simp add: pack_def)

lemma pack_0 [simp]: "pack s 0 = Fin s 0"
  by (simp add: pack_def)

lemma f64_finite_pack: "f64_finite (pack s r) \<longleftrightarrow> rnd r < 2 ^ 1024"
  by (auto simp: pack_def)

lemma f64_finite_Fin: "f64_finite x \<longleftrightarrow> (\<exists>s r. x = Fin s r)"
  by (cases x) auto

lemma fval_pack: "f64_finite (pack s r) \<Longrightarrow> fval (pack s r) = (if s then - rnd r else rnd r)"
  by (auto simp: pack_def split: if_splits)

lemma f64_finite_pack_le:
  "0 \<le> q \<Longrightarrow> q \<le> r \<Longrightarrow> f64_finite (pack s r) \<Longrightarrow> f64_finite (pack t q)"
  unfolding f64_finite_pack using rnd_mono [of q r] by linarith

lemma flt_fin: "f64_finite x \<Longrightarrow> f64_finite y \<Longrightarrow> flt x y \<longleftrightarrow> fval x < fval y"
  by (cases x; cases y) simp_all

lemma feq_fin: "f64_finite x \<Longrightarrow> f64_finite y \<Longrightarrow> feq x y \<longleftrightarrow> fval x = fval y"
  by (cases x; cases y) simp_all

lemma fle_fin: "f64_finite x \<Longrightarrow> f64_finite y \<Longrightarrow> fle x y \<longleftrightarrow> fval x \<le> fval y"
  by (auto simp: fle_def flt_fin feq_fin)

lemma fval_fzero [simp]: "fval fzero = 0" and finite_fzero [simp]: "f64_finite fzero"
  by (simp_all add: fzero_def)

lemma fneg_simps [simp]:
  "f64_finite (fneg x) = f64_finite x" "fval (fneg x) = - fval x" "wf_f64 (fneg x) = wf_f64 x"
  by (cases x; simp)+

text \<open>A finite value that is not below zero has a magnitude equal to its value.\<close>

lemma fval_nonnegE:
  assumes "wf_f64 x" "f64_finite x" "0 \<le> fval x"
  obtains s where "x = Fin s (fval x)" "s \<longrightarrow> fval x = 0" "rnd (fval x) = fval x" "fval x < 2 ^ 1024"
  using assms by (cases x) (auto split: if_splits)

lemma fadd_fin:
  assumes "f64_finite x" "f64_finite y" "f64_finite (fadd x y)"
  shows "fval (fadd x y) =
    (if fval x + fval y < 0 then - rnd \<bar>fval x + fval y\<bar> else rnd \<bar>fval x + fval y\<bar>)"
  using assms by (cases x; cases y) (auto simp: Let_def fval_pack add.commute split: if_splits)

lemma fadd_pos: "0 \<le> a \<Longrightarrow> 0 \<le> b \<Longrightarrow> fadd (Fin False a) (Fin False b) = pack False (a + b)"
  by (simp add: Let_def)

lemma wf_fadd [simp]: "wf_f64 (fadd x y)"
  by (cases x; cases y) (auto simp: Let_def)

lemma wf_fsub [simp]: "wf_f64 (fsub x y)"
  by (simp add: fsub_def)

lemma wf_fmul [simp]: "wf_f64 x \<Longrightarrow> wf_f64 y \<Longrightarrow> wf_f64 (fmul x y)"
  by (cases x; cases y) auto

lemma wf_fdiv [simp]: "wf_f64 x \<Longrightarrow> wf_f64 y \<Longrightarrow> wf_f64 (fdiv x y)"
  by (cases x; cases y) auto

lemma fmul_nonneg:
  assumes "wf_f64 x" "f64_finite x" "0 \<le> fval x" "0 < c"
    and "f64_finite (fmul x (Fin False c))"
  shows "fval (fmul x (Fin False c)) = rnd (fval x * c)"
  using assms by (cases x) (auto simp: fval_pack split: if_splits)

lemma f64_finite_fmul_nonneg:
  assumes "wf_f64 x" "f64_finite x" "0 \<le> fval x"
  shows "f64_finite (fmul x (Fin False c)) \<longleftrightarrow> rnd (fval x * c) < 2 ^ 1024"
  using assms by (cases x) (auto simp: f64_finite_pack)

lemma fsub_nonneg:
  assumes "wf_f64 x" "f64_finite x" "f64_finite y" "0 \<le> fval y" "fval y \<le> fval x"
  shows "f64_finite (fsub x y)" and "fval (fsub x y) = rnd (fval x - fval y)"
proof -
  have x: "rnd (fval x) = fval x" "fval x < 2 ^ 1024"
    using assms(1,2) order_trans [OF assms(4,5)] by (auto elim: fval_nonnegE)
  then have "rnd (fval x - fval y) < 2 ^ 1024"
    using rnd_mono [of "fval x - fval y" "fval x"] assms(4,5) by simp
  then show fin: "f64_finite (fsub x y)"
    using assms by (cases x; cases y) (auto simp: fsub_def Let_def f64_finite_pack)
  show "fval (fsub x y) = rnd (fval x - fval y)"
    using fadd_fin [of x "fneg y"] fin assms by (simp add: fsub_def)
qed

lemma wf_f64_of_int [simp]: "wf_f64 (f64_of_int k)"
  by (simp add: f64_of_int_def)

lemma f64_of_int_small:
  assumes "0 \<le> k" "k \<le> 2 ^ 53"
  shows "f64_of_int k = Fin False (of_int k)"
proof -
  have "rnd (of_int k) = of_int k"
    using assms by (intro rnd_exact [of _ k 0]) auto
  moreover have "(of_int k :: rat) \<le> of_int (2 ^ 53)"
    using assms by (simp only: of_int_le_iff)
  ultimately show ?thesis using assms by (simp add: f64_of_int_def pack_def)
qed

lemma wf_max_f64: "wf_f64 max_f64"
proof -
  have "rnd ((2 ^ 53 - 1) * 2 ^ 971) = (2 ^ 53 - 1) * 2 ^ 971"
    by (rule rnd_exact [of _ "2 ^ 53 - 1" 971]) simp_all
  then show ?thesis by (simp add: max_f64_def)
qed

end
