(* ===== verification/Model.thy ===== *)
theory Model
  imports Go_Strings Float64
begin

text \<open>
  internal/model/model.go: the resources the exporter caches. A pointer field is an
  \<open>option\<close>, nil being \<open>None\<close>; the counters that Go keeps in \<open>uint64\<close> are
  64-bit words.
\<close>

record cluster =
  cl_name :: string
  cl_site :: string
  cl_environment :: string
  cl_vdc :: string
  cl_versions :: "string list"
  cl_profiles :: "string list"
  cl_mixed :: bool
  cl_health :: "f64 option"
  cl_total :: "f64 option"
  cl_used :: "f64 option"
  cl_available :: "f64 option"
  cl_bucket_count :: int
  cl_namespace_count :: int
  cl_object_count :: "f64 option"
  cl_collected_at :: time

record network =
  nw_interface :: string
  nw_receive :: "f64 option"
  nw_transmit :: "f64 option"

record node_service =
  ns_name :: string
  ns_kind :: string
  ns_status :: string
  ns_health :: f64

record node =
  nd_cluster :: string
  nd_id :: string
  nd_name :: string
  nd_ip :: "string option"
  nd_rack :: "string option"
  nd_version :: string
  nd_health :: "f64 option"
  nd_state :: "string option"
  nd_cpu :: "f64 option"
  nd_mem_used :: "f64 option"
  nd_mem_total :: "f64 option"
  nd_disk_used :: "f64 option"
  nd_disk_total :: "f64 option"
  nd_network :: "network list"
  nd_services :: "node_service list"
  nd_collected_at :: time

record namespace =
  nm_cluster :: string
  nm_name :: string
  nm_owner :: "string option"
  nm_used :: "f64 option"
  nm_objects :: "f64 option"
  nm_bucket_count :: int
  nm_soft :: "f64 option"
  nm_hard :: "f64 option"
  nm_soft_configured :: bool
  nm_hard_configured :: bool
  nm_group :: "string option"
  nm_audit :: "bool option"
  nm_sample_at :: "time option"
  nm_collected_at :: time

record bucket =
  bk_cluster :: string
  bk_namespace :: string
  bk_name :: string
  bk_owner :: "string option"
  bk_used :: "f64 option"
  bk_objects :: "f64 option"
  bk_soft :: "f64 option"
  bk_hard :: "f64 option"
  bk_soft_configured :: bool
  bk_hard_configured :: bool
  bk_versioning :: "bool option"
  bk_encryption :: "bool option"
  bk_group :: "string option"
  bk_locked :: "bool option"
  bk_retention :: "string option"
  bk_audit :: "bool option"
  bk_created :: "time option"
  bk_modified :: "time option"
  bk_sample_at :: "time option"
  bk_collected_at :: time

datatype perf_metric = ReadThroughput | WriteThroughput | Latency | Requests

fun metric_string :: "perf_metric \<Rightarrow> string" where
  "metric_string ReadThroughput = ''read_throughput''"
| "metric_string WriteThroughput = ''write_throughput''"
| "metric_string Latency = ''latency''"
| "metric_string Requests = ''requests''"

record performance =
  pf_cluster :: string
  pf_vdc :: string
  pf_namespace :: string
  pf_metric :: perf_metric
  pf_operation :: string
  pf_status_class :: string
  pf_quantile :: string
  pf_value :: f64
  pf_collected_at :: time

record replication =
  rp_cluster :: string
  rp_id :: string
  rp_group :: string
  rp_source :: "string option"
  rp_target :: "string option"
  rp_status :: "f64 option"
  rp_lag :: "f64 option"
  rp_pending :: "f64 option"
  rp_recovery_kind :: "string option"
  rp_recovery_status :: "string option"
  rp_recovery_progress :: "f64 option"
  rp_collected_at :: time

record collector_state =
  cs_cluster :: string
  cs_collector :: string
  cs_last_attempt :: time
  cs_last_success :: time
  cs_last_error :: string
  cs_running :: bool
  cs_runs :: "64 word"
  cs_errors :: "64 word"

record snapshot =
  sn_clusters :: "cluster list"
  sn_nodes :: "node list"
  sn_namespaces :: "namespace list"
  sn_buckets :: "bucket list"
  sn_performances :: "performance list"
  sn_replications :: "replication list"
  sn_states :: "collector_state list"

lemma metric_string_inject [simp]: "metric_string a = metric_string b \<longleftrightarrow> a = b"
  by (cases a; cases b) simp_all

end
