(* ===== verification/Cache.thy ===== *)
theory Cache
  imports Model
begin

text \<open>
  internal/cache/store.go: the in-memory store between the collectors and the HTTP side. Every
  exported method holds the store's mutex, so it is one atomic step of the model. The store's
  maps are association lists without duplicate keys; their order is the order in which Go's
  \<open>range\<close> happens to visit them, and \<open>snapshot_deterministic\<close> shows that no result
  depends on it. Pointers are values here, so the clone functions are checked to copy every
  field, and aliasing between the cache and its readers is not modelled.
\<close>

section \<open>State\<close>

record cluster_data =
  cd_cluster :: "cluster option"
  cd_nodes :: "node list"
  cd_namespaces :: "namespace list"
  cd_buckets :: "bucket list"
  cd_performances :: "performance list"
  cd_replications :: "replication list"

record store =
  st_clusters :: "(string \<times> cluster_data) list"
  st_states :: "(string \<times> collector_state) list"
  st_generations :: "(string \<times> 64 word) list"

definition newStore :: store where
  "newStore = \<lparr>st_clusters = [], st_states = [], st_generations = []\<rparr>"

definition empty_cluster_data :: cluster_data where
  "empty_cluster_data = \<lparr>cd_cluster = None, cd_nodes = [], cd_namespaces = [], cd_buckets = [],
     cd_performances = [], cd_replications = []\<rparr>"

definition zero_state :: collector_state where
  "zero_state = \<lparr>cs_cluster = [], cs_collector = [], cs_last_attempt = 0, cs_last_success = 0,
     cs_last_error = [], cs_running = False, cs_runs = 0, cs_errors = 0\<rparr>"

definition stateKey :: "string \<Rightarrow> string \<Rightarrow> string" where
  "stateKey cluster collector = cluster @ [CHR 0x00] @ collector"

section \<open>Cloning\<close>

definition clonePointer :: "'a option \<Rightarrow> 'a option" where
  "clonePointer value = (case value of None \<Rightarrow> None | Some v \<Rightarrow> Some v)"

definition cloneNetwork :: "network \<Rightarrow> network" where
  "cloneNetwork v = v\<lparr>nw_receive := clonePointer (nw_receive v),
     nw_transmit := clonePointer (nw_transmit v)\<rparr>"

definition cloneNode :: "node \<Rightarrow> node" where
  "cloneNode v = v\<lparr>nd_ip := clonePointer (nd_ip v), nd_rack := clonePointer (nd_rack v),
     nd_state := clonePointer (nd_state v), nd_health := clonePointer (nd_health v),
     nd_cpu := clonePointer (nd_cpu v), nd_mem_used := clonePointer (nd_mem_used v),
     nd_mem_total := clonePointer (nd_mem_total v), nd_disk_used := clonePointer (nd_disk_used v),
     nd_disk_total := clonePointer (nd_disk_total v),
     nd_network := map cloneNetwork (nd_network v), nd_services := nd_services v\<rparr>"

definition cloneNodes :: "node list \<Rightarrow> node list" where
  "cloneNodes values = map cloneNode values"

definition cloneCluster :: "cluster \<Rightarrow> cluster" where
  "cloneCluster v = v\<lparr>cl_versions := cl_versions v, cl_profiles := cl_profiles v,
     cl_health := clonePointer (cl_health v), cl_total := clonePointer (cl_total v),
     cl_used := clonePointer (cl_used v), cl_available := clonePointer (cl_available v),
     cl_object_count := clonePointer (cl_object_count v)\<rparr>"

definition cloneNamespace :: "namespace \<Rightarrow> namespace" where
  "cloneNamespace v = v\<lparr>nm_owner := clonePointer (nm_owner v), nm_used := clonePointer (nm_used v),
     nm_objects := clonePointer (nm_objects v), nm_soft := clonePointer (nm_soft v),
     nm_hard := clonePointer (nm_hard v), nm_group := clonePointer (nm_group v),
     nm_audit := clonePointer (nm_audit v), nm_sample_at := clonePointer (nm_sample_at v)\<rparr>"

definition cloneNamespaces :: "namespace list \<Rightarrow> namespace list" where
  "cloneNamespaces values = map cloneNamespace values"

definition cloneBucket :: "bucket \<Rightarrow> bucket" where
  "cloneBucket v = v\<lparr>bk_owner := clonePointer (bk_owner v), bk_used := clonePointer (bk_used v),
     bk_objects := clonePointer (bk_objects v), bk_soft := clonePointer (bk_soft v),
     bk_hard := clonePointer (bk_hard v), bk_versioning := clonePointer (bk_versioning v),
     bk_encryption := clonePointer (bk_encryption v), bk_group := clonePointer (bk_group v),
     bk_locked := clonePointer (bk_locked v), bk_retention := clonePointer (bk_retention v),
     bk_audit := clonePointer (bk_audit v), bk_created := clonePointer (bk_created v),
     bk_modified := clonePointer (bk_modified v), bk_sample_at := clonePointer (bk_sample_at v)\<rparr>"

definition cloneBuckets :: "bucket list \<Rightarrow> bucket list" where
  "cloneBuckets values = map cloneBucket values"

definition cloneReplication :: "replication \<Rightarrow> replication" where
  "cloneReplication v = v\<lparr>rp_source := clonePointer (rp_source v),
     rp_target := clonePointer (rp_target v), rp_status := clonePointer (rp_status v),
     rp_lag := clonePointer (rp_lag v), rp_pending := clonePointer (rp_pending v),
     rp_recovery_kind := clonePointer (rp_recovery_kind v),
     rp_recovery_status := clonePointer (rp_recovery_status v),
     rp_recovery_progress := clonePointer (rp_recovery_progress v)\<rparr>"

definition cloneReplications :: "replication list \<Rightarrow> replication list" where
  "cloneReplications values = map cloneReplication values"

lemma clonePointer_id [simp]: "clonePointer v = v"
  by (cases v) (simp_all add: clonePointer_def)

lemma clone_each_id [simp]:
  "cloneNetwork w = w" "cloneNode n = n" "cloneCluster c = c" "cloneNamespace m = m"
  "cloneBucket b = b" "cloneReplication r = r"
proof -
  show net: "cloneNetwork w = w" for w by (simp add: cloneNetwork_def)
  then have "map cloneNetwork ws = ws" for ws by (simp add: map_idI)
  then show "cloneNode n = n" by (simp add: cloneNode_def)
qed (simp_all add: cloneCluster_def cloneNamespace_def cloneBucket_def cloneReplication_def)

section \<open>Writing\<close>

definition ensureCluster :: "string \<Rightarrow> store \<Rightarrow> store" where
  "ensureCluster name s =
     (case map_of (st_clusters s) name of
        None \<Rightarrow> s\<lparr>st_clusters := AList.update name empty_cluster_data (st_clusters s)\<rparr>
      | Some _ \<Rightarrow> s)"

text \<open>A write through the pointer that \<open>ensureCluster\<close> returns.\<close>

definition modifyCluster :: "string \<Rightarrow> (cluster_data \<Rightarrow> cluster_data) \<Rightarrow> store \<Rightarrow> store" where
  "modifyCluster name f s =
     (let s' = ensureCluster name s
      in s'\<lparr>st_clusters := AList.map_entry name f (st_clusters s')\<rparr>)"

definition Generation :: "string \<Rightarrow> string \<Rightarrow> store \<Rightarrow> 64 word" where
  "Generation name resource s =
     (case map_of (st_generations s) (stateKey name resource) of None \<Rightarrow> 0 | Some g \<Rightarrow> g)"

definition bump :: "string \<Rightarrow> string \<Rightarrow> store \<Rightarrow> store" where
  "bump name resource s =
     s\<lparr>st_generations :=
        AList.update (stateKey name resource) (Generation name resource s + 1) (st_generations s)\<rparr>"

definition ReplaceCluster :: "string \<Rightarrow> cluster \<Rightarrow> store \<Rightarrow> store" where
  "ReplaceCluster name value s =
     bump name ''cluster'' (modifyCluster name (\<lambda>d. d\<lparr>cd_cluster := Some (cloneCluster value)\<rparr>) s)"

definition ReplaceNodes :: "string \<Rightarrow> node list \<Rightarrow> store \<Rightarrow> store" where
  "ReplaceNodes name values s =
     bump name ''node'' (modifyCluster name (\<lambda>d. d\<lparr>cd_nodes := cloneNodes values\<rparr>) s)"

definition ReplaceNodeResources :: "string \<Rightarrow> node list \<Rightarrow> store \<Rightarrow> store" where
  "ReplaceNodeResources name values s =
     bump name ''node-resources'' (modifyCluster name (\<lambda>d. d\<lparr>cd_nodes := cloneNodes values\<rparr>) s)"

definition ReplaceNamespaces :: "string \<Rightarrow> namespace list \<Rightarrow> store \<Rightarrow> store" where
  "ReplaceNamespaces name values s =
     bump name ''namespace''
       (modifyCluster name (\<lambda>d. d\<lparr>cd_namespaces := cloneNamespaces values\<rparr>) s)"

definition ReplaceBuckets :: "string \<Rightarrow> bucket list \<Rightarrow> store \<Rightarrow> store" where
  "ReplaceBuckets name values s =
     bump name ''bucket'' (modifyCluster name (\<lambda>d. d\<lparr>cd_buckets := cloneBuckets values\<rparr>) s)"

definition ReplacePerformances :: "string \<Rightarrow> performance list \<Rightarrow> store \<Rightarrow> store" where
  "ReplacePerformances name values s =
     bump name ''performance'' (modifyCluster name (\<lambda>d. d\<lparr>cd_performances := values\<rparr>) s)"

definition ReplaceReplications :: "string \<Rightarrow> replication list \<Rightarrow> store \<Rightarrow> store" where
  "ReplaceReplications name values s =
     bump name ''replication''
       (modifyCluster name (\<lambda>d. d\<lparr>cd_replications := cloneReplications values\<rparr>) s)"

text \<open>\<open>positions\<close>: the last index of an id in the list before the merge.\<close>

definition positions :: "replication list \<Rightarrow> string \<rightharpoonup> nat" where
  "positions rs = map_of (rev (zip (map rp_id rs) [0..<length rs]))"

definition mergeOne :: "(string \<rightharpoonup> nat) \<Rightarrow> replication \<Rightarrow> replication list \<Rightarrow> replication list" where
  "mergeOne ps value rs =
     (case ps (rp_id value) of
        Some index \<Rightarrow>
          rs[index := (rs ! index)
               \<lparr>rp_recovery_kind := clonePointer (rp_recovery_kind value),
                rp_recovery_status := clonePointer (rp_recovery_status value),
                rp_recovery_progress := clonePointer (rp_recovery_progress value),
                rp_collected_at := rp_collected_at value\<rparr>]
      | None \<Rightarrow> rs @ [hd (cloneReplications [value])])"

definition mergeRecoveryList :: "replication list \<Rightarrow> replication list \<Rightarrow> replication list" where
  "mergeRecoveryList values rs = fold (mergeOne (positions rs)) values rs"

definition MergeRecovery :: "string \<Rightarrow> replication list \<Rightarrow> store \<Rightarrow> store" where
  "MergeRecovery name values s =
     bump name ''recovery''
       (modifyCluster name
          (\<lambda>d. d\<lparr>cd_replications := mergeRecoveryList values (cd_replications d)\<rparr>) s)"

section \<open>Collector states\<close>

definition collectorState :: "store \<Rightarrow> string \<Rightarrow> collector_state" where
  "collectorState s key = (case map_of (st_states s) key of None \<Rightarrow> zero_state | Some c \<Rightarrow> c)"

definition putState :: "string \<Rightarrow> collector_state \<Rightarrow> store \<Rightarrow> store" where
  "putState key c s = s\<lparr>st_states := AList.update key c (st_states s)\<rparr>"

definition Start :: "string \<Rightarrow> string \<Rightarrow> time \<Rightarrow> store \<Rightarrow> bool \<times> store" where
  "Start cluster collector now s =
     (let key = stateKey cluster collector; state = collectorState s key
      in if cs_running state then (False, s)
         else (True, putState key
           (state\<lparr>cs_cluster := cluster, cs_collector := collector, cs_last_attempt := now,
              cs_running := True, cs_runs := cs_runs state + 1\<rparr>) s))"

definition sanitizeError :: "string \<Rightarrow> string" where
  "sanitizeError value = (if length value > 256 then take 256 value else value)"

text \<open>The error is nil (\<open>None\<close>) or its text, \<open>err.Error()\<close>.\<close>

definition Finish :: "string \<Rightarrow> string \<Rightarrow> time \<Rightarrow> string option \<Rightarrow> store \<Rightarrow> store" where
  "Finish cluster collector now err s =
     (let key = stateKey cluster collector;
          state = (collectorState s key)
            \<lparr>cs_cluster := cluster, cs_collector := collector, cs_running := False\<rparr>
      in putState key
           (case err of
              None \<Rightarrow> state\<lparr>cs_last_success := now, cs_last_error := []\<rparr>
            | Some text \<Rightarrow>
                state\<lparr>cs_errors := cs_errors state + 1, cs_last_error := sanitizeError text\<rparr>) s)"

definition FinishSkipped :: "string \<Rightarrow> string \<Rightarrow> store \<Rightarrow> store" where
  "FinishSkipped cluster collector s =
     (let key = stateKey cluster collector
      in putState key ((collectorState s key)
           \<lparr>cs_cluster := cluster, cs_collector := collector, cs_running := False,
            cs_last_error := []\<rparr>) s)"

section \<open>Snapshots\<close>

definition clusterCompare :: "cluster \<Rightarrow> cluster \<Rightarrow> int" where
  "clusterCompare a b = str_compare (cl_name a) (cl_name b)"

definition nodeCompare :: "node \<Rightarrow> node \<Rightarrow> int" where
  "nodeCompare a b =
     (let v = str_compare (nd_cluster a) (nd_cluster b)
      in if v \<noteq> 0 then v else str_compare (nd_id a) (nd_id b))"

definition namespaceCompare :: "namespace \<Rightarrow> namespace \<Rightarrow> int" where
  "namespaceCompare a b =
     (let v = str_compare (nm_cluster a) (nm_cluster b)
      in if v \<noteq> 0 then v else str_compare (nm_name a) (nm_name b))"

definition bucketCompare :: "bucket \<Rightarrow> bucket \<Rightarrow> int" where
  "bucketCompare a b =
     (let v = str_compare (bk_cluster a) (bk_cluster b)
      in if v \<noteq> 0 then v
         else let w = str_compare (bk_namespace a) (bk_namespace b)
              in if w \<noteq> 0 then w else str_compare (bk_name a) (bk_name b))"

definition replicationCompare :: "replication \<Rightarrow> replication \<Rightarrow> int" where
  "replicationCompare a b =
     (let v = str_compare (rp_cluster a) (rp_cluster b)
      in if v \<noteq> 0 then v else str_compare (rp_id a) (rp_id b))"

definition stateCompare :: "collector_state \<Rightarrow> collector_state \<Rightarrow> int" where
  "stateCompare a b =
     (let v = str_compare (cs_cluster a) (cs_cluster b)
      in if v \<noteq> 0 then v else str_compare (cs_collector a) (cs_collector b))"

text \<open>The loop over pairs of fields: the first pair that differs decides.\<close>

primrec firstDifference :: "(string \<times> string) list \<Rightarrow> int" where
  "firstDifference [] = 0"
| "firstDifference (p # ps) =
     (let order = str_compare (fst p) (snd p)
      in if order \<noteq> 0 then order else firstDifference ps)"

definition performanceFields :: "performance \<Rightarrow> string list" where
  "performanceFields v =
     [pf_cluster v, pf_vdc v, pf_namespace v, metric_string (pf_metric v), pf_operation v,
      pf_status_class v, pf_quantile v]"

definition performanceCompare :: "performance \<Rightarrow> performance \<Rightarrow> int" where
  "performanceCompare a b = firstDifference (zip (performanceFields a) (performanceFields b))"

definition sortSnapshot :: "snapshot \<Rightarrow> snapshot" where
  "sortSnapshot sn =
     \<lparr>sn_clusters = sort_func clusterCompare (sn_clusters sn),
      sn_nodes = sort_func nodeCompare (sn_nodes sn),
      sn_namespaces = sort_func namespaceCompare (sn_namespaces sn),
      sn_buckets = sort_func bucketCompare (sn_buckets sn),
      sn_performances = sort_func performanceCompare (sn_performances sn),
      sn_replications = sort_func replicationCompare (sn_replications sn),
      sn_states = sort_func stateCompare (sn_states sn)\<rparr>"

definition clusterValues :: "cluster_data \<Rightarrow> cluster list" where
  "clusterValues d = (case cd_cluster d of None \<Rightarrow> [] | Some c \<Rightarrow> [cloneCluster c])"

definition gather :: "(cluster_data \<Rightarrow> 'a list) \<Rightarrow> store \<Rightarrow> 'a list" where
  "gather g s = concat (map (\<lambda>(name, d). g d) (st_clusters s))"

definition Snapshot :: "store \<Rightarrow> snapshot" where
  "Snapshot s = sortSnapshot
     \<lparr>sn_clusters = gather clusterValues s,
      sn_nodes = gather (\<lambda>d. cloneNodes (cd_nodes d)) s,
      sn_namespaces = gather (\<lambda>d. cloneNamespaces (cd_namespaces d)) s,
      sn_buckets = gather (\<lambda>d. cloneBuckets (cd_buckets d)) s,
      sn_performances = gather cd_performances s,
      sn_replications = gather (\<lambda>d. cloneReplications (cd_replications d)) s,
      sn_states = map snd (st_states s)\<rparr>"

section \<open>What the writers promise\<close>

definition clusterData :: "store \<Rightarrow> string \<Rightarrow> cluster_data" where
  "clusterData s name =
     (case map_of (st_clusters s) name of None \<Rightarrow> empty_cluster_data | Some d \<Rightarrow> d)"

lemma map_of_modifyCluster:
  "map_of (st_clusters (modifyCluster n f s)) = (map_of (st_clusters s))(n \<mapsto> f (clusterData s n))"
  by (auto simp: modifyCluster_def ensureCluster_def clusterData_def AList.map_of_map_entry
      AList.update_conv' fun_eq_iff split: option.splits)

lemma modifyCluster_frame [simp]:
  "st_states (modifyCluster n f s) = st_states s"
  "st_generations (modifyCluster n f s) = st_generations s"
  by (simp_all add: modifyCluster_def ensureCluster_def Let_def split: option.splits)

lemma bump_frame [simp]:
  "st_states (bump n r s) = st_states s" "st_clusters (bump n r s) = st_clusters s"
  by (simp_all add: bump_def)

lemma Generation_modifyCluster [simp]: "Generation m r (modifyCluster n f s) = Generation m r s"
  by (simp add: Generation_def)

lemma Generation_bump:
  "Generation m q (bump n r s) =
     (if stateKey m q = stateKey n r then Generation m q s + 1 else Generation m q s)"
  by (simp add: Generation_def bump_def AList.update_conv')

text \<open>
  The contract of the \<open>Replace\<close> and \<open>Merge\<close> methods, as a collector relies on it: the
  named cluster's data changes by \<open>put\<close> and no other cluster's does, exactly the
  generation of (cluster, resource) moves, and the collector states stay.
\<close>

locale cache_writer =
  fixes put_store :: "string \<Rightarrow> 'v \<Rightarrow> store \<Rightarrow> store"
    and resource :: string
    and put :: "'v \<Rightarrow> cluster_data \<Rightarrow> cluster_data"
  assumes put_data:
      "map_of (st_clusters (put_store n v s)) = (map_of (st_clusters s))(n \<mapsto> put v (clusterData s n))"
    and put_generation:
      "Generation m r (put_store n v s) =
         (if stateKey m r = stateKey n resource then Generation m r s + 1 else Generation m r s)"
    and put_states: "st_states (put_store n v s) = st_states s"
begin

lemma own_cluster: "clusterData (put_store n v s) n = put v (clusterData s n)"
  by (simp add: clusterData_def put_data)

lemma other_cluster: "m \<noteq> n \<Longrightarrow> clusterData (put_store n v s) m = clusterData s m"
  by (simp add: clusterData_def put_data)

lemma generation_moves: "Generation n resource (put_store n v s) \<noteq> Generation n resource s"
  by (simp add: put_generation)

lemma other_generation:
  "stateKey m r \<noteq> stateKey n resource \<Longrightarrow> Generation m r (put_store n v s) = Generation m r s"
  by (simp add: put_generation)

lemma guard_untouched: "collectorState (put_store n v s) k = collectorState s k"
  by (simp add: collectorState_def put_states)

end

lemma cache_writer_bump:
  "(\<And>n v s. put_store n v s = bump n r (modifyCluster n (put v) s)) \<Longrightarrow> cache_writer put_store r put"
  by unfold_locales (simp_all add: map_of_modifyCluster Generation_bump)

interpretation wr_cluster: cache_writer ReplaceCluster "''cluster''"
  "\<lambda>v d. d\<lparr>cd_cluster := Some (cloneCluster v)\<rparr>"
  by (rule cache_writer_bump) (simp only: ReplaceCluster_def)

interpretation wr_nodes: cache_writer ReplaceNodes "''node''"
  "\<lambda>v d. d\<lparr>cd_nodes := cloneNodes v\<rparr>"
  by (rule cache_writer_bump) (simp only: ReplaceNodes_def)

interpretation wr_resources: cache_writer ReplaceNodeResources "''node-resources''"
  "\<lambda>v d. d\<lparr>cd_nodes := cloneNodes v\<rparr>"
  by (rule cache_writer_bump) (simp only: ReplaceNodeResources_def)

interpretation wr_namespaces: cache_writer ReplaceNamespaces "''namespace''"
  "\<lambda>v d. d\<lparr>cd_namespaces := cloneNamespaces v\<rparr>"
  by (rule cache_writer_bump) (simp only: ReplaceNamespaces_def)

interpretation wr_buckets: cache_writer ReplaceBuckets "''bucket''"
  "\<lambda>v d. d\<lparr>cd_buckets := cloneBuckets v\<rparr>"
  by (rule cache_writer_bump) (simp only: ReplaceBuckets_def)

interpretation wr_performances: cache_writer ReplacePerformances "''performance''"
  "\<lambda>v d. d\<lparr>cd_performances := v\<rparr>"
  by (rule cache_writer_bump) (simp only: ReplacePerformances_def)

interpretation wr_replications: cache_writer ReplaceReplications "''replication''"
  "\<lambda>v d. d\<lparr>cd_replications := cloneReplications v\<rparr>"
  by (rule cache_writer_bump) (simp only: ReplaceReplications_def)

interpretation wr_recovery: cache_writer MergeRecovery "''recovery''"
  "\<lambda>v d. d\<lparr>cd_replications := mergeRecoveryList v (cd_replications d)\<rparr>"
  by (rule cache_writer_bump) (simp only: MergeRecovery_def)

section \<open>The merge of recovery data\<close>

text \<open>The reference: each cached entry takes the recovery fields of the incoming values with
  its id, in order; incoming values with a new id follow unchanged.\<close>

definition recover :: "replication \<Rightarrow> replication \<Rightarrow> replication" where
  "recover value r =
     (if rp_id value = rp_id r
      then r\<lparr>rp_recovery_kind := rp_recovery_kind value,
             rp_recovery_status := rp_recovery_status value,
             rp_recovery_progress := rp_recovery_progress value,
             rp_collected_at := rp_collected_at value\<rparr>
      else r)"

definition mergeReference :: "replication list \<Rightarrow> replication list \<Rightarrow> replication list" where
  "mergeReference values rs =
     map (fold recover values) rs @ filter (\<lambda>v. rp_id v \<notin> rp_id ` set rs) values"

lemma recover_id [simp]: "rp_id (recover v r) = rp_id r"
  by (simp add: recover_def)

lemma fold_recover_id [simp]: "rp_id (fold recover vs r) = rp_id r"
  by (induction vs arbitrary: r) simp_all

lemma positions_Some:
  assumes "distinct (map rp_id rs)" "i < length rs"
  shows "positions rs (rp_id (rs ! i)) = Some i"
  unfolding positions_def
  using assms
  by (intro map_of_is_SomeI) (auto simp: rev_map[symmetric] set_zip distinct_map intro!: exI[of _ i])

lemma positions_None: "k \<notin> rp_id ` set rs \<Longrightarrow> positions rs k = None"
  by (auto simp: positions_def map_of_eq_None_iff dest: set_zip_leftD)

lemma mergeRecoveryList_reference:
  assumes d: "distinct (map rp_id rs)"
  shows "mergeRecoveryList values rs = mergeReference values rs"
proof (induction "values" rule: rev_induct)
  case Nil
  then show ?case by (simp add: mergeRecoveryList_def mergeReference_def)
next
  case (snoc v vs)
  let ?new = "filter (\<lambda>v. rp_id v \<notin> rp_id ` set rs) vs"
  have IH: "fold (mergeOne (positions rs)) vs rs = map (fold recover vs) rs @ ?new"
    using snoc by (simp add: mergeRecoveryList_def mergeReference_def)
  show ?case
  proof (cases "rp_id v \<in> rp_id ` set rs")
    case True
    then obtain i where i: "i < length rs" "rp_id v = rp_id (rs ! i)"
      by (auto simp: in_set_conv_nth)
    have p: "positions rs (rp_id v) = Some i"
      using positions_Some [OF d i(1)] i(2) by simp
    have "(map (fold recover vs) rs)[i := recover v (fold recover vs (rs ! i))] =
        map (\<lambda>r. recover v (fold recover vs r)) rs"
    proof (rule nth_equalityI)
      fix j assume "j < length ((map (fold recover vs) rs)[i := recover v (fold recover vs (rs ! i))])"
      then have j: "j < length rs" by simp
      have "j \<noteq> i \<Longrightarrow> rp_id (rs ! j) \<noteq> rp_id (rs ! i)"
        using d i(1) j by (auto simp: distinct_conv_nth)
      then show "(map (fold recover vs) rs)[i := recover v (fold recover vs (rs ! i))] ! j =
          map (\<lambda>r. recover v (fold recover vs r)) rs ! j"
        using i j by (cases "j = i") (simp_all add: recover_def)
    qed simp
    then show ?thesis
      using True i p
      by (simp add: mergeRecoveryList_def mergeReference_def IH mergeOne_def nth_append
          list_update_append recover_def)
  next
    case False
    then have "map (\<lambda>r. recover v (fold recover vs r)) rs = map (fold recover vs) rs"
      by (auto simp: recover_def)
    then show ?thesis
      using False positions_None [OF False]
      by (simp add: mergeRecoveryList_def mergeReference_def IH mergeOne_def cloneReplications_def)
  qed
qed

section \<open>Well-formed stores\<close>

text \<open>
  The keys by which resources are identified and the snapshot is ordered: lists of strings,
  compared lexicographically, the owning cluster first.
\<close>

definition clusterKey :: "cluster \<Rightarrow> string list" where
  "clusterKey v = [cl_name v]"

definition nodeKey :: "node \<Rightarrow> string list" where
  "nodeKey v = [nd_cluster v, nd_id v]"

definition namespaceKey :: "namespace \<Rightarrow> string list" where
  "namespaceKey v = [nm_cluster v, nm_name v]"

definition bucketKey :: "bucket \<Rightarrow> string list" where
  "bucketKey v = [bk_cluster v, bk_namespace v, bk_name v]"

definition replicationKey :: "replication \<Rightarrow> string list" where
  "replicationKey v = [rp_cluster v, rp_id v]"

definition runKey :: "collector_state \<Rightarrow> string list" where
  "runKey v = [cs_cluster v, cs_collector v]"

lemmas key_defs = clusterKey_def nodeKey_def namespaceKey_def bucketKey_def replicationKey_def
  runKey_def performanceFields_def

lemma compare_le_iff:
  "clusterCompare a b \<le> 0 \<longleftrightarrow> clusterKey a \<le> clusterKey b"
  "nodeCompare c d \<le> 0 \<longleftrightarrow> nodeKey c \<le> nodeKey d"
  "namespaceCompare e f \<le> 0 \<longleftrightarrow> namespaceKey e \<le> namespaceKey f"
  "bucketCompare g h \<le> 0 \<longleftrightarrow> bucketKey g \<le> bucketKey h"
  "replicationCompare i j \<le> 0 \<longleftrightarrow> replicationKey i \<le> replicationKey j"
  "stateCompare k l \<le> 0 \<longleftrightarrow> runKey k \<le> runKey l"
  by (auto simp: clusterCompare_def nodeCompare_def namespaceCompare_def bucketCompare_def
      replicationCompare_def stateCompare_def key_defs Let_def)

lemma firstDifference_le_iff:
  "length xs = length ys \<Longrightarrow> firstDifference (zip xs ys) \<le> 0 \<longleftrightarrow> xs \<le> ys"
  by (induction xs ys rule: list_induct2) (auto simp: Let_def)

lemma performanceCompare_le_iff:
  "performanceCompare a b \<le> 0 \<longleftrightarrow> performanceFields a \<le> performanceFields b"
  unfolding performanceCompare_def
  by (rule firstDifference_le_iff) (simp add: performanceFields_def)

text \<open>
  What the parsers deliver for one cluster: every resource names it, and no identity is repeated.
\<close>

definition keyed :: "('v \<Rightarrow> string list) \<Rightarrow> string \<Rightarrow> 'v list \<Rightarrow> bool" where
  "keyed key n vs \<longleftrightarrow> (\<forall>v \<in> set vs. hd (key v) = n) \<and> distinct (map key vs)"

definition data_wf :: "string \<Rightarrow> cluster_data \<Rightarrow> bool" where
  "data_wf n d \<longleftrightarrow>
     keyed clusterKey n (clusterValues d) \<and> keyed nodeKey n (cd_nodes d)
     \<and> keyed namespaceKey n (cd_namespaces d) \<and> keyed bucketKey n (cd_buckets d)
     \<and> keyed performanceFields n (cd_performances d)
     \<and> keyed replicationKey n (cd_replications d)"

definition store_wf :: "store \<Rightarrow> bool" where
  "store_wf s \<longleftrightarrow>
     distinct (map fst (st_clusters s)) \<and> distinct (map fst (st_states s))
     \<and> distinct (map fst (st_generations s))
     \<and> (\<forall>(n, d) \<in> set (st_clusters s). data_wf n d)
     \<and> (\<forall>(k, c) \<in> set (st_states s). k = stateKey (cs_cluster c) (cs_collector c))"

text \<open>Histories of the store: every exported method that writes, in any order.\<close>

datatype cache_op =
    OpCluster string cluster
  | OpNodes string "node list"
  | OpNodeResources string "node list"
  | OpNamespaces string "namespace list"
  | OpBuckets string "bucket list"
  | OpPerformances string "performance list"
  | OpReplications string "replication list"
  | OpRecovery string "replication list"
  | OpStart string string time
  | OpFinish string string time "string option"
  | OpSkip string string

fun apply_op :: "cache_op \<Rightarrow> store \<Rightarrow> store" where
  "apply_op (OpCluster n v) s = ReplaceCluster n v s"
| "apply_op (OpNodes n vs) s = ReplaceNodes n vs s"
| "apply_op (OpNodeResources n vs) s = ReplaceNodeResources n vs s"
| "apply_op (OpNamespaces n vs) s = ReplaceNamespaces n vs s"
| "apply_op (OpBuckets n vs) s = ReplaceBuckets n vs s"
| "apply_op (OpPerformances n vs) s = ReplacePerformances n vs s"
| "apply_op (OpReplications n vs) s = ReplaceReplications n vs s"
| "apply_op (OpRecovery n vs) s = MergeRecovery n vs s"
| "apply_op (OpStart n c t) s = snd (Start n c t s)"
| "apply_op (OpFinish n c t e) s = Finish n c t e s"
| "apply_op (OpSkip n c) s = FinishSkipped n c s"

fun op_ok :: "cache_op \<Rightarrow> bool" where
  "op_ok (OpCluster n v) = (cl_name v = n)"
| "op_ok (OpNodes n vs) = keyed nodeKey n vs"
| "op_ok (OpNodeResources n vs) = keyed nodeKey n vs"
| "op_ok (OpNamespaces n vs) = keyed namespaceKey n vs"
| "op_ok (OpBuckets n vs) = keyed bucketKey n vs"
| "op_ok (OpPerformances n vs) = keyed performanceFields n vs"
| "op_ok (OpReplications n vs) = keyed replicationKey n vs"
| "op_ok (OpRecovery n vs) = keyed replicationKey n vs"
| "op_ok _ = True"

inductive reachable :: "store \<Rightarrow> bool" where
  reach_new: "reachable newStore"
| reach_op: "reachable s \<Longrightarrow> op_ok op \<Longrightarrow> reachable (apply_op op s)"

lemma clone_lists_id [simp]:
  "cloneNodes ns = ns" "cloneNamespaces ms = ms" "cloneBuckets bs = bs" "cloneReplications rs = rs"
  by (simp_all add: cloneNodes_def cloneNamespaces_def cloneBuckets_def cloneReplications_def
      map_idI)

lemma clusterValues_alt: "clusterValues d = (case cd_cluster d of None \<Rightarrow> [] | Some c \<Rightarrow> [c])"
  by (simp add: clusterValues_def split: option.split)

lemma keyed_Nil [simp]: "keyed key n []"
  by (simp add: keyed_def)

lemma data_wf_empty [simp]: "data_wf n empty_cluster_data"
  by (simp add: data_wf_def empty_cluster_data_def clusterValues_def)

lemma newStore_wf: "store_wf newStore"
  by (simp add: store_wf_def newStore_def)

lemma store_wfD:
  "store_wf s \<Longrightarrow> map_of (st_clusters s) n = Some d \<Longrightarrow> data_wf n d"
  by (auto simp: store_wf_def dest: map_of_SomeD)

lemma data_wf_clusterData: "store_wf s \<Longrightarrow> data_wf n (clusterData s n)"
  by (auto simp: clusterData_def dest: store_wfD split: option.splits)

lemma data_wf_all_iff:
  "distinct (map fst al) \<Longrightarrow> (\<forall>(k, v) \<in> set al. P k v) \<longleftrightarrow> (\<forall>k v. map_of al k = Some v \<longrightarrow> P k v)"
  by (auto simp: map_of_eq_Some_iff)

lemma modifyCluster_wf:
  assumes wf: "store_wf s" and f: "data_wf n (f (clusterData s n))"
  shows "store_wf (modifyCluster n f s)"
proof -
  have d: "distinct (map fst (st_clusters (modifyCluster n f s)))"
    using wf by (simp add: store_wf_def modifyCluster_def ensureCluster_def Let_def
        AList.distinct_map_entry AList.distinct_update split: option.splits)
  have "\<forall>k v. map_of (st_clusters (modifyCluster n f s)) k = Some v \<longrightarrow> data_wf k v"
    using f store_wfD [OF wf] by (simp add: map_of_modifyCluster)
  then show ?thesis
    using wf d by (simp add: store_wf_def data_wf_all_iff)
qed

lemma bump_wf: "store_wf s \<Longrightarrow> store_wf (bump n r s)"
  by (simp add: store_wf_def bump_def AList.distinct_update)

lemma putState_wf:
  assumes wf: "store_wf s" and k: "k = stateKey (cs_cluster c) (cs_collector c)"
  shows "store_wf (putState k c s)"
proof -
  have d: "distinct (map fst (st_states (putState k c s)))"
    using wf by (simp add: store_wf_def putState_def AList.distinct_update)
  have "\<forall>j v. map_of (st_states (putState k c s)) j = Some v \<longrightarrow>
      j = stateKey (cs_cluster v) (cs_collector v)"
    using wf k by (auto simp: putState_def AList.update_conv' store_wf_def data_wf_all_iff)
  then show ?thesis
    using wf d by (simp add: store_wf_def data_wf_all_iff) (simp add: putState_def)
qed

lemma keyed_replication:
  "keyed replicationKey n vs \<longleftrightarrow> (\<forall>v \<in> set vs. rp_cluster v = n) \<and> distinct (map rp_id vs)"
  by (fastforce simp: keyed_def replicationKey_def distinct_map inj_on_def)

lemma fold_recover_cluster [simp]: "rp_cluster (fold recover us r) = rp_cluster r"
  by (induction us arbitrary: r) (simp_all add: recover_def)

lemma keyed_merge:
  assumes "keyed replicationKey n vs" "keyed replicationKey n rs"
  shows "keyed replicationKey n (mergeRecoveryList vs rs)"
proof -
  have ids: "map (rp_id \<circ> fold recover vs) rs = map rp_id rs" by simp
  have "distinct (map rp_id (filter (\<lambda>v. rp_id v \<notin> rp_id ` set rs) vs))"
    using assms(1) by (simp add: keyed_replication distinct_map_filter)
  then show ?thesis
    using assms unfolding keyed_replication
    by (subst (1 2) mergeRecoveryList_reference) (auto simp: mergeReference_def ids image_iff)
qed

lemma apply_op_wf:
  assumes "store_wf s" "op_ok op" shows "store_wf (apply_op op s)"
proof (cases op)
  case (OpStart n c t)
  then show ?thesis
    using assms by (auto simp: Start_def Let_def intro!: putState_wf)
next
  case (OpFinish n c t e)
  then show ?thesis
    using assms by (cases e) (auto simp: Finish_def Let_def intro!: putState_wf)
next
  case (OpSkip n c)
  then show ?thesis
    using assms by (auto simp: FinishSkipped_def Let_def intro!: putState_wf)
next
  case (OpCluster n v)
  then show ?thesis
    using assms data_wf_clusterData [OF assms(1), of n]
    by (auto simp: ReplaceCluster_def data_wf_def clusterValues_def keyed_def [of clusterKey]
        clusterKey_def intro!: bump_wf modifyCluster_wf)
next
  case (OpRecovery n vs)
  then show ?thesis
    using assms data_wf_clusterData [OF assms(1), of n]
    by (auto simp: MergeRecovery_def data_wf_def clusterValues_alt
        intro!: bump_wf modifyCluster_wf keyed_merge)
qed (use assms data_wf_clusterData [OF assms(1)] in
    \<open>simp add: ReplaceNodes_def ReplaceNodeResources_def ReplaceNamespaces_def
      ReplaceBuckets_def ReplacePerformances_def ReplaceReplications_def data_wf_def
      clusterValues_alt bump_wf modifyCluster_wf\<close>)+

lemma reachable_wf: "reachable s \<Longrightarrow> store_wf s"
  by (induction rule: reachable.induct) (auto intro: newStore_wf apply_op_wf)

section \<open>Snapshots of well-formed stores\<close>

lemma distinct_gather:
  assumes d: "distinct (map fst al)" and k: "\<And>n e. (n, e) \<in> set al \<Longrightarrow> keyed key n (g e)"
  shows "distinct (map key (concat (map (\<lambda>(n, e). g e) al)))"
  using assms
proof (induction al)
  case (Cons p al)
  obtain n e where p: "p = (n, e)" by fastforce
  have own: "hd (key v) = n" if "v \<in> set (g e)" for v
    using that Cons.prems(2) [of n e] by (simp add: p keyed_def)
  have others: "hd (key v) \<noteq> n" if v: "v \<in> set (concat (map (\<lambda>(n, e). g e) al))" for v
  proof -
    obtain m f where "(m, f) \<in> set al" "v \<in> set (g f)" using v by auto
    then have "hd (key v) = m" "m \<in> fst ` set al"
      using Cons.prems(2) [of m f] by (force simp: keyed_def)+
    then show ?thesis using Cons.prems(1) by (auto simp: p)
  qed
  have "distinct (map key (concat (map (\<lambda>(n, e). g e) al)))"
    using Cons by simp
  moreover have "distinct (map key (g e))"
    using Cons.prems(2) [of n e] by (simp add: p keyed_def)
  moreover have "key ` set (g e) \<inter> key ` set (concat (map (\<lambda>(n, e). g e) al)) = {}"
  proof (rule equals0I, elim IntE imageE)
    fix y v w
    assume "y = key v" "v \<in> set (g e)" "y = key w"
      "w \<in> set (concat (map (\<lambda>(n, e). g e) al))"
    then show False using own [of v] others [of w] by metis
  qed
  ultimately show ?case by (simp add: p)
qed simp

lemma distinct_gathers:
  assumes "store_wf s"
  shows "distinct (map clusterKey (gather clusterValues s))"
    "distinct (map nodeKey (gather cd_nodes s))"
    "distinct (map namespaceKey (gather cd_namespaces s))"
    "distinct (map bucketKey (gather cd_buckets s))"
    "distinct (map performanceFields (gather cd_performances s))"
    "distinct (map replicationKey (gather cd_replications s))"
  unfolding gather_def
  by (rule distinct_gather, (use assms in \<open>auto simp: store_wf_def data_wf_def\<close>))+

lemma distinct_states:
  assumes "store_wf s" shows "distinct (map runKey (map snd (st_states s)))"
proof -
  have "map fst (st_states s) =
      map (\<lambda>c. stateKey (cs_cluster c) (cs_collector c)) (map snd (st_states s))"
    using assms by (auto simp: store_wf_def)
  then have "distinct (map (\<lambda>c. stateKey (cs_cluster c) (cs_collector c)) (map snd (st_states s)))"
    using assms by (metis store_wf_def)
  then show ?thesis
    by (auto simp: distinct_map inj_on_def runKey_def)
qed

lemma gather_perm:
  "mset (st_clusters t) = mset (st_clusters s) \<Longrightarrow> mset (gather g t) = mset (gather g s)"
  unfolding gather_def by (rule mset_concat_map_perm)

lemma gather_clones [simp]:
  "gather (\<lambda>d. cloneNodes (cd_nodes d)) s = gather cd_nodes s"
  "gather (\<lambda>d. cloneNamespaces (cd_namespaces d)) s = gather cd_namespaces s"
  "gather (\<lambda>d. cloneBuckets (cd_buckets d)) s = gather cd_buckets s"
  "gather (\<lambda>d. cloneReplications (cd_replications d)) s = gather cd_replications s"
  by simp_all

lemma Snapshot_perm:
  assumes wf: "store_wf s"
    and c: "mset (st_clusters t) = mset (st_clusters s)"
    and st: "mset (st_states t) = mset (st_states s)"
  shows "Snapshot t = Snapshot s"
proof -
  note d = distinct_gathers [OF wf] and p = gather_perm [OF c, symmetric]
  have m: "mset (map snd (st_states s)) = mset (map snd (st_states t))"
    by (simp add: st)
  show ?thesis
    unfolding Snapshot_def sortSnapshot_def
    by (simp add: sort_func_perm [OF compare_le_iff(1) p d(1)]
        sort_func_perm [OF compare_le_iff(2) p d(2)] sort_func_perm [OF compare_le_iff(3) p d(3)]
        sort_func_perm [OF compare_le_iff(4) p d(4)]
        sort_func_perm [OF performanceCompare_le_iff p d(5)]
        sort_func_perm [OF compare_le_iff(5) p d(6)]
        sort_func_perm [OF compare_le_iff(6) m distinct_states [OF wf]])
qed

text \<open>The range over the cluster map reads every cluster's data.\<close>

lemma set_gather:
  assumes wf: "store_wf s" and e: "g empty_cluster_data = []"
  shows "set (gather g s) = (\<Union>n. set (g (clusterData s n)))"
proof -
  have d: "distinct (map fst (st_clusters s))" using wf by (simp add: store_wf_def)
  show ?thesis
  proof (intro equalityI subsetI)
    fix x assume "x \<in> set (gather g s)"
    then obtain n d where "(n, d) \<in> set (st_clusters s)" "x \<in> set (g d)"
      by (auto simp: gather_def)
    then show "x \<in> (\<Union>n. set (g (clusterData s n)))"
      using d by (auto simp: clusterData_def intro!: exI [of _ n])
  next
    fix x assume "x \<in> (\<Union>n. set (g (clusterData s n)))"
    then obtain n where "x \<in> set (g (clusterData s n))" by blast
    then show "x \<in> set (gather g s)"
      by (auto simp: clusterData_def gather_def e dest!: map_of_SomeD split: option.splits)
  qed
qed

lemma gather_empty [simp]:
  "clusterValues empty_cluster_data = []" "cd_nodes empty_cluster_data = []"
  "cd_namespaces empty_cluster_data = []" "cd_buckets empty_cluster_data = []"
  "cd_performances empty_cluster_data = []" "cd_replications empty_cluster_data = []"
  by (simp_all add: empty_cluster_data_def clusterValues_def)

lemma strictly_sorted: "sorted xs \<Longrightarrow> distinct xs \<Longrightarrow> sorted_wrt (<) (xs :: 'a::linorder list)"
  by (simp add: strict_sorted_iff)

lemma sorted_Snapshot_part:
  assumes "\<And>a b. cmp a b \<le> 0 \<longleftrightarrow> key a \<le> (key b :: 'k::linorder)" "distinct (map key xs)"
  shows "sorted_wrt (<) (map key (sort_func cmp xs))"
proof (rule strictly_sorted)
  show "sorted (map key (sort_func cmp xs))" using assms(1) by (rule sorted_sort_func)
  show "distinct (map key (sort_func cmp xs))"
    using assms(2) by (metis mset_eq_imp_distinct_iff mset_map mset_sort_func)
qed

lemma Snapshot_sorted:
  assumes wf: "store_wf s"
  shows "sorted_wrt (<) (map clusterKey (sn_clusters (Snapshot s)))
    \<and> sorted_wrt (<) (map nodeKey (sn_nodes (Snapshot s)))
    \<and> sorted_wrt (<) (map namespaceKey (sn_namespaces (Snapshot s)))
    \<and> sorted_wrt (<) (map bucketKey (sn_buckets (Snapshot s)))
    \<and> sorted_wrt (<) (map performanceFields (sn_performances (Snapshot s)))
    \<and> sorted_wrt (<) (map replicationKey (sn_replications (Snapshot s)))
    \<and> sorted_wrt (<) (map runKey (sn_states (Snapshot s)))"
  using distinct_gathers [OF wf] distinct_states [OF wf]
  by (simp add: Snapshot_def sortSnapshot_def sorted_Snapshot_part compare_le_iff
      performanceCompare_le_iff del: map_map)

lemma Snapshot_members:
  assumes wf: "store_wf s"
  shows "set (sn_clusters (Snapshot s)) = (\<Union>n. set (clusterValues (clusterData s n)))"
    "set (sn_nodes (Snapshot s)) = (\<Union>n. set (cd_nodes (clusterData s n)))"
    "set (sn_namespaces (Snapshot s)) = (\<Union>n. set (cd_namespaces (clusterData s n)))"
    "set (sn_buckets (Snapshot s)) = (\<Union>n. set (cd_buckets (clusterData s n)))"
    "set (sn_performances (Snapshot s)) = (\<Union>n. set (cd_performances (clusterData s n)))"
    "set (sn_replications (Snapshot s)) = (\<Union>n. set (cd_replications (clusterData s n)))"
  by (simp_all add: Snapshot_def sortSnapshot_def set_gather [OF wf])

text \<open>Publishing one resource of one cluster replaces it as a whole, and nothing else.\<close>

lemma union_replace:
  assumes own: "\<And>m v. m \<noteq> n \<Longrightarrow> v \<in> g m \<Longrightarrow> c v \<noteq> n" and old: "\<And>v. v \<in> g n \<Longrightarrow> c v = n"
    and h: "h n = vs" "\<And>m. m \<noteq> n \<Longrightarrow> h m = g m"
  shows "(\<Union>m. h m) = vs \<union> {v \<in> (\<Union>m. g m). c v \<noteq> n}"
  using assms by (auto, metis+)

section \<open>The run guard\<close>

text \<open>
  A collector's runs in time order. The log records which keys have a run in progress, how often
  \<open>Start\<close> succeeded, how many runs failed, and when one last succeeded; a run ends by
  \<open>Finish\<close> or \<open>FinishSkipped\<close>, and only after its own \<open>Start\<close> returned true.
\<close>

record run_log =
  active :: "string list"
  starts :: "string \<Rightarrow> nat"
  failures :: "string \<Rightarrow> nat"
  success_at :: "string \<Rightarrow> time"

definition no_runs :: run_log where
  "no_runs = \<lparr>active = [], starts = (\<lambda>_. 0), failures = (\<lambda>_. 0), success_at = (\<lambda>_. 0)\<rparr>"

inductive run_step :: "store \<times> run_log \<Rightarrow> store \<times> run_log \<Rightarrow> bool" where
  run_begins: "\<lbrakk>k = stateKey n c; Start n c t s = (True, s')\<rbrakk>
    \<Longrightarrow> run_step (s, l) (s', l\<lparr>active := k # active l, starts := (starts l)(k := starts l k + 1)\<rparr>)"
| run_refused: "Start n c t s = (False, s') \<Longrightarrow> run_step (s, l) (s', l)"
| run_succeeds: "\<lbrakk>k = stateKey n c; k \<in> set (active l)\<rbrakk>
    \<Longrightarrow> run_step (s, l) (Finish n c t None s,
          l\<lparr>active := remove1 k (active l), success_at := (success_at l)(k := t)\<rparr>)"
| run_fails: "\<lbrakk>k = stateKey n c; k \<in> set (active l)\<rbrakk>
    \<Longrightarrow> run_step (s, l) (Finish n c t (Some text) s,
          l\<lparr>active := remove1 k (active l), failures := (failures l)(k := failures l k + 1)\<rparr>)"
| run_skipped: "\<lbrakk>k = stateKey n c; k \<in> set (active l)\<rbrakk>
    \<Longrightarrow> run_step (s, l) (FinishSkipped n c s, l\<lparr>active := remove1 k (active l)\<rparr>)"
| run_publishes: "\<forall>n c t e. op \<noteq> OpStart n c t \<and> op \<noteq> OpFinish n c t e \<and> op \<noteq> OpSkip n c
    \<Longrightarrow> run_step (s, l) (apply_op op s, l)"

inductive run_history :: "store \<times> run_log \<Rightarrow> bool" where
  history_new: "run_history (newStore, no_runs)"
| history_step: "run_history x \<Longrightarrow> run_step x y \<Longrightarrow> run_history y"

definition guard_at :: "collector_state \<Rightarrow> run_log \<Rightarrow> string \<Rightarrow> bool" where
  "guard_at st l k \<longleftrightarrow>
     (cs_running st \<longleftrightarrow> k \<in> set (active l))
     \<and> cs_runs st = of_nat (starts l k) \<and> cs_errors st = of_nat (failures l k)
     \<and> cs_last_success st = success_at l k
     \<and> failures l k + (if k \<in> set (active l) then 1 else 0) \<le> starts l k"

definition guard_inv :: "store \<times> run_log \<Rightarrow> bool" where
  "guard_inv x \<longleftrightarrow>
     distinct (active (snd x)) \<and> (\<forall>k. guard_at (collectorState (fst x) k) (snd x) k)"

lemma collectorState_putState:
  "collectorState (putState k c s) j = (if j = k then c else collectorState s j)"
  by (simp add: collectorState_def putState_def AList.update_conv')

lemma guard_inv_new: "guard_inv (newStore, no_runs)"
  by (simp add: guard_inv_def guard_at_def newStore_def no_runs_def collectorState_def zero_state_def)

text \<open>A step that writes one key's state and log entry keeps the other keys' part of the invariant.\<close>

lemma guard_inv_update:
  assumes inv: "guard_inv (s, l)" and d: "distinct (active l')" and k: "guard_at st l' k"
    and other: "\<And>j. j \<noteq> k \<Longrightarrow> (j \<in> set (active l') \<longleftrightarrow> j \<in> set (active l)) \<and> starts l' j = starts l j
      \<and> failures l' j = failures l j \<and> success_at l' j = success_at l j"
  shows "guard_inv (putState k st s, l')"
  unfolding guard_inv_def fst_conv snd_conv
proof (intro conjI allI)
  fix j show "guard_at (collectorState (putState k st s) j) l' j"
    using inv k other [of j] by (cases "j = k") (simp_all add: guard_inv_def guard_at_def collectorState_putState)
qed (rule d)

lemma publish_frame:
  "\<forall>n c t e. op \<noteq> OpStart n c t \<and> op \<noteq> OpFinish n c t e \<and> op \<noteq> OpSkip n c
    \<Longrightarrow> collectorState (apply_op op s) k = collectorState s k"
  by (cases op) (simp_all add: wr_cluster.guard_untouched wr_nodes.guard_untouched
      wr_resources.guard_untouched wr_namespaces.guard_untouched wr_buckets.guard_untouched
      wr_performances.guard_untouched wr_replications.guard_untouched wr_recovery.guard_untouched)

lemma guard_inv_at: "guard_inv (s, l) \<Longrightarrow> distinct (active l) \<and> guard_at (collectorState s k) l k"
  by (simp add: guard_inv_def)

lemma guard_inv_step: "run_step x y \<Longrightarrow> guard_inv x \<Longrightarrow> guard_inv y"
proof (induction rule: run_step.induct)
  case (run_begins k n c t s s' l)
  then have "s' = putState k ((collectorState s k)\<lparr>cs_cluster := n, cs_collector := c,
      cs_last_attempt := t, cs_running := True, cs_runs := cs_runs (collectorState s k) + 1\<rparr>) s"
    by (simp add: Start_def Let_def split: if_splits)
  moreover have "\<not> cs_running (collectorState s k)"
    using run_begins by (simp add: Start_def Let_def split: if_splits)
  ultimately show ?case
    using guard_inv_at [OF run_begins.prems, of k]
    by (auto simp: guard_at_def intro!: guard_inv_update [OF run_begins.prems])
next
  case (run_refused n c t s s' l)
  then show ?case
    by (auto simp: Start_def Let_def split: if_splits)
next
  case (run_succeeds k n c l s t)
  then show ?case
    using guard_inv_at [OF run_succeeds.prems, of k]
    by (auto simp: Finish_def Let_def guard_at_def intro!: guard_inv_update [OF run_succeeds.prems])
next
  case (run_fails k n c l s t msg)
  then show ?case
    using guard_inv_at [OF run_fails.prems, of k]
    by (auto simp: Finish_def Let_def guard_at_def intro!: guard_inv_update [OF run_fails.prems])
next
  case (run_skipped k n c l s)
  then show ?case
    using guard_inv_at [OF run_skipped.prems, of k]
    by (auto simp: FinishSkipped_def Let_def guard_at_def
        intro!: guard_inv_update [OF run_skipped.prems])
next
  case (run_publishes op s l)
  then show ?case
    by (simp add: guard_inv_def publish_frame)
qed

lemma run_history_inv: "run_history x \<Longrightarrow> guard_inv x"
  by (induction rule: run_history.induct) (auto intro: guard_inv_new guard_inv_step)

section \<open>Properties\<close>

definition demo_node :: "string \<Rightarrow> string \<Rightarrow> node" where
  "demo_node c i = \<lparr>nd_cluster = c, nd_id = i, nd_name = i, nd_ip = None, nd_rack = None,
     nd_version = ''3.8.1'', nd_health = Some (Fin False 1), nd_state = None, nd_cpu = None,
     nd_mem_used = None, nd_mem_total = None, nd_disk_used = None, nd_disk_total = None,
     nd_network = [], nd_services = [], nd_collected_at = 1\<rparr>"

definition demo_replication :: "string \<Rightarrow> string \<Rightarrow> string option \<Rightarrow> replication" where
  "demo_replication c i kind = \<lparr>rp_cluster = c, rp_id = i, rp_group = i, rp_source = None,
     rp_target = None, rp_status = None, rp_lag = None, rp_pending = None,
     rp_recovery_kind = kind, rp_recovery_status = None, rp_recovery_progress = None,
     rp_collected_at = 2\<rparr>"

definition demo_store :: store where
  "demo_store = apply_op (OpReplications ''a'' [demo_replication ''a'' ''x'' None])
     (apply_op (OpNodes ''b'' [demo_node ''b'' ''n2'', demo_node ''b'' ''n1''])
       (apply_op (OpNodes ''a'' [demo_node ''a'' ''n1'']) newStore))"

lemma reachable_demo_store: "reachable demo_store"
  unfolding demo_store_def
  by (intro reach_op reach_new)
    (simp_all add: keyed_def nodeKey_def replicationKey_def demo_node_def demo_replication_def)

lemma demo_nodes:
  "cd_nodes (clusterData demo_store m) =
     (if m = ''b'' then [demo_node ''b'' ''n2'', demo_node ''b'' ''n1'']
      else if m = ''a'' then [demo_node ''a'' ''n1''] else [])"
  by (simp add: demo_store_def ReplaceReplications_def ReplaceNodes_def clusterData_def
      map_of_modifyCluster newStore_def)



text \<open>
  C1: what a scrape sees does not depend on the order in which Go's range
  visits the cluster map and the state map: two stores with the same entries have the same
  snapshot, list by list.
\<close>

theorem snapshot_deterministic:
  assumes "reachable s"
    and "mset (st_clusters t) = mset (st_clusters s)"
    and "mset (st_states t) = mset (st_states s)"
  shows "Snapshot t = Snapshot s"
  using Snapshot_perm [OF reachable_wf [OF assms(1)] assms(2,3)] .

theorem snapshot_deterministic_witness:
  "Snapshot (demo_store\<lparr>st_clusters := rev (st_clusters demo_store)\<rparr>) = Snapshot demo_store
   \<and> rev (st_clusters demo_store) \<noteq> st_clusters demo_store"
proof
  show "Snapshot (demo_store\<lparr>st_clusters := rev (st_clusters demo_store)\<rparr>) = Snapshot demo_store"
    by (rule snapshot_deterministic [OF reachable_demo_store]) simp_all
  show "rev (st_clusters demo_store) \<noteq> st_clusters demo_store"
    by (simp add: demo_store_def ReplaceReplications_def ReplaceNodes_def modifyCluster_def
        ensureCluster_def newStore_def bump_def)
qed

text \<open>
  C6: a snapshot lists exactly the cached resources of all clusters, each once,
  in strictly ascending order of their identities.
\<close>

theorem snapshot_contents:
  assumes "reachable s"
  shows "set (sn_clusters (Snapshot s)) = (\<Union>n. set (clusterValues (clusterData s n)))
    \<and> set (sn_nodes (Snapshot s)) = (\<Union>n. set (cd_nodes (clusterData s n)))
    \<and> set (sn_namespaces (Snapshot s)) = (\<Union>n. set (cd_namespaces (clusterData s n)))
    \<and> set (sn_buckets (Snapshot s)) = (\<Union>n. set (cd_buckets (clusterData s n)))
    \<and> set (sn_performances (Snapshot s)) = (\<Union>n. set (cd_performances (clusterData s n)))
    \<and> set (sn_replications (Snapshot s)) = (\<Union>n. set (cd_replications (clusterData s n)))
    \<and> sorted_wrt (<) (map clusterKey (sn_clusters (Snapshot s)))
    \<and> sorted_wrt (<) (map nodeKey (sn_nodes (Snapshot s)))
    \<and> sorted_wrt (<) (map namespaceKey (sn_namespaces (Snapshot s)))
    \<and> sorted_wrt (<) (map bucketKey (sn_buckets (Snapshot s)))
    \<and> sorted_wrt (<) (map performanceFields (sn_performances (Snapshot s)))
    \<and> sorted_wrt (<) (map replicationKey (sn_replications (Snapshot s)))
    \<and> sorted_wrt (<) (map runKey (sn_states (Snapshot s)))"
  using Snapshot_sorted [OF reachable_wf [OF assms]]
  by (simp only: Snapshot_members [OF reachable_wf [OF assms]] simp_thms)

theorem snapshot_contents_witness:
  "sorted_wrt (<) (map nodeKey (sn_nodes (Snapshot demo_store)))
   \<and> demo_node ''b'' ''n1'' \<in> set (sn_nodes (Snapshot demo_store))"
proof -
  note c = snapshot_contents [OF reachable_demo_store]
  have "demo_node ''b'' ''n1'' \<in> set (cd_nodes (clusterData demo_store ''b''))"
    by (simp add: demo_nodes)
  then have "demo_node ''b'' ''n1'' \<in> (\<Union>n. set (cd_nodes (clusterData demo_store n)))" by blast
  then show ?thesis using c by (simp only: simp_thms)
qed



text \<open>
  C7: after any history of operations the generation of a resource is the
  number, modulo 2 to the 64, of times that this resource of this cluster was published; no other
  operation moves it.
\<close>

fun op_target :: "cache_op \<Rightarrow> string option" where
  "op_target (OpCluster n v) = Some (stateKey n ''cluster'')"
| "op_target (OpNodes n vs) = Some (stateKey n ''node'')"
| "op_target (OpNodeResources n vs) = Some (stateKey n ''node-resources'')"
| "op_target (OpNamespaces n vs) = Some (stateKey n ''namespace'')"
| "op_target (OpBuckets n vs) = Some (stateKey n ''bucket'')"
| "op_target (OpPerformances n vs) = Some (stateKey n ''performance'')"
| "op_target (OpReplications n vs) = Some (stateKey n ''replication'')"
| "op_target (OpRecovery n vs) = Some (stateKey n ''recovery'')"
| "op_target _ = None"

lemma Generation_apply_op:
  "Generation n r (apply_op op s) =
     (if op_target op = Some (stateKey n r) then Generation n r s + 1 else Generation n r s)"
proof (cases op)
  case (OpStart m c t)
  then show ?thesis by (simp add: Start_def Let_def putState_def Generation_def)
next
  case (OpFinish m c t e)
  then show ?thesis by (simp add: Finish_def Let_def putState_def Generation_def)
next
  case (OpSkip m c)
  then show ?thesis by (simp add: FinishSkipped_def Let_def putState_def Generation_def)
qed (auto simp: wr_cluster.put_generation wr_nodes.put_generation wr_resources.put_generation
    wr_namespaces.put_generation wr_buckets.put_generation wr_performances.put_generation
    wr_replications.put_generation wr_recovery.put_generation)

theorem generations_count_writes:
  "Generation n r (fold apply_op ops newStore) =
     of_nat (length (filter (\<lambda>op. op_target op = Some (stateKey n r)) ops))"
proof (induction ops rule: rev_induct)
  case Nil
  then show ?case by (simp add: Generation_def newStore_def)
next
  case (snoc op ops)
  then show ?case by (simp add: Generation_apply_op)
qed

text \<open>
  C4: merging recovery data is the reference merge: every cached replication
  keeps its own fields and takes the recovery fields and the collection time of the incoming entry
  with its id, unknown ids are appended in order, and no other cluster changes.
\<close>

theorem merge_recovery_correct:
  assumes "reachable s"
  shows "clusterData (MergeRecovery n vs s) m =
    (if m = n
     then (clusterData s n)\<lparr>cd_replications := mergeReference vs (cd_replications (clusterData s n))\<rparr>
     else clusterData s m)"
proof -
  have "distinct (map rp_id (cd_replications (clusterData s n)))"
    using data_wf_clusterData [OF reachable_wf [OF assms], of n]
    by (simp add: data_wf_def keyed_replication)
  then show ?thesis
    by (simp add: wr_recovery.own_cluster wr_recovery.other_cluster mergeRecoveryList_reference)
qed

theorem merge_recovery_correct_witness:
  "cd_replications (clusterData (MergeRecovery ''a''
      [demo_replication ''a'' ''y'' None, demo_replication ''a'' ''x'' (Some ''kind'')] demo_store) ''a'') =
    [demo_replication ''a'' ''x'' (Some ''kind''), demo_replication ''a'' ''y'' None]"
proof -
  have "cd_replications (clusterData demo_store ''a'') = [demo_replication ''a'' ''x'' None]"
    by (simp add: demo_store_def wr_replications.own_cluster)
  then show ?thesis
    unfolding merge_recovery_correct [OF reachable_demo_store]
    by (simp add: mergeReference_def recover_def demo_replication_def)
qed

text \<open>
  C2: along every history of runs, however the cycles of different collectors
  interleave and whatever is published meanwhile, no collector of a cluster has two runs in
  progress; \<open>Start\<close> grants a run exactly when the collector has none; the counters are
  the numbers of granted and failed runs modulo 2 to the 64; the recorded success is that of the
  last successful run, which failed and skipped runs leave alone.
\<close>

theorem runs_never_overlap:
  assumes "run_history (s, l)"
  shows "distinct (active l)
    \<and> (fst (Start n c t s) \<longleftrightarrow> stateKey n c \<notin> set (active l))
    \<and> cs_runs (collectorState s (stateKey n c)) = of_nat (starts l (stateKey n c))
    \<and> cs_errors (collectorState s (stateKey n c)) = of_nat (failures l (stateKey n c))
    \<and> failures l (stateKey n c) \<le> starts l (stateKey n c)
    \<and> cs_last_success (collectorState s (stateKey n c)) = success_at l (stateKey n c)"
  using guard_inv_at [OF run_history_inv [OF assms], of "stateKey n c"]
  by (auto simp: guard_at_def Start_def Let_def split: if_splits)

theorem runs_never_overlap_witness:
  "\<not> fst (Start ''a'' ''node'' 6 (snd (Start ''a'' ''node'' 5 newStore)))
     \<and> fst (Start ''b'' ''node'' 6 (snd (Start ''a'' ''node'' 5 newStore)))
     \<and> cs_runs (collectorState (snd (Start ''a'' ''node'' 5 newStore)) (stateKey ''a'' ''node'')) = 1"
proof -
  let ?k = "stateKey ''a'' ''node''"
  let ?l = "no_runs\<lparr>active := ?k # active no_runs, starts := (starts no_runs)(?k := starts no_runs ?k + 1)\<rparr>"
  have st: "Start ''a'' ''node'' 5 newStore = (True, snd (Start ''a'' ''node'' 5 newStore))"
    by (simp add: Start_def Let_def newStore_def collectorState_def zero_state_def)
  have h: "run_history (snd (Start ''a'' ''node'' 5 newStore), ?l)"
    by (rule history_step [OF history_new]) (rule run_begins [OF refl st])
  have a: "active ?l = [?k]" by (simp add: no_runs_def)
  have ne: "stateKey ''b'' ''node'' \<noteq> ?k" by (simp add: stateKey_def)
  from runs_never_overlap [OF h, of "''a''" "''node''" 6]
    runs_never_overlap [OF h, of "''b''" "''node''" 6]
  show ?thesis
    using a ne by (simp add: no_runs_def)
qed

end
