(* ===== verification/Go_Net.thy ===== *)
theory Go_Net
  imports Go_Strings
begin

text \<open>
  The parts of Go's \<open>net\<close>, \<open>net/netip\<close> and \<open>net/url\<close> packages (Go 1.26) that the program's
  checks rest on: IP addresses and prefixes, URLs, and path escaping. A parse that fails is
  \<open>None\<close>; the error texts, which the program only wraps, are not modelled.
\<close>

section \<open>Splitting\<close>

text \<open>\<open>strings.Cut\<close> and \<open>strings.Index\<close> at one character, and the last occurrence.\<close>

definition cut_at :: "char \<Rightarrow> string \<Rightarrow> string \<times> string" where
  "cut_at c s = (takeWhile (\<lambda>d. d \<noteq> c) s, drop 1 (dropWhile (\<lambda>d. d \<noteq> c) s))"

definition cut_last :: "char \<Rightarrow> string \<Rightarrow> (string \<times> string) option" where
  "cut_last c s =
     (if c \<in> set s
      then Some (rev (drop 1 (dropWhile (\<lambda>d. d \<noteq> c) (rev s))), rev (takeWhile (\<lambda>d. d \<noteq> c) (rev s)))
      else None)"

fun split_on :: "char \<Rightarrow> string \<Rightarrow> string list" where
  "split_on c [] = [[]]"
| "split_on c (d # ds) =
     (if d = c then [] # split_on c ds
      else case split_on c ds of [] \<Rightarrow> [[d]] | p # ps \<Rightarrow> (d # p) # ps)"

fun join_with :: "string \<Rightarrow> string list \<Rightarrow> string" where
  "join_with sep [] = []"
| "join_with sep [x] = x"
| "join_with sep (x # y # ys) = x @ sep @ join_with sep (y # ys)"

definition hex_val :: "char \<Rightarrow> nat option" where
  "hex_val c =
     (if is_digit c then Some (byte c - 48)
      else if 97 \<le> byte c \<and> byte c \<le> 102 then Some (byte c - 87)
      else if 65 \<le> byte c \<and> byte c \<le> 70 then Some (byte c - 55) else None)"

definition is_hex :: "char \<Rightarrow> bool" where
  "is_hex c \<longleftrightarrow> hex_val c \<noteq> None"

definition hex_value :: "string \<Rightarrow> nat" where
  "hex_value ds = fold (\<lambda>c n. 16 * n + the (hex_val c)) ds 0"

section \<open>IP addresses\<close>

text \<open>An address is its 4 or 16 bytes, with the zone of an IPv6 address.\<close>

record ip_addr =
  ip_bytes :: "nat list"
  ip_zone :: string

definition ipv4_field :: "string \<Rightarrow> nat option" where
  "ipv4_field d =
     (if d = [] \<or> \<not> list_all is_digit d \<or> (1 < length d \<and> hd d = CHR ''0'') \<or> 255 < dec_value d
      then None else Some (dec_value d))"

definition parse_ipv4 :: "string \<Rightarrow> nat list option" where
  "parse_ipv4 s =
     (let fs = map ipv4_field (split_on (CHR ''.'') s)
      in if length fs = 4 \<and> list_all (\<lambda>f. f \<noteq> None) fs then Some (map the fs) else None)"

text \<open>
  The loop of \<open>netip.parseIPv6\<close> over the text after a leading \<open>::\<close>: the bytes so far, the
  position of the ellipsis, and the rest. A group has at most four hexadecimal digits, and an
  IPv4 address may take the place of the last four bytes.
\<close>

function ipv6_loop :: "nat list \<Rightarrow> nat option \<Rightarrow> string \<Rightarrow> (nat list \<times> nat option \<times> string) option" where
  "ipv6_loop bs e s =
     (if 16 \<le> length bs then Some (bs, e, s)
      else
        let d = takeWhile is_hex s; r = dropWhile is_hex s
        in if d = [] \<or> 4 < length d then None
           else if has_prefix r ''.'' then
             (if (e = None \<and> length bs \<noteq> 12) \<or> 16 < length bs + 4 then None
              else map_option (\<lambda>v4. (bs @ v4, e, [])) (parse_ipv4 s))
           else
             let bs' = bs @ [hex_value d div 256, hex_value d mod 256]
             in if r = [] then Some (bs', e, [])
                else if hd r \<noteq> CHR '':'' \<or> length r = 1 then None
                else if r ! 1 = CHR '':'' then
                  (if e \<noteq> None then None
                   else if length r = 2 then Some (bs', Some (length bs'), [])
                   else ipv6_loop bs' (Some (length bs')) (drop 2 r))
                else ipv6_loop bs' e (drop 1 r))"
  by pat_completeness auto
termination
  by (relation "measure (\<lambda>(bs, e, s). 16 - length bs)") auto

declare ipv6_loop.simps [simp del]

definition ipv6_finish :: "(nat list \<times> nat option \<times> string) \<Rightarrow> nat list option" where
  "ipv6_finish x =
     (case x of (bs, e, rest) \<Rightarrow>
        if rest \<noteq> [] then None
        else if length bs < 16 then
          map_option (\<lambda>k. take k bs @ replicate (16 - length bs) 0 @ drop k bs) e
        else if e \<noteq> None then None else Some bs)"

definition parse_ipv6 :: "string \<Rightarrow> ip_addr option" where
  "parse_ipv6 s =
     (let body = fst (cut_at (CHR ''%'') s); zone = snd (cut_at (CHR ''%'') s);
          wrap = map_option (\<lambda>bs. \<lparr>ip_bytes = bs, ip_zone = zone\<rparr>)
      in if CHR ''%'' \<in> set s \<and> zone = [] then None
         else if body = ''::'' then wrap (Some (replicate 16 0))
         else wrap (Option.bind
                (if has_prefix body ''::'' then ipv6_loop [] (Some 0) (drop 2 body)
                 else ipv6_loop [] None body) ipv6_finish))"

definition ParseAddr :: "string \<Rightarrow> ip_addr option" where
  "ParseAddr s =
     (case find (\<lambda>c. c \<in> set ''.:%'') s of
        None \<Rightarrow> None
      | Some c \<Rightarrow>
          if c = CHR ''.'' then map_option (\<lambda>bs. \<lparr>ip_bytes = bs, ip_zone = []\<rparr>) (parse_ipv4 s)
          else if c = CHR '':'' then parse_ipv6 s else None)"

text \<open>
  \<open>net.ParseCIDR\<close>: the network's address, reduced to four bytes when it is an IPv4 address,
  with every bit past the prefix cleared, and the prefix length over those bytes. \<open>dtoi\<close> refuses
  a mask of 0xFFFFFF or more. \<open>net.ParseIP\<close> and \<open>IP.To4\<close>, and \<open>IPNet.Contains\<close>, which compares the masked bytes.
\<close>

record ip_net =
  in_bytes :: "nat list"
  in_prefix :: nat

definition mapped_ipv4 :: "nat list" where
  "mapped_ipv4 = replicate 10 0 @ [255, 255]"

definition To4 :: "nat list \<Rightarrow> nat list" where
  "To4 bs = (if length bs = 16 \<and> take 12 bs = mapped_ipv4 then drop 12 bs else bs)"

fun mask_bytes :: "nat \<Rightarrow> nat list \<Rightarrow> nat list" where
  "mask_bytes n [] = []"
| "mask_bytes n (b # bs) =
     (if 8 \<le> n then b # mask_bytes (n - 8) bs
      else b div 2 ^ (8 - n) * 2 ^ (8 - n) # mask_bytes 0 bs)"

definition ParseCIDR :: "string \<Rightarrow> ip_net option" where
  "ParseCIDR s =
     (let (addr, mask) = cut_at (CHR ''/'') s
      in if CHR ''/'' \<notin> set s then None
         else case ParseAddr addr of
             None \<Rightarrow> None
           | Some ip \<Rightarrow>
               let bits = 8 * length (ip_bytes ip); n = dec_value mask;
                   bs = To4 (ip_bytes ip)
               in if ip_zone ip \<noteq> [] \<or> mask = [] \<or> \<not> list_all is_digit mask \<or> 0xFFFFFF \<le> n \<or> n > bits then None
                  else if length bs = length (ip_bytes ip) then Some \<lparr>in_bytes = mask_bytes n bs, in_prefix = n\<rparr>
                  else Some \<lparr>in_bytes = To4 (mask_bytes n (ip_bytes ip)), in_prefix = (if length (To4 (mask_bytes n (ip_bytes ip))) = 4 then n - 96 else n)\<rparr>)"

definition ParseIP :: "string \<Rightarrow> nat list option" where
  "ParseIP s =
     (case ParseAddr s of
        Some ip \<Rightarrow> if ip_zone ip = [] then Some (To4 (ip_bytes ip)) else None
      | None \<Rightarrow> None)"

definition net_contains :: "ip_net \<Rightarrow> nat list option \<Rightarrow> bool" where
  "net_contains net ip =
     (case ip of
        Some bs \<Rightarrow> length bs = length (in_bytes net) \<and> mask_bytes (in_prefix net) bs = in_bytes net
      | None \<Rightarrow> False)"

text \<open>\<open>filepath.Clean\<close> on a Unix system.\<close>

definition clean_step :: "bool \<Rightarrow> string \<Rightarrow> string list \<Rightarrow> string list" where
  "clean_step rooted part stack =
     (if part = [] \<or> part = ''.'' then stack
      else if part = ''..'' then
        (if stack \<noteq> [] \<and> hd stack \<noteq> ''..'' then tl stack
         else if rooted then stack else ''..'' # stack)
      else part # stack)"

definition path_Clean :: "string \<Rightarrow> string" where
  "path_Clean p =
     (let rooted = has_prefix p ''/'';
          body = join_with ''/'' (rev (fold (clean_step rooted) (split_on (CHR ''/'') p) []))
      in if rooted then ''/'' @ body else if body = [] then ''.'' else body)"

section \<open>URLs\<close>

record url =
  url_scheme :: string
  url_opaque :: string
  url_user :: bool
  url_host :: string
  url_path :: string
  url_query :: string
  url_fragment :: string

datatype encoding = EncodePath | EncodePathSegment | EncodeHost | EncodeZone | EncodeUserPassword
  | EncodeFragment

definition should_escape :: "char \<Rightarrow> encoding \<Rightarrow> bool" where
  "should_escape c m =
     (if is_alnum c then False
      else if m \<in> {EncodeHost, EncodeZone} \<and> c \<in> set (CHR 0x27 # CHR 0x22 # ''!$&()*+,;=:[]<>'') then False
      else if c \<in> set ''-_.~'' then False
      else if c \<in> set ''$&+,/:;=?@'' then
        (case m of
           EncodePath \<Rightarrow> c = CHR ''?''
         | EncodePathSegment \<Rightarrow> c \<in> set ''/;,?''
         | EncodeUserPassword \<Rightarrow> c \<in> set ''@/?:''
         | EncodeFragment \<Rightarrow> False
         | _ \<Rightarrow> True)
      else if m = EncodeFragment \<and> c \<in> set ''!()*'' then False
      else True)"

text \<open>\<open>unescape\<close>, for the modes in which \<open>+\<close> is literal.\<close>

fun unescape :: "encoding \<Rightarrow> string \<Rightarrow> string option" where
  "unescape m [] = Some []"
| "unescape m (c # cs) =
     (if c = CHR ''%'' then
        (case cs of
           h # l # rest \<Rightarrow>
             (case (hex_val h, hex_val l) of
                (Some x, Some y) \<Rightarrow>
                  (if m = EncodeHost \<and> x < 8 \<and> (h \<noteq> CHR ''2'' \<or> l \<noteq> CHR ''5'') then None
                   else if m = EncodeZone \<and> (h \<noteq> CHR ''2'' \<or> l \<noteq> CHR ''5'') \<and> 16 * x + y \<noteq> 32
                     \<and> should_escape (char_of (16 * x + y)) EncodeHost then None
                   else map_option ((#) (char_of (16 * x + y))) (unescape m rest))
              | _ \<Rightarrow> None)
         | _ \<Rightarrow> None)
      else if m \<in> {EncodeHost, EncodeZone} \<and> byte c < 128 \<and> should_escape c m then None
      else map_option ((#) c) (unescape m cs))"

definition hex_upper :: "nat \<Rightarrow> char" where
  "hex_upper n = char_of (if n < 10 then 48 + n else 55 + n)"

definition PathEscape :: "string \<Rightarrow> string" where
  "PathEscape s = concat (map (\<lambda>c.
     if should_escape c EncodePathSegment
     then [CHR ''%'', hex_upper (byte c div 16), hex_upper (byte c mod 16)] else [c]) s)"

definition PathUnescape :: "string \<Rightarrow> string option" where
  "PathUnescape s = unescape EncodePathSegment s"

definition valid_optional_port :: "string \<Rightarrow> bool" where
  "valid_optional_port p = (p = [] \<or> (hd p = CHR '':'' \<and> list_all is_digit (tl p)))"

text \<open>
  \<open>parseHost\<close>: an IP literal in brackets must be an IPv6 address; otherwise the first colon
  starts the port. (The exception for the schemes postgres and postgresql is left out: every
  caller insists on https.)
\<close>

definition parse_literal_host :: "string \<Rightarrow> string option" where
  "parse_literal_host body =
     (case cut_last (CHR '']'') body of
        None \<Rightarrow> None
      | Some (hostname, port) \<Rightarrow>
          if \<not> valid_optional_port port then None
          else
            let pre = takeWhile (\<lambda>n. \<not> has_prefix (drop n hostname) ''%25'') [0..<length hostname];
                k = length pre
            in Option.bind (unescape EncodeHost (take k hostname)) (\<lambda>a.
               Option.bind (unescape EncodeZone (drop k hostname)) (\<lambda>z.
               (case ParseAddr (a @ z) of
                  None \<Rightarrow> None
                | Some addr \<Rightarrow>
                    if length (ip_bytes addr) = 4 then None
                    else Some (''['' @ a @ z @ '']'' @ port)))))"

definition parse_host :: "string \<Rightarrow> string option" where
  "parse_host h =
     (if CHR ''['' \<in> set h then
        (if hd h = CHR ''['' \<and> CHR ''['' \<notin> set (tl h) then parse_literal_host (tl h) else None)
      else if \<not> valid_optional_port (dropWhile (\<lambda>c. c \<noteq> CHR '':'') h) then None
      else unescape EncodeHost h)"

definition valid_userinfo :: "string \<Rightarrow> bool" where
  "valid_userinfo s = list_all (\<lambda>c. is_alnum c \<or> c \<in> set (CHR 0x27 # ''-._:~!$&()*+,;=%@'')) s"

definition parse_authority :: "string \<Rightarrow> (bool \<times> string) option" where
  "parse_authority a =
     (case cut_last (CHR ''@'') a of
        None \<Rightarrow> map_option (\<lambda>h. (False, h)) (parse_host a)
      | Some (info, h) \<Rightarrow>
          Option.bind (parse_host h) (\<lambda>host.
            if \<not> valid_userinfo info then None
            else Option.bind (unescape EncodeUserPassword (fst (cut_at (CHR '':'') info))) (\<lambda>_.
                 map_option (\<lambda>_. (True, host))
                   (unescape EncodeUserPassword (snd (cut_at (CHR '':'') info))))))"

text \<open>\<open>getScheme\<close>: the scheme, or nothing when a character that cannot occur in one comes first.\<close>

fun scheme_scan :: "string \<Rightarrow> string \<Rightarrow> (string \<times> string) option" where
  "scheme_scan raw [] = Some ([], raw)"
| "scheme_scan raw (c # cs) =
     (let i = length raw - length (c # cs)
      in if is_alnum c \<and> \<not> is_digit c then scheme_scan raw cs
         else if is_digit c \<or> c \<in> set ''+-.'' then
           (if i = 0 then Some ([], raw) else scheme_scan raw cs)
         else if c = CHR '':'' then (if i = 0 then None else Some (take i raw, cs))
         else Some ([], raw))"

definition contains_ctl_byte :: "string \<Rightarrow> bool" where
  "contains_ctl_byte s = list_ex (\<lambda>c. byte c < 32 \<or> byte c = 127) s"

definition split_query :: "string \<Rightarrow> string \<times> string" where
  "split_query rest =
     (if has_suffix rest ''?'' \<and> length (filter (\<lambda>c. c = CHR ''?'') rest) = 1
      then (butlast rest, []) else cut_at (CHR ''?'') rest)"

definition empty_url :: url where
  "empty_url = \<lparr>url_scheme = [], url_opaque = [], url_user = False, url_host = [], url_path = [],
     url_query = [], url_fragment = []\<rparr>"

definition parse_rest :: "bool \<Rightarrow> string \<Rightarrow> string \<Rightarrow> string \<Rightarrow> url option" where
  "parse_rest viaRequest scheme rest query =
     (let u = empty_url\<lparr>url_scheme := scheme, url_query := query\<rparr>;
          set_path = (\<lambda>u p. map_option (\<lambda>q. u\<lparr>url_path := q\<rparr>) (unescape EncodePath p))
      in if \<not> has_prefix rest ''/'' \<and> scheme \<noteq> [] then Some (u\<lparr>url_opaque := rest\<rparr>)
         else if \<not> has_prefix rest ''/'' \<and> viaRequest then None
         else if \<not> has_prefix rest ''/'' \<and> CHR '':'' \<in> set (fst (cut_at (CHR ''/'') rest)) then None
         else if (scheme \<noteq> [] \<or> (\<not> viaRequest \<and> \<not> has_prefix rest ''///'')) \<and> has_prefix rest ''//'' then
           (let authority = takeWhile (\<lambda>c. c \<noteq> CHR ''/'') (drop 2 rest);
                path = dropWhile (\<lambda>c. c \<noteq> CHR ''/'') (drop 2 rest)
            in Option.bind (parse_authority authority) (\<lambda>(user, host).
                 set_path (u\<lparr>url_user := user, url_host := host\<rparr>) path))
         else set_path u rest)"

definition parse_url :: "string \<Rightarrow> bool \<Rightarrow> url option" where
  "parse_url raw viaRequest =
     (if contains_ctl_byte raw \<or> (raw = [] \<and> viaRequest) then None
      else if raw = ''*'' then Some (empty_url\<lparr>url_path := ''*''\<rparr>)
      else Option.bind (scheme_scan raw raw) (\<lambda>(scheme, rest).
        case split_query rest of (body, query) \<Rightarrow>
          parse_rest viaRequest (to_lower scheme) body query))"

definition ParseRequestURI :: "string \<Rightarrow> url option" where
  "ParseRequestURI raw = parse_url raw True"

definition url_Parse :: "string \<Rightarrow> url option" where
  "url_Parse raw =
     (case cut_at (CHR ''#'') raw of (body, fragment) \<Rightarrow>
        Option.bind (parse_url body False) (\<lambda>u.
          map_option (\<lambda>f. u\<lparr>url_fragment := f\<rparr>) (unescape EncodeFragment fragment)))"

definition split_host_port :: "string \<Rightarrow> string \<times> string" where
  "split_host_port hp =
     (let (h, p) = (case cut_last (CHR '':'') hp of
                      None \<Rightarrow> (hp, [])
                    | Some (a, b) \<Rightarrow> if list_all is_digit b then (a, b) else (hp, []))
      in (if has_prefix h ''['' \<and> has_suffix h '']'' then butlast (tl h) else h, p))"

definition Hostname :: "url \<Rightarrow> string" where "Hostname u = fst (split_host_port (url_host u))"
definition Port :: "url \<Rightarrow> string" where "Port u = snd (split_host_port (url_host u))"

section \<open>Lemmas\<close>

lemma hex_val_upper: "n < 16 \<Longrightarrow> hex_val (hex_upper n) = Some n"
  by (auto simp: hex_val_def hex_upper_def is_digit_def)

lemma unescape_path_escape:
  "unescape EncodePathSegment (PathEscape s) = Some s"
proof (induction s)
  case (Cons c s)
  have "16 * (byte c div 16) + byte c mod 16 = byte c" by simp
  moreover have "byte c div 16 < 16"
    by (rule less_mult_imp_div_less) (use nat_of_char_less_256 [of c] in simp)
  moreover have "\<not> should_escape c EncodePathSegment \<Longrightarrow> c \<noteq> CHR ''%''"
    by (auto simp: should_escape_def is_alnum_def is_digit_def)
  ultimately show ?case
    using Cons by (auto simp: PathEscape_def hex_val_upper)
qed (simp add: PathEscape_def)

lemma PathUnescape_PathEscape [simp]: "PathUnescape (PathEscape s) = Some s"
  by (simp add: PathUnescape_def unescape_path_escape)

end
