(* ===== verification/Json.thy ===== *)
theory Json
  imports Go_Net
begin

text \<open>
  What the parsers use of Go's encoding/json: the syntax of a value, and decoding into structs,
  slices and maps. A number keeps its text (\<open>UseNumber\<close>). Go's limit of 10000 nested values and
  the reuse of a slice's stale elements beyond its length, which needs one key three times in an
  object, are not modelled.
\<close>

section \<open>Text to value\<close>

datatype json = JNull | JBool bool | JNum string | JStr string | JArr "json list"
  | JObj "(string \<times> json) list"

definition json_space :: "char \<Rightarrow> bool" where
  "json_space c \<longleftrightarrow> c \<in> {CHR 0x20, CHR 0x09, CHR 0x0D, CHR 0x0A}"

definition skip_ws :: "string \<Rightarrow> string" where
  "skip_ws s = dropWhile json_space s"

text \<open>A number token: the longest prefix of the grammar, with an error where a part is cut short.\<close>

definition digits1 :: "string \<Rightarrow> (string \<times> string) option" where
  "digits1 s =
     (let d = takeWhile is_digit s in if d = [] then None else Some (d, drop (length d) s))"

definition number_int :: "string \<Rightarrow> (string \<times> string) option" where
  "number_int s = (if has_prefix s ''0'' then Some (''0'', drop 1 s) else digits1 s)"

definition number_frac :: "string \<Rightarrow> (string \<times> string) option" where
  "number_frac s =
     (if has_prefix s ''.'' then map_option (\<lambda>(d, r). (CHR ''.'' # d, r)) (digits1 (drop 1 s))
      else Some ([], s))"

definition number_exp :: "string \<Rightarrow> (string \<times> string) option" where
  "number_exp s =
     (case s of
        e # r \<Rightarrow>
          if e \<in> {CHR ''e'', CHR ''E''} then
            (let sign = (if has_prefix r ''+'' \<or> has_prefix r ''-'' then take 1 r else [])
             in map_option (\<lambda>(d, t). (e # sign @ d, t)) (digits1 (drop (length sign) r)))
          else Some ([], s)
      | [] \<Rightarrow> Some ([], s))"

definition parse_number :: "string \<Rightarrow> (string \<times> string) option" where
  "parse_number s =
     (let sign = (if has_prefix s ''-'' then ''-'' else [])
      in Option.bind (number_int (drop (length sign) s)) (\<lambda>(i, r).
         Option.bind (number_frac r) (\<lambda>(f, t).
         map_option (\<lambda>(e, u). (sign @ i @ f @ e, u)) (number_exp t))))"

text \<open>The length of the valid UTF-8 sequence at the start of a text, 0 when there is none.\<close>

definition continuation :: "nat \<Rightarrow> nat \<Rightarrow> string \<Rightarrow> nat \<Rightarrow> bool" where
  "continuation lo hi s i \<longleftrightarrow> i < length s \<and> lo \<le> byte (s ! i) \<and> byte (s ! i) \<le> hi"

definition utf8_len :: "string \<Rightarrow> nat" where
  "utf8_len s =
     (let b = byte (hd s); cont = continuation 128 191 s
      in if s = [] then 0
         else if b < 128 then 1
         else if 194 \<le> b \<and> b \<le> 223 then (if cont 1 then 2 else 0)
         else if 224 \<le> b \<and> b \<le> 239 then
           (if continuation (if b = 224 then 160 else 128) (if b = 237 then 159 else 191) s 1 \<and> cont 2
            then 3 else 0)
         else if 240 \<le> b \<and> b \<le> 244 then
           (if continuation (if b = 240 then 144 else 128) (if b = 244 then 143 else 191) s 1
              \<and> cont 2 \<and> cont 3
            then 4 else 0)
         else 0)"

definition utf8_encode :: "nat \<Rightarrow> string" where
  "utf8_encode r =
     (if r < 128 then [char_of r]
      else if r < 2048 then [char_of (192 + r div 64), char_of (128 + r mod 64)]
      else if r < 65536 then
        [char_of (224 + r div 4096), char_of (128 + r div 64 mod 64), char_of (128 + r mod 64)]
      else [char_of (240 + r div 262144), char_of (128 + r div 4096 mod 64),
        char_of (128 + r div 64 mod 64), char_of (128 + r mod 64)])"

definition replacement :: string where
  "replacement = [CHR 0xEF, CHR 0xBF, CHR 0xBD]"

text \<open>Four hexadecimal digits after \<open>u\<close>, and a low surrogate's escape after a high one.\<close>

definition hex4 :: "string \<Rightarrow> nat option" where
  "hex4 s = (if 4 \<le> length s \<and> list_all is_hex (take 4 s) then Some (hex_value (take 4 s)) else None)"

definition low_surrogate :: "string \<Rightarrow> nat option" where
  "low_surrogate s =
     (if has_prefix s [CHR 0x5C, CHR ''u''] then
        (case hex4 (drop 2 s) of
           Some v \<Rightarrow> (if 56320 \<le> v \<and> v < 57344 then Some v else None)
         | None \<Rightarrow> None)
      else None)"

definition unicode_escape :: "string \<Rightarrow> (string \<times> nat) option" where
  "unicode_escape s =
     (case hex4 s of
        None \<Rightarrow> None
      | Some v \<Rightarrow>
          if v < 55296 \<or> 57344 \<le> v then Some (utf8_encode v, 4)
          else if v < 56320 then
            (case low_surrogate (drop 4 s) of
               Some w \<Rightarrow> Some (utf8_encode (65536 + (v - 55296) * 1024 + (w - 56320)), 10)
             | None \<Rightarrow> Some (replacement, 4))
          else Some (replacement, 4))"

definition simple_escape :: "char \<Rightarrow> char option" where
  "simple_escape c =
     map_of [(CHR 0x22, CHR 0x22), (CHR 0x5C, CHR 0x5C), (CHR ''/'', CHR ''/''), (CHR ''b'', CHR 0x08),
       (CHR ''f'', CHR 0x0C), (CHR ''n'', CHR 0x0A), (CHR ''r'', CHR 0x0D), (CHR ''t'', CHR 0x09)] c"

text \<open>The rest of a string after its opening quote.\<close>

fun parse_string :: "string \<Rightarrow> (string \<times> string) option" where
  "parse_string [] = None"
| "parse_string (c # cs) =
     (if c = CHR 0x22 then Some ([], cs)
      else if c = CHR 0x5C then
        (case cs of
           [] \<Rightarrow> None
         | e # r \<Rightarrow>
             if e = CHR ''u'' then
               (case unicode_escape r of
                  None \<Rightarrow> None
                | Some (t, k) \<Rightarrow> map_option (\<lambda>(u, rest). (t @ u, rest)) (parse_string (drop k r)))
             else
               (case simple_escape e of
                  None \<Rightarrow> None
                | Some d \<Rightarrow> map_option (\<lambda>(u, rest). (d # u, rest)) (parse_string r)))
      else if byte c < 32 then None
      else if utf8_len (c # cs) = 0 then
        map_option (\<lambda>(u, rest). (replacement @ u, rest)) (parse_string cs)
      else map_option (\<lambda>(u, rest). (take (utf8_len (c # cs)) (c # cs) @ u, rest))
        (parse_string (drop (utf8_len (c # cs) - 1) cs)))"

text \<open>A value, the members after \<open>{\<close>, and the elements after \<open>[\<close>, with fuel for the nesting.\<close>

fun parse_value :: "nat \<Rightarrow> string \<Rightarrow> (json \<times> string) option"
  and parse_members :: "nat \<Rightarrow> string \<Rightarrow> ((string \<times> json) list \<times> string) option"
  and parse_elements :: "nat \<Rightarrow> string \<Rightarrow> (json list \<times> string) option" where
  "parse_value 0 s = None"
| "parse_value (Suc n) s =
     (case skip_ws s of
        [] \<Rightarrow> None
      | c # cs \<Rightarrow>
          if c = CHR ''{'' then
            (if has_prefix (skip_ws cs) ''}'' then Some (JObj [], drop 1 (skip_ws cs))
             else map_option (\<lambda>(ms, r). (JObj ms, r)) (parse_members n cs))
          else if c = CHR ''['' then
            (if has_prefix (skip_ws cs) '']'' then Some (JArr [], drop 1 (skip_ws cs))
             else map_option (\<lambda>(js, r). (JArr js, r)) (parse_elements n cs))
          else if c = CHR 0x22 then map_option (\<lambda>(u, r). (JStr u, r)) (parse_string cs)
          else if has_prefix (c # cs) ''true'' then Some (JBool True, drop 3 cs)
          else if has_prefix (c # cs) ''false'' then Some (JBool False, drop 4 cs)
          else if has_prefix (c # cs) ''null'' then Some (JNull, drop 3 cs)
          else map_option (\<lambda>(t, r). (JNum t, r)) (parse_number (c # cs)))"
| "parse_members 0 s = None"
| "parse_members (Suc n) s =
     (if \<not> has_prefix (skip_ws s) [CHR 0x22] then None
      else Option.bind (parse_string (drop 1 (skip_ws s))) (\<lambda>(k, r).
        if \<not> has_prefix (skip_ws r) '':'' then None
        else Option.bind (parse_value n (drop 1 (skip_ws r))) (\<lambda>(v, t).
          if has_prefix (skip_ws t) '','' then
            map_option (\<lambda>(ms, u). ((k, v) # ms, u)) (parse_members n (drop 1 (skip_ws t)))
          else if has_prefix (skip_ws t) ''}'' then Some ([(k, v)], drop 1 (skip_ws t))
          else None)))"
| "parse_elements 0 s = None"
| "parse_elements (Suc n) s =
     Option.bind (parse_value n s) (\<lambda>(v, t).
       if has_prefix (skip_ws t) '','' then
         map_option (\<lambda>(js, u). (v # js, u)) (parse_elements n (drop 1 (skip_ws t)))
       else if has_prefix (skip_ws t) '']'' then Some ([v], drop 1 (skip_ws t))
       else None)"

text \<open>
  \<open>Decoder.Decode\<close> into an \<open>any\<close>: the first value of the text, whatever follows it;
  \<open>json.Unmarshal\<close> and \<open>decodeJSON\<close>: the only value of the text.
\<close>

definition decode_first :: "string \<Rightarrow> (json \<times> string) option" where
  "decode_first s = parse_value (2 * length s + 1) s"

definition decode_only :: "string \<Rightarrow> json option" where
  "decode_only s =
     (case decode_first s of
        None \<Rightarrow> None
      | Some (v, rest) \<Rightarrow> if skip_ws rest = [] then Some v else None)"

section \<open>Value to Go data\<close>

text \<open>
  A decoder takes the value and what the target holds before, and fails where encoding/json
  reports an error; null leaves a string, a bool and a struct as they are.
\<close>

type_synonym 'a decoder = "json \<Rightarrow> 'a \<Rightarrow> 'a result"

definition type_error :: "'a result" where
  "type_error = Inl (DecodeError ''cannot unmarshal'')"

definition dec_string :: "string decoder" where
  "dec_string j old = (case j of JStr s \<Rightarrow> Inr s | JNull \<Rightarrow> Inr old | _ \<Rightarrow> type_error)"

definition dec_bool_ptr :: "bool option decoder" where
  "dec_bool_ptr j old = (case j of JBool b \<Rightarrow> Inr (Some b) | JNull \<Rightarrow> Inr None | _ \<Rightarrow> type_error)"

fun dec_elements :: "'a decoder \<Rightarrow> 'a \<Rightarrow> json list \<Rightarrow> 'a list \<Rightarrow> 'a list result" where
  "dec_elements dec zero [] olds = Inr []"
| "dec_elements dec zero (j # js) olds =
     andThen (dec j (case olds of [] \<Rightarrow> zero | x # _ \<Rightarrow> x)) (\<lambda>y.
       andThen (dec_elements dec zero js (tl olds)) (\<lambda>ys. Inr (y # ys)))"

definition dec_slice :: "'a decoder \<Rightarrow> 'a \<Rightarrow> 'a list decoder" where
  "dec_slice dec zero j olds =
     (case j of JArr js \<Rightarrow> dec_elements dec zero js olds | JNull \<Rightarrow> Inr [] | _ \<Rightarrow> type_error)"

text \<open>A struct: its fields by name, each with the decoder of its target; an exact name before a
  name equal up to case.\<close>

type_synonym 'r fields = "(string \<times> 'r decoder) list"

definition field_for :: "'r fields \<Rightarrow> string \<Rightarrow> 'r decoder option" where
  "field_for fs key =
     (case map_of fs key of
        Some dec \<Rightarrow> Some dec
      | None \<Rightarrow> map_option snd (find (\<lambda>(name, dec). equal_fold name key) fs))"

definition dec_struct :: "'r fields \<Rightarrow> 'r decoder" where
  "dec_struct fs j old =
     (case j of
        JObj ms \<Rightarrow> foldE (\<lambda>(key, v) r.
          case field_for fs key of None \<Rightarrow> Inr r | Some dec \<Rightarrow> dec v r) ms old
      | JNull \<Rightarrow> Inr old
      | _ \<Rightarrow> type_error)"

definition into :: "'a decoder \<Rightarrow> ('r \<Rightarrow> 'a) \<Rightarrow> ('a \<Rightarrow> 'r \<Rightarrow> 'r) \<Rightarrow> 'r decoder" where
  "into dec get put j r = andThen (dec j (get r)) (\<lambda>v. Inr (put v r))"

text \<open>A map with string keys: a later member replaces an earlier one.\<close>

definition dec_map :: "json \<Rightarrow> (string \<Rightarrow> json option) result" where
  "dec_map j =
     (case j of JObj ms \<Rightarrow> Inr (map_of (rev ms)) | JNull \<Rightarrow> Inr (\<lambda>_. None) | _ \<Rightarrow> type_error)"

text \<open>\<open>decodeJSON\<close> of parser.go: one JSON value and nothing after it, decoded into the target.\<close>

definition decodeJSON :: "(json \<Rightarrow> 'a result) \<Rightarrow> string \<Rightarrow> 'a result" where
  "decodeJSON dec data =
     (case decode_first data of
        None \<Rightarrow> Inl (Wrap ''decode ECS response: %w'' [] (DecodeError ''syntax''))
      | Some (j, rest) \<Rightarrow>
          andThen (wrap_error ''decode ECS response: %w'' [] (dec j)) (\<lambda>v.
            if skip_ws rest = [] then Inr v
            else if decode_first rest \<noteq> None then Inl (Msg ''decode ECS response: multiple JSON values'')
            else Inl (Wrap ''decode ECS response trailing data: %w'' [] (DecodeError ''syntax''))))"

lemma decodeJSON_Inr:
  "decodeJSON dec data = Inr v \<longleftrightarrow> (\<exists>j. decode_only data = Some j \<and> dec j = Inr v)"
  by (auto simp: decodeJSON_def decode_only_def andThen_Inr split: option.splits if_splits)

section \<open>Enough fuel\<close>

lemma skip_ws_le: "length (skip_ws s) \<le> length s"
  by (simp add: skip_ws_def length_dropWhile_le)

lemma drop_prefix_less: "has_prefix s p \<Longrightarrow> p \<noteq> [] \<Longrightarrow> length (drop 1 s) < length s"
  by (cases s) (auto simp: has_prefix_def)

lemma parse_string_le: "parse_string s = Some (u, r) \<Longrightarrow> length r < length s"
proof (induction s arbitrary: u rule: parse_string.induct)
  case (2 c cs)
  then show ?case
    by (fastforce split: if_splits list.splits option.splits prod.splits)
qed simp

lemma digits1_le: "digits1 s = Some (d, r) \<Longrightarrow> length r < length s"
  by (cases s) (auto simp: digits1_def Let_def split: if_splits)

lemma parse_number_le: "parse_number s = Some (t, r) \<Longrightarrow> length r < length s"
proof -
  have f: "number_frac s = Some (d, r) \<Longrightarrow> length r \<le> length s" for s d r
    by (auto simp: number_frac_def split: if_splits dest!: digits1_le)
  have e: "number_exp s = Some (d, r) \<Longrightarrow> length r \<le> length s" for s d r
    by (auto simp: number_exp_def Let_def split: if_splits list.splits dest!: digits1_le)
  have i: "number_int s = Some (d, r) \<Longrightarrow> length r < length s" for s d r
    by (cases s) (auto simp: number_int_def has_prefix_def split: if_splits dest!: digits1_le)
  assume "parse_number s = Some (t, r)"
  then show ?thesis
    by (force simp: parse_number_def Let_def Option.bind_eq_Some_conv dest!: i f e)
qed

lemma after_ws_less: "has_prefix (skip_ws s) p \<Longrightarrow> p \<noteq> [] \<Longrightarrow> length (drop 1 (skip_ws s)) < length s"
  using drop_prefix_less [of "skip_ws s" p] skip_ws_le [of s] by linarith

lemma after_ws_le: "length (drop 1 (skip_ws s)) \<le> length s"
  using skip_ws_le [of s] by simp

lemma Cons_ws_less: "skip_ws s = c # cs \<Longrightarrow> length cs < length s"
  using skip_ws_le [of s] by simp

lemma parse_le:
  "(parse_value n s = Some (v, r) \<longrightarrow> length r < length s)
   \<and> (parse_members n s = Some (ms, r) \<longrightarrow> length r < length s)
   \<and> (parse_elements n s = Some (js, r) \<longrightarrow> length r < length s)"
proof (induction n arbitrary: s v ms js r)
  case (Suc n)
  have V: "length r < length s" if "parse_value n s = Some (v, r)" for s v r using Suc that by blast
  have M: "length r < length s" if "parse_members n s = Some (ms, r)" for s ms r using Suc that by blast
  have E: "length r < length s" if "parse_elements n s = Some (js, r)" for s js r using Suc that by blast
  have "length r < length s" if p: "parse_value (Suc n) s = Some (v, r)"
  proof -
    from p obtain c cs where s: "skip_ws s = c # cs" by (auto split: list.splits)
    have "length r < Suc (length cs)"
      using p after_ws_le [of cs]
      by (auto simp: s split: if_splits dest!: parse_string_le parse_number_le M E)
    then show ?thesis using Cons_ws_less [OF s] by linarith
  qed
  moreover have "length r < length s" if p: "parse_members (Suc n) s = Some (ms, r)"
  proof -
    from p obtain k t v u where a: "has_prefix (skip_ws s) [CHR 0x22]"
        "parse_string (drop 1 (skip_ws s)) = Some (k, t)" "has_prefix (skip_ws t) '':''"
        "parse_value n (drop 1 (skip_ws t)) = Some (v, u)"
      and rest: "length r \<le> length (drop 1 (skip_ws u)) \<or> length r < length (drop 1 (skip_ws u))"
      by (auto simp: Option.bind_eq_Some_conv split: if_splits dest: M)
    show ?thesis
      using after_ws_less [OF a(1) list.distinct(2)] parse_string_le [OF a(2)] after_ws_le [of t] V [OF a(4)] after_ws_le [of u]
        rest by linarith
  qed
  moreover have "length r < length s" if p: "parse_elements (Suc n) s = Some (js, r)"
  proof -
    from p obtain v u where a: "parse_value n s = Some (v, u)"
      and rest: "length r \<le> length (drop 1 (skip_ws u)) \<or> length r < length (drop 1 (skip_ws u))"
      by (auto simp: Option.bind_eq_Some_conv split: if_splits dest: E)
    show ?thesis using V [OF a(1)] after_ws_le [of u] rest by linarith
  qed
  ultimately show ?case by blast
qed simp

lemma parse_value_le: "parse_value n s = Some (v, r) \<Longrightarrow> length r < length s"
  using parse_le by blast

text \<open>Past the bound, more fuel changes nothing.\<close>

lemma fuel_step:
  "(2 * length s < n \<longrightarrow> parse_value (Suc n) s = parse_value n s)
   \<and> (2 * length s < n \<longrightarrow> parse_members (Suc n) s = parse_members n s)
   \<and> (2 * length s + 1 < n \<longrightarrow> parse_elements (Suc n) s = parse_elements n s)"
proof (induction n arbitrary: s)
  case (Suc n)
  have V: "parse_value (Suc n) s = parse_value n s" if "2 * length s < n" for s using Suc that by blast
  have M: "parse_members (Suc n) s = parse_members n s" if "2 * length s < n" for s using Suc that by blast
  have E: "parse_elements (Suc n) s = parse_elements n s" if "2 * length s + 1 < n" for s using Suc that by blast
  have "parse_value (Suc (Suc n)) s = parse_value (Suc n) s" if l: "2 * length s < Suc n"
  proof (cases "skip_ws s")
    case (Cons c cs)
    then have "2 * length cs + 1 < n" using l Cons_ws_less [OF Cons] by linarith
    then show ?thesis using M [of cs] E [of cs] by (simp add: Cons)
  qed simp
  moreover have "parse_members (Suc (Suc n)) s = parse_members (Suc n) s" if l: "2 * length s < Suc n"
  proof (cases "has_prefix (skip_ws s) [CHR 0x22]")
    case True
    then have q: "2 * length (drop 1 (skip_ws s)) < n" using l after_ws_less by fastforce
    have v: "parse_value (Suc n) (drop 1 (skip_ws t)) = parse_value n (drop 1 (skip_ws t))"
      if "parse_string (drop 1 (skip_ws s)) = Some (k, t)" for k t
      using parse_string_le [OF that] after_ws_le [of t] q by (intro V) linarith
    have m: "parse_members (Suc n) (drop 1 (skip_ws u)) = parse_members n (drop 1 (skip_ws u))"
      if "parse_string (drop 1 (skip_ws s)) = Some (k, t)" "parse_value n (drop 1 (skip_ws t)) = Some (v, u)" for k t v u
      using parse_string_le [OF that(1)] after_ws_le [of t] parse_value_le [OF that(2)] after_ws_le [of u] q
      by (intro M) linarith
    show ?thesis
    proof (cases "parse_string (drop 1 (skip_ws s))")
      case (Some kt)
      obtain k t where kt: "kt = (k, t)" by fastforce
      show ?thesis
        using v [of k t] m [of k t] Some True
        by (subst (1 2) parse_members.simps) (auto simp: kt simp del: parse_members.simps parse_value.simps
          intro!: Option.bind_cong)
    qed (simp add: True)
  qed simp
  moreover have "parse_elements (Suc (Suc n)) s = parse_elements (Suc n) s" if l: "2 * length s + 1 < Suc n"
  proof -
    have v: "parse_value (Suc n) s = parse_value n s" using l by (intro V) simp
    have e: "parse_elements (Suc n) (drop 1 (skip_ws u)) = parse_elements n (drop 1 (skip_ws u))"
      if "parse_value n s = Some (v, u)" for v u
      using parse_value_le [OF that] after_ws_le [of u] l by (intro E) linarith
    show ?thesis
      using v e by (subst (1 2) parse_elements.simps) (auto simp del: parse_elements.simps parse_value.simps
          intro!: Option.bind_cong)
  qed
  ultimately show ?case by blast
qed simp

lemma fuel_enough:
  assumes "2 * length s < n" shows "parse_value n s = decode_first s"
proof -
  have "parse_value (2 * length s + 1 + k) s = parse_value (2 * length s + 1) s" for k
    by (induction k) (use fuel_step in auto)
  from this [of "n - (2 * length s + 1)"] show ?thesis
    using assms by (simp add: decode_first_def)
qed

end
