(* ===== verification/Number.thy ===== *)
theory Number
  imports Json Float64
begin

text \<open>
  internal/ecs/number.go, with \<open>strconv.ParseFloat\<close>: ECS sends numbers as JSON numbers or as
  numeric strings, and the exporter takes either when its value is finite.
\<close>

section \<open>ParseFloat\<close>

definition lower_char :: "char \<Rightarrow> char" where
  "lower_char c = ascii_lower c"

definition hex_letter :: "char \<Rightarrow> bool" where
  "hex_letter c \<longleftrightarrow> is_hex c \<and> \<not> is_digit c"

text \<open>Mantissa: digits, underscores and at most one point.\<close>

fun mantissa_scan :: "bool \<Rightarrow> bool \<Rightarrow> string \<Rightarrow> string" where
  "mantissa_scan hex dot [] = []"
| "mantissa_scan hex dot (c # cs) =
     (if c = CHR ''_'' \<or> is_digit c \<or> (hex \<and> hex_letter c) then c # mantissa_scan hex dot cs
      else if c = CHR ''.'' \<and> \<not> dot then c # mantissa_scan hex True cs
      else [])"

text \<open>\<open>underscoreOK\<close>: an underscore only between digits; a base prefix counts as one.\<close>

datatype underscore_state = AtStart | AfterDigit | AfterUnderscore | AfterOther

fun underscores_ok :: "bool \<Rightarrow> underscore_state \<Rightarrow> string \<Rightarrow> bool" where
  "underscores_ok hex saw [] = (saw \<noteq> AfterUnderscore)"
| "underscores_ok hex saw (c # cs) =
     (if is_digit c \<or> (hex \<and> hex_letter c) then underscores_ok hex AfterDigit cs
      else if c = CHR ''_'' then saw = AfterDigit \<and> underscores_ok hex AfterUnderscore cs
      else saw \<noteq> AfterUnderscore \<and> underscores_ok hex AfterOther cs)"

text \<open>The exponent stops growing once it has five digits, as in \<open>readFloat\<close>.\<close>

definition exponent_value :: "string \<Rightarrow> nat" where
  "exponent_value ds = fold (\<lambda>c e. if e < 10000 then 10 * e + digit_val c else e) ds 0"

definition read_exponent :: "char \<Rightarrow> string \<Rightarrow> int option" where
  "read_exponent letter s =
     (case s of
        [] \<Rightarrow> Some 0
      | c # r \<Rightarrow>
          if lower_char c \<noteq> letter then None
          else
            (let negative = has_prefix r ''-'';
                 ds = (if negative \<or> has_prefix r ''+'' then drop 1 r else r)
             in if ds = [] \<or> \<not> is_digit (hd ds) \<or> \<not> list_all (\<lambda>d. is_digit d \<or> d = CHR ''_'') ds then None
                else Some ((if negative then -1 else 1) * int (exponent_value (filter is_digit ds)))))"

definition digits_value :: "nat \<Rightarrow> string \<Rightarrow> nat" where
  "digits_value base ds = fold (\<lambda>c n. base * n + the (hex_val c)) ds 0"

definition unsigned_float :: "bool \<Rightarrow> string \<Rightarrow> rat option" where
  "unsigned_float hex body =
     (let m = mantissa_scan hex False body;
          rest = drop (length m) body;
          base = (if hex then 16 else 10 :: nat);
          ds = filter is_hex m;
          fracs = filter is_hex (dropWhile (\<lambda>c. c \<noteq> CHR ''.'') m)
      in if ds = [] \<or> (hex \<and> rest = []) then None
         else map_option (\<lambda>e.
           of_nat (digits_value base ds) * of_nat base powi (- int (length fracs))
             * (if hex then 2 else 10) powi e)
           (read_exponent (if hex then CHR ''p'' else CHR ''e'') rest))"

definition special_float :: "bool \<Rightarrow> string \<Rightarrow> f64 option" where
  "special_float signed_negative body =
     (if map lower_char body \<in> {''inf'', ''infinity''} then Some (Inf signed_negative)
      else None)"

definition ParseFloat :: "string \<Rightarrow> f64 option" where
  "ParseFloat s =
     (let negative = has_prefix s ''-'';
          body = (if negative \<or> has_prefix s ''+'' then drop 1 s else s);
          hex = (2 < length body \<and> hd body = CHR ''0'' \<and> lower_char (body ! 1) = CHR ''x'');
          digits = (if hex then drop 2 body else body)
      in if map lower_char s = ''nan'' then Some NaN
         else case special_float negative body of
             Some x \<Rightarrow> Some x
           | None \<Rightarrow>
               (case unsigned_float hex digits of
                  None \<Rightarrow> None
                | Some r \<Rightarrow>
                    if CHR ''_'' \<in> set body
                      \<and> \<not> underscores_ok hex (if hex then AfterDigit else AtStart) digits then None
                    else if f64_finite (pack negative r) then Some (pack negative r) else None))"

section \<open>Number\<close>

record number =
  num_value :: f64
  num_valid :: bool

definition no_number :: number where
  "no_number = \<lparr>num_value = fzero, num_valid = False\<rparr>"

definition setNumber :: "string \<Rightarrow> number result" where
  "setNumber text =
     (case ParseFloat text of
        Some parsed \<Rightarrow>
          if f64_finite parsed then Inr \<lparr>num_value = parsed, num_valid = True\<rparr>
          else Inl (Errorf ''invalid finite number %q'' [text])
      | None \<Rightarrow> Inl (Errorf ''invalid finite number %q'' [text]))"

definition numberFrom :: "json \<Rightarrow> number result" where
  "numberFrom raw =
     (case raw of
        JNum t \<Rightarrow> setNumber t
      | JStr t \<Rightarrow> setNumber t
      | _ \<Rightarrow> Inl (Msg ''expected number or numeric string''))"

text \<open>The method on the bytes it is given, and as a decoder of one value of a response.\<close>

definition UnmarshalJSON :: "string \<Rightarrow> number result" where
  "UnmarshalJSON data =
     (if trim_space data = ''null'' then Inr no_number
      else case decode_first data of
          None \<Rightarrow> Inl (DecodeError ''syntax'')
        | Some (raw, rest) \<Rightarrow> numberFrom raw)"

definition dec_number :: "number decoder" where
  "dec_number j old = (if j = JNull then Inr no_number else numberFrom j)"

definition Required :: "number \<Rightarrow> string \<Rightarrow> f64 result" where
  "Required n field =
     (if num_valid n then Inr (num_value n) else Inl (Errorf ''%s is required'' [field]))"

definition Optional :: "number \<Rightarrow> f64 option" where
  "Optional n = (if num_valid n then Some (num_value n) else None)"

section \<open>Lemmas\<close>

definition number_ok :: "number \<Rightarrow> bool" where
  "number_ok n \<longleftrightarrow> wf_f64 (num_value n) \<and> f64_finite (num_value n)"

lemma no_number_ok [simp]: "number_ok no_number"
  by (simp add: number_ok_def no_number_def fzero_def)

lemma digits_nonneg:
  "unsigned_float hex body = Some r \<Longrightarrow> 0 \<le> r"
  by (auto simp: unsigned_float_def Let_def split: if_splits)

lemma ParseFloat_wf: "ParseFloat s = Some x \<Longrightarrow> wf_f64 x"
  by (auto simp: ParseFloat_def special_float_def Let_def dest!: digits_nonneg
      split: if_splits option.splits)

lemma setNumber_ok: "setNumber t = Inr n \<Longrightarrow> number_ok n \<and> num_valid n"
  by (auto simp: setNumber_def number_ok_def ParseFloat_wf split: option.splits if_splits)

lemma numberFrom_ok: "numberFrom j = Inr n \<Longrightarrow> number_ok n \<and> num_valid n"
  by (auto simp: numberFrom_def setNumber_ok split: json.splits)

lemma dec_number_ok: "dec_number j old = Inr n \<Longrightarrow> number_ok n"
  by (auto simp: dec_number_def numberFrom_ok split: if_splits)

lemma Required_Inr [simp]: "Required n field = Inr x \<longleftrightarrow> num_valid n \<and> x = num_value n"
  by (auto simp: Required_def)

text \<open>Plain decimal integers.\<close>

lemma is_hex_digit [simp]: "is_digit c \<Longrightarrow> is_hex c"
  by (simp add: is_hex_def hex_val_def)

lemma hex_val_digit: "is_digit c \<Longrightarrow> hex_val c = Some (digit_val c)"
  by (simp add: hex_val_def digit_val_def)

lemma mantissa_digits: "\<forall>c \<in> set ds. is_digit c \<Longrightarrow> mantissa_scan hex dot ds = ds"
  by (induction ds) auto

lemma digits_value_dec: "\<forall>c \<in> set ds. is_digit c \<Longrightarrow> digits_value 10 ds = dec_value ds"
proof -
  have "\<forall>c \<in> set ds. is_digit c \<Longrightarrow>
      fold (\<lambda>c n. 10 * n + the (hex_val c)) ds k = fold (\<lambda>c n. 10 * n + digit_val c) ds k" for k
    by (induction ds arbitrary: k) (auto simp: hex_val_digit)
  then show "\<forall>c \<in> set ds. is_digit c \<Longrightarrow> ?thesis" by (simp add: digits_value_def dec_value_def)
qed

lemma unsigned_float_digits:
  assumes "\<forall>c \<in> set ds. is_digit c" "ds \<noteq> []"
  shows "unsigned_float False ds = Some (of_nat (dec_value ds))"
proof -
  have "filter is_hex ds = ds" using assms(1) by (auto intro: filter_True)
  moreover have "dropWhile (\<lambda>c. c \<noteq> CHR ''.'') ds = []"
    unfolding dropWhile_eq_Nil_conv using assms(1) by (auto simp: is_digit_def)
  ultimately show ?thesis
    using assms
    by (simp del: dropWhile_eq_Nil_conv
        add: unsigned_float_def mantissa_digits Let_def digits_value_dec read_exponent_def)
qed

lemma ParseFloat_digits:
  assumes "\<forall>c \<in> set ds. is_digit c" "ds \<noteq> []" "dec_value ds \<le> 2 ^ 53"
  shows "ParseFloat ds = Some (Fin False (of_nat (dec_value ds)))"
proof -
  have d: "is_digit (hd ds)" using assms by simp
  then have sign: "\<not> has_prefix ds ''-''" "\<not> has_prefix ds ''+''"
    by (cases ds; auto simp: has_prefix_def is_digit_def)+
  have "\<not> (2 < length ds \<and> hd ds = CHR ''0'' \<and> lower_char (ds ! 1) = CHR ''x'')"
  proof
    assume "2 < length ds \<and> hd ds = CHR ''0'' \<and> lower_char (ds ! 1) = CHR ''x''"
    then have "is_digit (ds ! 1)" "lower_char (ds ! 1) = CHR ''x''" using assms(1) by (auto simp: all_set_conv_all_nth)
    then show False by (auto simp: lower_char_def ascii_lower_def is_digit_def)
  qed
  then have nox: "(2 < length ds \<and> hd ds = CHR ''0'' \<and> lower_char (ds ! 1) = CHR ''x'') = False"
    by simp
  have lc: "lower_char (hd ds) = hd ds" using d by (simp add: lower_char_def ascii_lower_def is_digit_def)
  have word: "map lower_char ds \<noteq> w" if "w \<noteq> []" "\<not> is_digit (hd w)" for w
    using that d lc by (cases ds) auto
  have names: "map lower_char ds \<noteq> ''nan''" "map lower_char ds \<noteq> ''inf''" "map lower_char ds \<noteq> ''infinity''"
    by (rule word; simp add: is_digit_def)+
  have us: "CHR ''_'' \<notin> set ds" using assms(1) by (auto simp: is_digit_def)
  have "rnd (of_nat (dec_value ds)) = of_nat (dec_value ds)"
    using assms(3) by (rule rnd_of_nat)
  moreover have "(of_nat (dec_value ds) :: rat) < 2 ^ 1024"
  proof -
    have "(of_nat (dec_value ds) :: rat) \<le> of_nat (2 ^ 53)" using assms(3) by (simp only: of_nat_le_iff)
    then show ?thesis by simp
  qed
  ultimately have p: "pack False (of_nat (dec_value ds)) = Fin False (of_nat (dec_value ds))"
    by (simp add: pack_def)
  show ?thesis
    unfolding ParseFloat_def Let_def sign [THEN eq_False [THEN iffD2]] simp_thms if_False nox
    using names us unsigned_float_digits [OF assms(1,2)] p
    by (simp add: special_float_def)
qed

end
