(* ===== verification/Go_Time.thy ===== *)
theory Go_Time
  imports Go_Strings
begin

text \<open>
  \<open>time.Parse\<close> with the layouts RFC3339 and RFC3339Nano, which accept the same texts: Go takes
  any number of fractional digits after a period or a comma and keeps nine, one or two digits for
  the hour, and zone offsets up to 24:60. The result is the instant.
\<close>

definition leap_year :: "nat \<Rightarrow> bool" where
  "leap_year y \<longleftrightarrow> y mod 4 = 0 \<and> (y mod 100 \<noteq> 0 \<or> y mod 400 = 0)"

definition days_in :: "nat \<Rightarrow> nat \<Rightarrow> nat" where
  "days_in m y =
     (if m = 2 \<and> leap_year y then 29 else [31, 28, 31, 30, 31, 30, 31, 31, 30, 31, 30, 31] ! (m - 1))"

text \<open>Days from 0001-01-01 to the first of January of a year, and to a date.\<close>

definition days_before_year :: "nat \<Rightarrow> int" where
  "days_before_year y =
     (let p = int y - 1 in 365 * p + p div 4 - p div 100 + p div 400)"

definition days_before_month :: "nat \<Rightarrow> nat \<Rightarrow> nat" where
  "days_before_month m y = sum_list (map (\<lambda>k. days_in k y) [1..<m])"

definition date_time :: "nat \<Rightarrow> nat \<Rightarrow> nat \<Rightarrow> nat \<Rightarrow> nat \<Rightarrow> nat \<Rightarrow> nat \<Rightarrow> int \<Rightarrow> time" where
  "date_time y mo d h mi s nanos offset =
     (let days = days_before_year y + int (days_before_month mo y) + int d - 1
      in (days * 86400 + int h * 3600 + int mi * 60 + int s - offset) * second + int nanos)"

text \<open>\<open>getnum\<close>: two digits, or one where the layout does not fix the width.\<close>

definition getnum :: "bool \<Rightarrow> string \<Rightarrow> (nat \<times> string) option" where
  "getnum fixed s =
     (case s of
        [] \<Rightarrow> None
      | a # r \<Rightarrow>
          if \<not> is_digit a then None
          else (case r of
              b # t \<Rightarrow> if is_digit b then Some (10 * digit_val a + digit_val b, t)
                else if fixed then None else Some (digit_val a, r)
            | [] \<Rightarrow> if fixed then None else Some (digit_val a, r)))"

definition expect :: "char \<Rightarrow> string \<Rightarrow> string option" where
  "expect c s = (case s of d # r \<Rightarrow> if d = c then Some r else None | [] \<Rightarrow> None)"

text \<open>An optional fraction: the digits after the separator, cut or padded to nine.\<close>

definition fraction :: "string \<Rightarrow> nat \<times> string" where
  "fraction s =
     (case s of
        c # r \<Rightarrow>
          (let ds = takeWhile is_digit r
           in if c \<in> {CHR ''.'', CHR '',''} \<and> ds \<noteq> []
              then (dec_value (take 9 (ds @ replicate 9 (CHR ''0''))), drop (length ds) r) else (0, s))
      | [] \<Rightarrow> (0, s))"

definition zone_offset :: "string \<Rightarrow> int option" where
  "zone_offset s =
     (if s = ''Z'' then Some 0
      else if length s \<noteq> 6 \<or> s ! 3 \<noteq> CHR '':'' \<or> s ! 0 \<notin> {CHR ''+'', CHR ''-''} then None
      else
        (case (getnum True (take 2 (drop 1 s)), getnum True (drop 4 s)) of
           (Some (h, _), Some (m, _)) \<Rightarrow>
             if h > 24 \<or> m > 60 then None
             else Some ((if s ! 0 = CHR ''-'' then -1 else 1) * (int h * 3600 + int m * 60))
         | _ \<Rightarrow> None))"

definition ParseTime :: "string \<Rightarrow> time option" where
  "ParseTime s =
     (if length s < 4 \<or> \<not> list_all is_digit (take 4 s) then None
      else let y = dec_value (take 4 s) in
        Option.bind (expect (CHR ''-'') (drop 4 s)) (\<lambda>s.
        Option.bind (getnum True s) (\<lambda>(mo, s).
        Option.bind (expect (CHR ''-'') s) (\<lambda>s.
        Option.bind (getnum True s) (\<lambda>(d, s).
        Option.bind (expect (CHR ''T'') s) (\<lambda>s.
        Option.bind (getnum False s) (\<lambda>(h, s).
        Option.bind (expect (CHR '':'') s) (\<lambda>s.
        Option.bind (getnum True s) (\<lambda>(mi, s).
        Option.bind (expect (CHR '':'') s) (\<lambda>s.
        Option.bind (getnum True s) (\<lambda>(sec, s).
        case fraction s of (nanos, s) \<Rightarrow>
        Option.bind (zone_offset s) (\<lambda>offset.
          if mo < 1 \<or> 12 < mo \<or> 24 \<le> h \<or> 60 \<le> mi \<or> 60 \<le> sec \<or> d < 1 \<or> days_in mo y < d then None
          else Some (date_time y mo d h mi sec nanos offset)))))))))))))"

end
