(* ===== verification/Quantities.thy ===== *)
theory Quantities
  imports Model Number Go_Time
begin

text \<open>
  The small helpers of internal/ecs/parser.go: scaling and range checks of float64 values, quotas,
  billing, optional strings and label values.
\<close>

section \<open>Scaling\<close>

abbreviation f64_nat :: "nat \<Rightarrow> f64" where
  "f64_nat n \<equiv> Fin False (of_nat n)"

definition binaryKB :: f64 where "binaryKB = f64_nat 1024"
definition decimalGB :: f64 where "decimalGB = f64_nat 1000000000"

definition scaleFinite :: "f64 \<Rightarrow> f64 \<Rightarrow> string \<Rightarrow> f64 result" where
  "scaleFinite value multiplier field =
     (if flt value fzero \<or> fle multiplier fzero \<or> flt (fdiv max_f64 multiplier) value
      then Inl (Errorf ''%s is outside the supported range'' [field])
      else Inr (fmul value multiplier))"

definition pointer :: "f64 \<Rightarrow> f64 option" where "pointer v = Some v"

definition stringPointer :: "string \<Rightarrow> string option" where
  "stringPointer v = (if v = [] then None else Some v)"

definition optionalFloat :: "f64 option \<Rightarrow> f64" where
  "optionalFloat v = (case v of None \<Rightarrow> fzero | Some x \<Rightarrow> x)"

definition finite_f64 :: "f64 \<Rightarrow> bool" where
  "finite_f64 v \<longleftrightarrow> v \<noteq> NaN \<and> v \<noteq> Inf False \<and> v \<noteq> Inf True"

definition normalizeDimension :: "string \<Rightarrow> nat \<Rightarrow> string" where
  "normalizeDimension value limit =
     (let v = trim_space value
      in if v = [] \<or> length v > limit \<or> contains_control v then [] else v)"

definition ratioPercent :: "number \<Rightarrow> f64 option result" where
  "ratioPercent value =
     (if \<not> num_valid value then Inr None
      else if flt (num_value value) fzero \<or> flt (f64_nat 100) (num_value value)
      then Inl (Msg ''percentage is outside 0..100'')
      else Inr (pointer (fdiv (num_value value) (f64_nat 100))))"

text \<open>
  \<open>parseFinite\<close>: the text of a Flux cell is first decoded as if it were JSON, then as a
  string. Marshalling replaces what is not valid UTF-8.
\<close>

fun valid_utf8 :: "string \<Rightarrow> string" where
  "valid_utf8 [] = []"
| "valid_utf8 (c # cs) =
     (if utf8_len (c # cs) = 0 then replacement @ valid_utf8 cs
      else take (utf8_len (c # cs)) (c # cs) @ valid_utf8 (drop (utf8_len (c # cs) - 1) cs))"

definition parseFinite :: "string \<Rightarrow> f64 result" where
  "parseFinite value =
     (case UnmarshalJSON value of
        Inr n \<Rightarrow> Required n ''value''
      | Inl _ \<Rightarrow> andThen (numberFrom (JStr (valid_utf8 value))) (\<lambda>n. Required n ''value''))"

section \<open>Quotas\<close>

record quota =
  qt_soft :: "f64 option"
  qt_hard :: "f64 option"

definition no_limit :: f64 where "no_limit = Fin True 1"

definition validateQuotaNumbers :: "number \<Rightarrow> number \<Rightarrow> unit result" where
  "validateQuotaNumbers soft hard =
     (let s = num_value soft; h = num_value hard in checks
       [require (\<not> (num_valid soft \<and> flt s no_limit)) (Msg ''soft quota is invalid''),
        require (\<not> (num_valid hard \<and> flt h no_limit)) (Msg ''hard quota is invalid''),
        require (\<not> (num_valid soft \<and> flt (fdiv max_f64 decimalGB) s)) (Msg ''soft quota is too large''),
        require (\<not> (num_valid hard \<and> flt (fdiv max_f64 decimalGB) h)) (Msg ''hard quota is too large''),
        require (\<not> (num_valid soft \<and> num_valid hard \<and> fle fzero s \<and> fle fzero h \<and> flt h s))
          (Msg ''soft quota exceeds hard quota'')])"

text \<open>One field of \<open>quotaFromNumbers\<close>; Go ranges over a map of the two, so either may be first.\<close>

definition quotaField :: "string \<Rightarrow> number \<Rightarrow> f64 option result" where
  "quotaField field source =
     andThen (Required source (field @ '' quota'')) (\<lambda>value.
       if feq value no_limit then Inr None
       else if flt value fzero then Inl (Errorf ''%s quota is invalid'' [field])
       else andThen (scaleFinite value decimalGB (field @ '' quota'')) (\<lambda>converted. Inr (Some converted)))"

definition quotaFromNumbers :: "bool \<Rightarrow> number \<Rightarrow> number \<Rightarrow> quota result" where
  "quotaFromNumbers softFirst soft hard =
     andThen (validateQuotaNumbers soft hard) (\<lambda>_.
       if softFirst then
         andThen (quotaField ''soft'' soft) (\<lambda>s.
         andThen (quotaField ''hard'' hard) (\<lambda>h. Inr \<lparr>qt_soft = s, qt_hard = h\<rparr>))
       else
         andThen (quotaField ''hard'' hard) (\<lambda>h.
         andThen (quotaField ''soft'' soft) (\<lambda>s. Inr \<lparr>qt_soft = s, qt_hard = h\<rparr>)))"

definition applyQuota :: "number \<Rightarrow> f64 option \<times> bool \<Rightarrow> f64 option \<times> bool" where
  "applyQuota source target =
     (if \<not> num_valid source \<or> feq (num_value source) no_limit then target
      else if fle fzero (num_value source) then (pointer (fmul (num_value source) decimalGB), True)
      else target)"

section \<open>Billing\<close>

record billing =
  bl_used :: "f64 option"
  bl_objects :: "f64 option"
  bl_sample :: "time option"

definition billingUnit :: "string \<Rightarrow> f64 option" where
  "billingUnit unit =
     map_of [(''B'', f64_nat 1), (''BYTES'', f64_nat 1), (''KB'', binaryKB), (''MB'', f64_nat 1000000),
       (''GB'', decimalGB), (''TB'', f64_nat 1000000000000)] (to_upper unit)"

definition parseBilling :: "number \<Rightarrow> string \<Rightarrow> number \<Rightarrow> string \<Rightarrow> billing result" where
  "parseBilling sz unit objects sample =
     (if \<not> num_valid sz \<or> flt (num_value sz) fzero then Inl (Msg ''billing total_size is invalid'')
      else case billingUnit unit of
          None \<Rightarrow> Inl (Msg ''billing unit is unsupported'')
        | Some multiplier \<Rightarrow>
            if \<not> num_valid objects \<or> flt (num_value objects) fzero \<or> \<not> fintegral (num_value objects)
            then Inl (Msg ''billing total_objects is invalid'')
            else andThen (scaleFinite (num_value sz) multiplier ''billing total_size'') (\<lambda>usedBytes.
              let result = \<lparr>bl_used = Some usedBytes, bl_objects = pointer (num_value objects),
                bl_sample = None\<rparr>
              in if sample \<noteq> [] then
                   (case ParseTime sample of
                      None \<Rightarrow> Inl (Msg ''billing sample_time is invalid'')
                    | Some parsed \<Rightarrow> Inr (result\<lparr>bl_sample := Some parsed\<rparr>))
                 else Inr result))"

section \<open>Lemmas\<close>

lemma max_f64_fin [simp]: "f64_finite max_f64" "fval max_f64 = (2 ^ 53 - 1) * 2 ^ 971"
  by (simp_all add: max_f64_def)

lemma finite_f64_iff: "finite_f64 v \<longleftrightarrow> f64_finite v"
  by (cases v) (auto simp: finite_f64_def)

text \<open>
  A multiplier is safe when the largest float the guard lets pass still scales to a finite one.
  This is a statement about one product, decided by computing it.
\<close>

definition safe_multiplier :: "f64 \<Rightarrow> bool" where
  "safe_multiplier m \<longleftrightarrow>
     (case m of Fin False c \<Rightarrow> 0 < c \<and> f64_finite (fdiv max_f64 m)
        \<and> f64_finite (fmul (fdiv max_f64 m) m)
      | _ \<Rightarrow> False)"

lemma scaleFinite_fin:
  assumes "scaleFinite v m field = Inr x" "wf_f64 v" "f64_finite v" "safe_multiplier m" "wf_f64 m"
  shows "f64_finite x \<and> wf_f64 x \<and> 0 \<le> fval x \<and> fval x = rnd (fval v * fval m) \<and> 0 \<le> fval v"
proof -
  obtain c where m: "m = Fin False c" "0 < c"
    using assms(4) by (auto simp: safe_multiplier_def split: f64.splits bool.splits)
  let ?q = "fdiv max_f64 m"
  have q: "f64_finite ?q" "wf_f64 ?q" and qm: "f64_finite (fmul ?q m)"
    using assms(4,5) wf_max_f64 by (auto simp: safe_multiplier_def m)
  have v: "0 \<le> fval v" "fval v \<le> fval ?q" and x: "x = fmul v m"
    using assms(1,3) q(1) by (auto simp: scaleFinite_def flt_fin split: if_splits)
  have "rnd (fval ?q * c) < 2 ^ 1024"
    using qm f64_finite_fmul_nonneg [OF q(2,1), of c] v by (simp add: m)
  moreover have "rnd (fval v * c) \<le> rnd (fval ?q * c)"
    using v m(2) by (intro rnd_mono mult_right_mono) auto
  ultimately have fin: "f64_finite x"
    using f64_finite_fmul_nonneg [OF assms(2,3) v(1), of c] by (simp add: x m)
  moreover have "fval x = rnd (fval v * c)"
    using fmul_nonneg [OF assms(2,3) v(1) m(2)] fin by (simp add: x m)
  ultimately show ?thesis
    using assms(2,5) v(1) m rnd_nonneg [of "fval v * c"] by (simp add: x)
qed

lemma wf_f64_nat: "n \<le> 2 ^ 53 \<Longrightarrow> wf_f64 (f64_nat n)"
proof -
  assume n: "n \<le> 2 ^ 53"
  then have "(of_nat n :: rat) \<le> of_nat (2 ^ 53)" by (simp only: of_nat_le_iff)
  then show ?thesis using n by (simp add: rnd_of_nat)
qed

lemma fdiv_max_nat: "0 < n \<Longrightarrow> fdiv max_f64 (f64_nat n) = pack False ((2 ^ 53 - 1) * 2 ^ 971 / of_nat n)"
  by (simp add: max_f64_def)

lemma pack_finite: "rnd r = q \<Longrightarrow> q < 2 ^ 1024 \<Longrightarrow> pack s r = Fin s q"
  by (simp add: pack_def)

lemma safe_multiplierI:
  assumes "0 < n" "rnd ((2 ^ 53 - 1) * 2 ^ 971 / of_nat n) = q" "q < 2 ^ 1024"
    "rnd (q * of_nat n) < 2 ^ 1024"
  shows "safe_multiplier (f64_nat n)"
  using assms pack_finite [OF assms(2,3)]
  by (simp add: safe_multiplier_def fdiv_max_nat f64_finite_pack del: of_nat_eq_0_iff)

lemma safe_GB: "safe_multiplier decimalGB"
  unfolding decimalGB_def
proof (rule safe_multiplierI)
  show "rnd ((2 ^ 53 - 1) * 2 ^ 971 / of_nat 1000000000) = of_int 4835703278458516 * 2 ^ 942"
    by (rule rnd_near) simp_all
  have "rnd (of_int 4835703278458516 * 2 ^ 942 * of_nat 1000000000) = of_int 9007199254740991 * 2 ^ 971"
    by (rule rnd_near) simp_all
  then show "rnd (of_int 4835703278458516 * 2 ^ 942 * of_nat 1000000000) < 2 ^ 1024" by simp
qed simp_all

lemma safe_KB: "safe_multiplier binaryKB"
  unfolding binaryKB_def
proof (rule safe_multiplierI)
  show "rnd ((2 ^ 53 - 1) * 2 ^ 971 / of_nat 1024) = of_int (2 ^ 53 - 1) * 2 powi 961"
    by (subst rnd_exact [of _ "2 ^ 53 - 1" 961]) simp_all
  have "rnd (of_int (2 ^ 53 - 1) * 2 powi 961 * of_nat 1024) = of_int (2 ^ 53 - 1) * 2 powi 971"
    by (subst rnd_exact [of _ "2 ^ 53 - 1" 971]) simp_all
  then show "rnd (of_int (2 ^ 53 - 1) * 2 powi 961 * of_nat 1024) < 2 ^ 1024" by simp
qed simp_all

lemma safe_1: "safe_multiplier (f64_nat 1)"
proof (rule safe_multiplierI)
  show m: "rnd ((2 ^ 53 - 1) * 2 ^ 971 / of_nat 1) = of_int (2 ^ 53 - 1) * 2 powi 971"
    by (subst rnd_exact [of _ "2 ^ 53 - 1" 971]) simp_all
  have "rnd (of_int (2 ^ 53 - 1) * 2 powi 971 * of_nat 1) = of_int (2 ^ 53 - 1) * 2 powi 971"
    by (subst rnd_exact [of _ "2 ^ 53 - 1" 971]) simp_all
  then show "rnd (of_int (2 ^ 53 - 1) * 2 powi 971 * of_nat 1) < 2 ^ 1024" by simp
qed simp_all

lemma wf_multipliers: "wf_f64 decimalGB" "wf_f64 binaryKB"
  unfolding decimalGB_def binaryKB_def by (rule wf_f64_nat; simp)+

text \<open>The guard of \<open>scaleFinite\<close> lets a value through whose product is not finite.\<close>

definition terabyte_gap :: f64 where
  "terabyte_gap = Fin False (4951760157141521 * 2 ^ 932)"

lemma wf_terabyte_gap: "wf_f64 terabyte_gap"
proof -
  have "rnd (of_int 4951760157141521 * 2 powi 932) = of_int 4951760157141521 * 2 powi 932"
    by (rule rnd_exact [of _ 4951760157141521 932]) simp_all
  then show ?thesis by (simp add: terabyte_gap_def)
qed

lemma scaleFinite_terabyte_gap:
  "scaleFinite terabyte_gap (f64_nat 1000000000000) field = Inr (Inf False)"
proof -
  have "rnd ((2 ^ 53 - 1) * 2 ^ 971 / of_nat 1000000000000) = of_int 4951760157141521 * 2 ^ 932"
    by (rule rnd_near) simp_all
  then have q: "fdiv max_f64 (f64_nat 1000000000000) = terabyte_gap"
    unfolding terabyte_gap_def by (subst fdiv_max_nat) (simp_all add: pack_def)
  have "(2 ^ 54 - 1) * 2 ^ 970 \<le> (4951760157141521 * 2 ^ 932 :: rat) * of_nat 1000000000000" by simp
  then have "2 ^ 1024 \<le> rnd ((4951760157141521 * 2 ^ 932 :: rat) * of_nat 1000000000000)"
    by (rule rnd_overflow)
  then have "fmul terabyte_gap (f64_nat 1000000000000) = Inf False"
    unfolding terabyte_gap_def fmul.simps pack_def by simp
  then show ?thesis
    unfolding scaleFinite_def q by (simp add: terabyte_gap_def fzero_def fle_def)
qed

lemma parseFinite_ok: "parseFinite s = Inr x \<Longrightarrow> f64_finite x \<and> wf_f64 x"
  by (auto simp: parseFinite_def andThen_Inr UnmarshalJSON_def no_number_def number_ok_def
      split: sum.splits if_splits option.splits dest!: numberFrom_ok)

definition nonneg_f64 :: "f64 \<Rightarrow> bool" where
  "nonneg_f64 x \<longleftrightarrow> f64_finite x \<and> wf_f64 x \<and> 0 \<le> fval x"

definition ratio :: "f64 \<Rightarrow> bool" where
  "ratio x \<longleftrightarrow> f64_finite x \<and> 0 \<le> fval x \<and> fval x \<le> 1"

lemma percent_ratio:
  assumes "nonneg_f64 x" "fval x \<le> 100"
  shows "ratio (fdiv x (f64_nat 100))"
proof -
  obtain s r where x: "x = Fin s r" and r0: "0 \<le> r" and r: "(if s then - r else r) \<le> 100"
    and s: "s \<Longrightarrow> r = 0"
    using assms by (cases x) (auto simp: nonneg_f64_def split: if_splits)
  have le: "r \<le> 100" using r s by (cases s) auto
  have "rnd (r / 100) \<le> rnd 1" using le by (intro rnd_mono) (auto simp: r0)
  moreover have "rnd 1 = 1" using rnd_of_nat [of 1] by simp
  moreover have "0 \<le> rnd (r / 100)" using r0 by (intro rnd_nonneg) auto
  moreover have "(1::rat) < 2 ^ 1024" by simp
  ultimately have "rnd (r / 100) < 2 ^ 1024" "rnd (r / 100) \<le> 1" "0 \<le> rnd (r / 100)" by linarith+
  then show ?thesis using s by (auto simp: x ratio_def pack_def)
qed

end
