(* ===== verification/Responses.thy ===== *)
theory Responses
  imports Quantities
begin

text \<open>
  The management parsers of internal/ecs/parser.go: a response body is decoded into the structs
  of the source and turned into the model's resources, with every check in the source's order.
  A Go map of results is an association list in insertion order.
\<close>

section \<open>Whoami\<close>

definition object_map :: "json option \<Rightarrow> (string \<Rightarrow> json option) option" where
  "object_map v = (case v of Some (JObj ms) \<Rightarrow> Some (map_of (rev ms)) | _ \<Rightarrow> None)"

fun firstString :: "(string \<Rightarrow> json option) \<Rightarrow> string list \<Rightarrow> string" where
  "firstString values [] = []"
| "firstString values (key # keys) =
     (case values key of
        Some (JStr value) \<Rightarrow> if trim_space value \<noteq> [] then trim_space value else firstString values keys
      | _ \<Rightarrow> firstString values keys)"

fun collectStrings :: "json \<Rightarrow> string list" where
  "collectStrings (JStr value) = (if trim_space value \<noteq> [] then [trim_space value] else [])"
| "collectStrings (JArr entries) = concat (map collectStrings entries)"
| "collectStrings _ = []"

definition collectOptional :: "json option \<Rightarrow> string list" where
  "collectOptional v = (case v of None \<Rightarrow> [] | Some j \<Rightarrow> collectStrings j)"

definition ParseWhoAmI :: "string \<Rightarrow> (string \<times> string list) result" where
  "ParseWhoAmI data =
     andThen (decodeJSON dec_map data) (\<lambda>response.
       let user = (case object_map (response ''user'') of Some nested \<Rightarrow> nested | None \<Rightarrow> response);
           name = firstString user [''common_name'', ''username'', ''name''];
           roles1 = (case object_map (user ''roles'') of
               Some roleObject \<Rightarrow> collectOptional (roleObject ''role'')
             | None \<Rightarrow> collectOptional (user ''roles''));
           roles = (if roles1 = [] then collectOptional (user ''role'') else roles1)
       in if name = [] then Inl (Msg ''whoami identity is required'')
          else if \<not> list_ex (\<lambda>role. equal_fold role ''SYSTEM_MONITOR'' \<or> equal_fold role ''SYSTEM_ADMIN'') roles
          then Inl (Msg ''whoami requires SYSTEM_MONITOR or SYSTEM_ADMIN role'')
          else Inr (name, remdups_adj (sort roles)))"

section \<open>Capacity\<close>

record capacity =
  cp_total :: f64
  cp_used :: f64
  cp_available :: f64

record raw_capacity =
  rc_total :: number
  rc_free :: number

record capacity_response =
  cr_capacity :: raw_capacity
  cr_total :: number
  cr_free :: number

definition rawCapacity_fields :: "raw_capacity fields" where
  "rawCapacity_fields =
     [(''totalProvisioned_gb'', into dec_number rc_total (\<lambda>v r. r\<lparr>rc_total := v\<rparr>)),
      (''totalFree_gb'', into dec_number rc_free (\<lambda>v r. r\<lparr>rc_free := v\<rparr>))]"

definition capacity_fields :: "capacity_response fields" where
  "capacity_fields =
     [(''cluster_capacity'', into (dec_struct rawCapacity_fields) cr_capacity (\<lambda>v r. r\<lparr>cr_capacity := v\<rparr>)),
      (''totalProvisioned_gb'', into dec_number cr_total (\<lambda>v r. r\<lparr>cr_total := v\<rparr>)),
      (''totalFree_gb'', into dec_number cr_free (\<lambda>v r. r\<lparr>cr_free := v\<rparr>))]"

definition no_raw_capacity :: raw_capacity where
  "no_raw_capacity = \<lparr>rc_total = no_number, rc_free = no_number\<rparr>"

definition capacityFrom :: "string \<Rightarrow> raw_capacity \<Rightarrow> capacity result" where
  "capacityFrom fieldPrefix raw =
     andThen (Required (rc_total raw) (fieldPrefix @ ''totalProvisioned_gb'')) (\<lambda>total.
     andThen (Required (rc_free raw) (fieldPrefix @ ''totalFree_gb'')) (\<lambda>free.
       if flt total fzero \<or> flt free fzero \<or> flt total free
       then Inl (Msg ''cluster capacity values are inconsistent'')
       else andThen (scaleFinite total decimalGB ''cluster total capacity'') (\<lambda>totalBytes.
            andThen (scaleFinite free decimalGB ''cluster free capacity'') (\<lambda>freeBytes.
              Inr \<lparr>cp_total = totalBytes, cp_used = fsub totalBytes freeBytes,
                cp_available = freeBytes\<rparr>))))"

definition ParseCapacity :: "string \<Rightarrow> capacity result" where
  "ParseCapacity data =
     andThen (decodeJSON (\<lambda>j. dec_struct capacity_fields j
       \<lparr>cr_capacity = no_raw_capacity, cr_total = no_number, cr_free = no_number\<rparr>) data) (\<lambda>response.
       let topLevel = num_valid (cr_total response) \<or> num_valid (cr_free response);
           nested = num_valid (rc_total (cr_capacity response)) \<or> num_valid (rc_free (cr_capacity response))
       in if topLevel \<and> nested then Inl (Msg ''cluster capacity contains ambiguous envelopes'')
          else if topLevel then capacityFrom [] \<lparr>rc_total = cr_total response, rc_free = cr_free response\<rparr>
          else capacityFrom ''cluster_capacity.'' (cr_capacity response))"

section \<open>Cluster health\<close>

record health_response =
  hr_name :: string
  hr_nodes :: number
  hr_good_nodes :: number
  hr_bad_nodes :: number
  hr_disks :: number
  hr_good_disks :: number
  hr_bad_disks :: number

definition health_fields :: "health_response fields" where
  "health_fields =
     [(''name'', into dec_string hr_name (\<lambda>v r. r\<lparr>hr_name := v\<rparr>)),
      (''numNodes'', into dec_number hr_nodes (\<lambda>v r. r\<lparr>hr_nodes := v\<rparr>)),
      (''numGoodNodes'', into dec_number hr_good_nodes (\<lambda>v r. r\<lparr>hr_good_nodes := v\<rparr>)),
      (''numBadNodes'', into dec_number hr_bad_nodes (\<lambda>v r. r\<lparr>hr_bad_nodes := v\<rparr>)),
      (''numDisks'', into dec_number hr_disks (\<lambda>v r. r\<lparr>hr_disks := v\<rparr>)),
      (''numGoodDisks'', into dec_number hr_good_disks (\<lambda>v r. r\<lparr>hr_good_disks := v\<rparr>)),
      (''numBadDisks'', into dec_number hr_bad_disks (\<lambda>v r. r\<lparr>hr_bad_disks := v\<rparr>))]"

definition no_health_response :: health_response where
  "no_health_response = \<lparr>hr_name = [], hr_nodes = no_number, hr_good_nodes = no_number,
     hr_bad_nodes = no_number, hr_disks = no_number, hr_good_disks = no_number, hr_bad_disks = no_number\<rparr>"

definition healthCount :: "string \<times> number \<Rightarrow> f64 result" where
  "healthCount entry =
     (case entry of (name, raw) \<Rightarrow>
        if \<not> num_valid raw \<or> flt (num_value raw) fzero \<or> \<not> fintegral (num_value raw)
        then Inl (Errorf ''cluster health %s is invalid'' [name])
        else Inr (num_value raw))"

definition ParseClusterHealth :: "string \<Rightarrow> (string \<times> f64) result" where
  "ParseClusterHealth data =
     andThen (decodeJSON (\<lambda>j. dec_struct health_fields j no_health_response) data) (\<lambda>response.
       if hr_name response = [] then Inl (Msg ''cluster health name is required'')
       else
         andThen (mapE healthCount
           [(''numNodes'', hr_nodes response), (''numGoodNodes'', hr_good_nodes response),
            (''numBadNodes'', hr_bad_nodes response), (''numDisks'', hr_disks response),
            (''numGoodDisks'', hr_good_disks response), (''numBadDisks'', hr_bad_disks response)])
           (\<lambda>parsed.
             let healthy = feq (parsed ! 2) fzero \<and> feq (parsed ! 5) fzero
                   \<and> feq (parsed ! 0) (parsed ! 1) \<and> feq (parsed ! 3) (parsed ! 4)
             in Inr (hr_name response, if healthy then f64_nat 1 else fzero)))"

section \<open>Nodes\<close>

record raw_node =
  rn_id :: string
  rn_name :: string
  rn_ip :: string
  rn_rack :: string
  rn_version :: string
  rn_state :: string

definition rawNode_fields :: "raw_node fields" where
  "rawNode_fields =
     [(''nodeid'', into dec_string rn_id (\<lambda>v r. r\<lparr>rn_id := v\<rparr>)),
      (''nodename'', into dec_string rn_name (\<lambda>v r. r\<lparr>rn_name := v\<rparr>)),
      (''ip'', into dec_string rn_ip (\<lambda>v r. r\<lparr>rn_ip := v\<rparr>)),
      (''rackId'', into dec_string rn_rack (\<lambda>v r. r\<lparr>rn_rack := v\<rparr>)),
      (''version'', into dec_string rn_version (\<lambda>v r. r\<lparr>rn_version := v\<rparr>)),
      (''status'', into dec_string rn_state (\<lambda>v r. r\<lparr>rn_state := v\<rparr>))]"

definition no_raw_node :: raw_node where
  "no_raw_node = \<lparr>rn_id = [], rn_name = [], rn_ip = [], rn_rack = [], rn_version = [], rn_state = []\<rparr>"

text \<open>A response that is an object with one list of interest.\<close>

definition dec_list_response :: "string \<Rightarrow> 'a decoder \<Rightarrow> 'a \<Rightarrow> json \<Rightarrow> 'a list result" where
  "dec_list_response name dec zero j =
     dec_struct [(name, into (dec_slice dec zero) (\<lambda>r. r) (\<lambda>v r. v))] j []"

definition nodeFrom :: "string \<Rightarrow> time \<Rightarrow> raw_node \<Rightarrow> node" where
  "nodeFrom cluster collectedAt raw =
     \<lparr>nd_cluster = cluster, nd_id = rn_id raw, nd_name = rn_name raw, nd_ip = stringPointer (rn_ip raw),
      nd_rack = stringPointer (rn_rack raw), nd_version = rn_version raw, nd_health = None,
      nd_state = stringPointer (rn_state raw), nd_cpu = None, nd_mem_used = None, nd_mem_total = None,
      nd_disk_used = None, nd_disk_total = None, nd_network = [], nd_services = [],
      nd_collected_at = collectedAt\<rparr>"

definition nodeStep :: "string \<Rightarrow> time \<Rightarrow> raw_node \<Rightarrow> node list \<times> string list \<Rightarrow> (node list \<times> string list) result" where
  "nodeStep cluster collectedAt raw acc =
     (case acc of (nodes, versions) \<Rightarrow>
        if rn_id raw = [] \<or> rn_name raw = [] \<or> rn_version raw = []
        then Inl (Msg ''node id, name, and version are required'')
        else if rn_id raw \<in> set (map nd_id nodes) then Inl (Msg ''duplicate node id'')
        else if rn_name raw \<in> set (map nd_name nodes) then Inl (Msg ''duplicate node name'')
        else Inr (nodes @ [nodeFrom cluster collectedAt raw], versions @ [rn_version raw]))"

definition ParseNodes :: "string \<Rightarrow> string \<Rightarrow> time \<Rightarrow> (node list \<times> string list) result" where
  "ParseNodes data cluster collectedAt =
     andThen (decodeJSON (dec_list_response ''node'' (dec_struct rawNode_fields) no_raw_node) data) (\<lambda>raws.
       if raws = [] then Inl (Msg ''node list is empty'')
       else foldE (nodeStep cluster collectedAt) raws ([], []))"

section \<open>Node statuses\<close>

record node_status =
  st_health :: f64
  st_services :: "node_service list"

record raw_service =
  sv_name :: string
  sv_status :: string

record raw_status =
  rt_id :: string
  rt_id_alt :: string
  rt_health :: string
  rt_services :: "raw_service list"
  rt_processes :: "raw_service list"

record status_response =
  sr_node :: "raw_status list"
  sr_nodes :: "raw_status list"
  sr_instances :: "raw_status list"

definition rawService_fields :: "raw_service fields" where
  "rawService_fields =
     [(''name'', into dec_string sv_name (\<lambda>v r. r\<lparr>sv_name := v\<rparr>)),
      (''status'', into dec_string sv_status (\<lambda>v r. r\<lparr>sv_status := v\<rparr>))]"

definition dec_services :: "raw_service list decoder" where
  "dec_services = dec_slice (dec_struct rawService_fields) \<lparr>sv_name = [], sv_status = []\<rparr>"

definition rawStatus_fields :: "raw_status fields" where
  "rawStatus_fields =
     [(''nodeid'', into dec_string rt_id (\<lambda>v r. r\<lparr>rt_id := v\<rparr>)),
      (''id'', into dec_string rt_id_alt (\<lambda>v r. r\<lparr>rt_id_alt := v\<rparr>)),
      (''healthStatus'', into dec_string rt_health (\<lambda>v r. r\<lparr>rt_health := v\<rparr>)),
      (''services'', into dec_services rt_services (\<lambda>v r. r\<lparr>rt_services := v\<rparr>)),
      (''processes'', into dec_services rt_processes (\<lambda>v r. r\<lparr>rt_processes := v\<rparr>))]"

definition dec_statuses :: "raw_status list decoder" where
  "dec_statuses = dec_slice (dec_struct rawStatus_fields)
     \<lparr>rt_id = [], rt_id_alt = [], rt_health = [], rt_services = [], rt_processes = []\<rparr>"

definition embedded_fields :: "status_response fields" where
  "embedded_fields = [(''_instances'', into dec_statuses sr_instances (\<lambda>v r. r\<lparr>sr_instances := v\<rparr>))]"

definition status_fields :: "status_response fields" where
  "status_fields =
     [(''node'', into dec_statuses sr_node (\<lambda>v r. r\<lparr>sr_node := v\<rparr>)),
      (''nodes'', into dec_statuses sr_nodes (\<lambda>v r. r\<lparr>sr_nodes := v\<rparr>)),
      (''_embedded'', dec_struct embedded_fields)]"

definition statusHealth :: "string \<Rightarrow> f64 result" where
  "statusHealth value =
     (let v = to_lower value
      in if v \<in> {''active'', ''good'', ''healthy'', ''ok'', ''running'', ''started'', ''up''}
         then Inr (f64_nat 1)
         else if v \<in> {''bad'', ''degraded'', ''down'', ''failed'', ''faulted'', ''inactive'', ''stopped'',
           ''unhealthy''} then Inr fzero
         else Inl (Msg ''unknown node service/process status''))"

definition nodeHealthValue :: "string \<Rightarrow> f64 result" where
  "nodeHealthValue value =
     (let v = to_lower value
      in if v \<in> {''good'', ''healthy'', ''ok''} then Inr (f64_nat 1)
         else if v \<in> {''bad'', ''unhealthy'', ''degraded'', ''faulted''} then Inr fzero
         else Inl (Msg ''unknown node health status''))"

text \<open>One entry of a kind; the keys seen are those of the services appended so far.\<close>

definition serviceStep :: "string \<Rightarrow> raw_service \<Rightarrow> node_service list \<Rightarrow> node_service list result" where
  "serviceStep kind entry services =
     (let name = normalizeDimension (sv_name entry) 128;
          state = normalizeDimension (sv_status entry) 64
      in if name = [] \<or> state = [] then Inl (Msg ''node service/process name and status are required'')
         else if (kind, name) \<in> set (map (\<lambda>s. (ns_kind s, ns_name s)) services)
         then Inl (Msg ''duplicate node service/process status'')
         else andThen (statusHealth state) (\<lambda>health.
           Inr (services @ [\<lparr>ns_name = name, ns_kind = kind, ns_status = state, ns_health = health\<rparr>])))"

definition entriesOf :: "raw_status \<Rightarrow> string \<Rightarrow> raw_service list" where
  "entriesOf raw kind = (if kind = ''service'' then rt_services raw else rt_processes raw)"

definition serviceCompare :: "node_service \<Rightarrow> node_service \<Rightarrow> int" where
  "serviceCompare left right =
     (if ns_kind left \<noteq> ns_kind right then str_compare (ns_kind left) (ns_kind right)
      else str_compare (ns_name left) (ns_name right))"

text \<open>\<open>kinds\<close> is the order in which Go ranges over the map of the two kinds.\<close>

definition statusStep :: "string list \<Rightarrow> raw_status \<Rightarrow> (string \<times> node_status) list
    \<Rightarrow> (string \<times> node_status) list result" where
  "statusStep kinds raw acc =
     (let id = (if rt_id raw = [] then rt_id_alt raw else rt_id raw)
      in if id = [] \<or> rt_health raw = [] then Inl (Msg ''node health id and status are required'')
         else if id \<in> set (map fst acc) then Inl (Msg ''duplicate node health id'')
         else andThen (nodeHealthValue (rt_health raw)) (\<lambda>health.
              andThen (foldE (\<lambda>kind. foldE (serviceStep kind) (entriesOf raw kind)) kinds []) (\<lambda>services.
                Inr (acc @ [(id, \<lparr>st_health = health, st_services = sort_func serviceCompare services\<rparr>)]))))"

definition ParseNodeStatuses :: "string list \<Rightarrow> string \<Rightarrow> (string \<times> node_status) list result" where
  "ParseNodeStatuses kinds data =
     andThen (decodeJSON (\<lambda>j. dec_struct status_fields j
       \<lparr>sr_node = [], sr_nodes = [], sr_instances = []\<rparr>) data) (\<lambda>response.
       let vals = sr_node response @ sr_nodes response @ sr_instances response
       in if vals = [] then Inl (Msg ''node health list is empty'')
          else foldE (statusStep kinds) vals [])"

definition ParseNodeHealth :: "string list \<Rightarrow> string \<Rightarrow> (string \<times> f64) list result" where
  "ParseNodeHealth kinds data =
     andThen (ParseNodeStatuses kinds data) (\<lambda>statuses.
       Inr (map (\<lambda>(id, status). (id, st_health status)) statuses))"

section \<open>Namespaces\<close>

record raw_namespace =
  rm_name :: string
  rm_id :: string
  rm_owner :: string
  rm_audit :: "bool option"
  rm_group :: string
  rm_hard :: number
  rm_soft :: number

definition rawNamespace_fields :: "raw_namespace fields" where
  "rawNamespace_fields =
     [(''name'', into dec_string rm_name (\<lambda>v r. r\<lparr>rm_name := v\<rparr>)),
      (''id'', into dec_string rm_id (\<lambda>v r. r\<lparr>rm_id := v\<rparr>)),
      (''owner'', into dec_string rm_owner (\<lambda>v r. r\<lparr>rm_owner := v\<rparr>)),
      (''audit_enabled'', into dec_bool_ptr rm_audit (\<lambda>v r. r\<lparr>rm_audit := v\<rparr>)),
      (''default_data_services_vpool'', into dec_string rm_group (\<lambda>v r. r\<lparr>rm_group := v\<rparr>)),
      (''blockSize'', into dec_number rm_hard (\<lambda>v r. r\<lparr>rm_hard := v\<rparr>)),
      (''notificationSize'', into dec_number rm_soft (\<lambda>v r. r\<lparr>rm_soft := v\<rparr>))]"

definition no_raw_namespace :: raw_namespace where
  "no_raw_namespace = \<lparr>rm_name = [], rm_id = [], rm_owner = [], rm_audit = None, rm_group = [],
     rm_hard = no_number, rm_soft = no_number\<rparr>"

definition namespaceFrom :: "string \<Rightarrow> time \<Rightarrow> string \<Rightarrow> raw_namespace \<Rightarrow> namespace" where
  "namespaceFrom cluster collectedAt name raw =
     (let soft = applyQuota (rm_soft raw) (None, False); hard = applyQuota (rm_hard raw) (None, False)
      in \<lparr>nm_cluster = cluster, nm_name = name, nm_owner = stringPointer (rm_owner raw), nm_used = None,
          nm_objects = None, nm_bucket_count = 0, nm_soft = fst soft, nm_hard = fst hard,
          nm_soft_configured = snd soft, nm_hard_configured = snd hard,
          nm_group = stringPointer (rm_group raw), nm_audit = rm_audit raw, nm_sample_at = None,
          nm_collected_at = collectedAt\<rparr>)"

definition namespaceStep :: "string \<Rightarrow> time \<Rightarrow> raw_namespace \<Rightarrow> namespace list \<Rightarrow> namespace list result" where
  "namespaceStep cluster collectedAt raw acc =
     (let name = (if rm_name raw = [] then rm_id raw else rm_name raw)
      in if name = [] then Inl (Msg ''namespace name is required'')
         else if name \<in> set (map nm_name acc) then Inl (Msg ''duplicate namespace'')
         else andThen (validateQuotaNumbers (rm_soft raw) (rm_hard raw)) (\<lambda>_.
           Inr (acc @ [namespaceFrom cluster collectedAt name raw])))"

definition ParseNamespaces :: "string \<Rightarrow> string \<Rightarrow> time \<Rightarrow> namespace list result" where
  "ParseNamespaces data cluster collectedAt =
     andThen (decodeJSON (dec_list_response ''namespace'' (dec_struct rawNamespace_fields) no_raw_namespace) data)
       (\<lambda>raws. foldE (namespaceStep cluster collectedAt) raws [])"

section \<open>Quota and billing responses\<close>

record raw_quota =
  rq_hard :: number
  rq_soft :: number

record quota_response =
  qr_details :: raw_quota
  qr_hard :: number
  qr_soft :: number

definition rawQuota_fields :: "raw_quota fields" where
  "rawQuota_fields =
     [(''blockSize'', into dec_number rq_hard (\<lambda>v r. r\<lparr>rq_hard := v\<rparr>)),
      (''notificationSize'', into dec_number rq_soft (\<lambda>v r. r\<lparr>rq_soft := v\<rparr>))]"

definition no_raw_quota :: raw_quota where
  "no_raw_quota = \<lparr>rq_hard = no_number, rq_soft = no_number\<rparr>"

definition quota_fields :: "quota_response fields" where
  "quota_fields =
     [(''namespace_quota_details'', into (dec_struct rawQuota_fields) qr_details (\<lambda>v r. r\<lparr>qr_details := v\<rparr>)),
      (''blockSize'', into dec_number qr_hard (\<lambda>v r. r\<lparr>qr_hard := v\<rparr>)),
      (''notificationSize'', into dec_number qr_soft (\<lambda>v r. r\<lparr>qr_soft := v\<rparr>))]"

definition ParseNamespaceQuota :: "bool \<Rightarrow> string \<Rightarrow> quota result" where
  "ParseNamespaceQuota softFirst data =
     andThen (decodeJSON (\<lambda>j. dec_struct quota_fields j
       \<lparr>qr_details = no_raw_quota, qr_hard = no_number, qr_soft = no_number\<rparr>) data) (\<lambda>response.
       let topLevel = num_valid (qr_hard response) \<or> num_valid (qr_soft response);
           nested = num_valid (rq_hard (qr_details response)) \<or> num_valid (rq_soft (qr_details response))
       in if topLevel \<and> nested then Inl (Msg ''namespace quota contains ambiguous envelopes'')
          else if topLevel then quotaFromNumbers softFirst (qr_soft response) (qr_hard response)
          else quotaFromNumbers softFirst (rq_soft (qr_details response)) (rq_hard (qr_details response)))"

record raw_billing =
  rb_name :: string
  rb_namespace :: string
  rb_size :: number
  rb_unit :: string
  rb_objects :: number
  rb_sample :: string

definition no_raw_billing :: raw_billing where
  "no_raw_billing = \<lparr>rb_name = [], rb_namespace = [], rb_size = no_number, rb_unit = [],
     rb_objects = no_number, rb_sample = []\<rparr>"

definition namespaceBilling_fields :: "raw_billing fields" where
  "namespaceBilling_fields =
     [(''total_size'', into dec_number rb_size (\<lambda>v r. r\<lparr>rb_size := v\<rparr>)),
      (''total_size_unit'', into dec_string rb_unit (\<lambda>v r. r\<lparr>rb_unit := v\<rparr>)),
      (''total_objects'', into dec_number rb_objects (\<lambda>v r. r\<lparr>rb_objects := v\<rparr>)),
      (''sample_time'', into dec_string rb_sample (\<lambda>v r. r\<lparr>rb_sample := v\<rparr>))]"

definition rawBucketBilling_fields :: "raw_billing fields" where
  "rawBucketBilling_fields =
     [(''name'', into dec_string rb_name (\<lambda>v r. r\<lparr>rb_name := v\<rparr>)),
      (''namespace'', into dec_string rb_namespace (\<lambda>v r. r\<lparr>rb_namespace := v\<rparr>))]
     @ namespaceBilling_fields"

definition billingFrom :: "raw_billing \<Rightarrow> billing result" where
  "billingFrom raw = parseBilling (rb_size raw) (rb_unit raw) (rb_objects raw) (rb_sample raw)"

definition ParseNamespaceBilling :: "string \<Rightarrow> billing result" where
  "ParseNamespaceBilling data =
     andThen (decodeJSON (\<lambda>j. dec_struct namespaceBilling_fields j no_raw_billing) data) billingFrom"

text \<open>A raw message is the value it holds; decoding it again is decoding that value.\<close>

definition decodeRaw :: "(json \<Rightarrow> 'a result) \<Rightarrow> json \<Rightarrow> 'a result" where
  "decodeRaw dec details = wrap_error ''decode ECS response: %w'' [] (dec details)"

definition hasAnyJSONField :: "(string \<Rightarrow> json option) \<Rightarrow> string list \<Rightarrow> bool" where
  "hasAnyJSONField value names = list_ex (\<lambda>f. value f \<noteq> None) names"

definition ParseBucketQuota :: "bool \<Rightarrow> string \<Rightarrow> quota result" where
  "ParseBucketQuota softFirst data =
     andThen (decodeJSON dec_map data) (\<lambda>envelope.
       let topLevel = hasAnyJSONField envelope [''blockSize'', ''notificationSize''];
           decode = (\<lambda>j. dec_struct rawQuota_fields j no_raw_quota);
           finish = (\<lambda>raw. quotaFromNumbers softFirst (rq_soft raw) (rq_hard raw))
       in case envelope ''bucket_quota_details'' of
            Some details \<Rightarrow>
              if topLevel then Inl (Msg ''bucket quota contains ambiguous envelopes'')
              else andThen (wrap_error ''decode bucket quota details: %w'' [] (decodeRaw decode details)) finish
          | None \<Rightarrow>
              if topLevel then andThen (decodeJSON decode data) finish
              else Inl (Msg ''bucket quota is missing''))"

definition ParseBucketBilling :: "string \<Rightarrow> billing result" where
  "ParseBucketBilling data =
     andThen (decodeJSON dec_map data) (\<lambda>envelope.
       let topLevel = hasAnyJSONField envelope
             [''total_size'', ''total_size_unit'', ''total_objects'', ''sample_time''];
           decode = (\<lambda>j. dec_struct rawBucketBilling_fields j no_raw_billing)
       in case envelope ''bucket_billing_info'' of
            Some details \<Rightarrow>
              if topLevel then Inl (Msg ''bucket billing contains ambiguous envelopes'')
              else andThen (wrap_error ''decode bucket billing details: %w'' [] (decodeRaw decode details)) billingFrom
          | None \<Rightarrow>
              if topLevel then andThen (decodeJSON decode data) billingFrom
              else Inl (Msg ''bucket billing is missing''))"

definition billingKey :: "string \<Rightarrow> string \<Rightarrow> string" where
  "billingKey namespace name = namespace @ [CHR 0x00] @ name"

definition billingStep :: "raw_billing \<Rightarrow> (string \<times> billing) list \<Rightarrow> (string \<times> billing) list result" where
  "billingStep value result =
     (let key = billingKey (rb_namespace value) (rb_name value)
      in if normalizeDimension (rb_name value) 255 = [] \<or> normalizeDimension (rb_namespace value) 255 = []
         then Inl (Msg ''bucket billing batch item name and namespace are required'')
         else if key \<in> set (map fst result) then Inl (Msg ''bucket billing batch contains duplicate item'')
         else andThen (billingFrom value) (\<lambda>billing. Inr (result @ [(key, billing)])))"

definition ParseBucketBillings :: "string \<Rightarrow> (string \<times> billing) list result" where
  "ParseBucketBillings data =
     andThen (decodeJSON dec_map data) (\<lambda>envelope.
       let singular = envelope ''bucket_billing_info''; plural = envelope ''bucket_billing_infos'';
           details = (if plural \<noteq> None then plural else singular);
           decode = dec_struct rawBucketBilling_fields
       in if singular \<noteq> None \<and> plural \<noteq> None
          then Inl (Msg ''bucket billing batch contains ambiguous envelopes'')
          else case details of
              None \<Rightarrow> Inl (Msg ''bucket billing batch is missing'')
            | Some JNull \<Rightarrow> Inl (Msg ''bucket billing batch is missing'')
            | Some (JArr js) \<Rightarrow>
                andThen (wrap_error ''decode bucket billing batch: %w'' []
                  (dec_slice decode no_raw_billing (JArr js) [])) (\<lambda>raws. foldE billingStep raws [])
            | Some j \<Rightarrow>
                andThen (wrap_error ''decode bucket billing batch item: %w'' [] (decode j no_raw_billing))
                  (\<lambda>raw. foldE billingStep [raw] []))"

section \<open>Buckets\<close>

record raw_bucket =
  rk_name :: string
  rk_namespace :: string
  rk_owner :: string
  rk_vpool :: string
  rk_created :: string
  rk_modified :: string
  rk_modified_camel :: string
  rk_locked :: "bool option"
  rk_versioning :: "bool option"
  rk_encryption :: "bool option"
  rk_audit :: "bool option"
  rk_retention :: number
  rk_hard :: number
  rk_soft :: number

record bucket_response =
  bs_buckets :: "raw_bucket list"
  bs_marker :: string
  bs_marker_camel :: string

definition rawBucket_fields :: "raw_bucket fields" where
  "rawBucket_fields =
     [(''name'', into dec_string rk_name (\<lambda>v r. r\<lparr>rk_name := v\<rparr>)),
      (''namespace'', into dec_string rk_namespace (\<lambda>v r. r\<lparr>rk_namespace := v\<rparr>)),
      (''owner'', into dec_string rk_owner (\<lambda>v r. r\<lparr>rk_owner := v\<rparr>)),
      (''vpool'', into dec_string rk_vpool (\<lambda>v r. r\<lparr>rk_vpool := v\<rparr>)),
      (''created'', into dec_string rk_created (\<lambda>v r. r\<lparr>rk_created := v\<rparr>)),
      (''last_modified'', into dec_string rk_modified (\<lambda>v r. r\<lparr>rk_modified := v\<rparr>)),
      (''lastModified'', into dec_string rk_modified_camel (\<lambda>v r. r\<lparr>rk_modified_camel := v\<rparr>)),
      (''locked'', into dec_bool_ptr rk_locked (\<lambda>v r. r\<lparr>rk_locked := v\<rparr>)),
      (''versioning_enabled'', into dec_bool_ptr rk_versioning (\<lambda>v r. r\<lparr>rk_versioning := v\<rparr>)),
      (''encryption_enabled'', into dec_bool_ptr rk_encryption (\<lambda>v r. r\<lparr>rk_encryption := v\<rparr>)),
      (''audit_enabled'', into dec_bool_ptr rk_audit (\<lambda>v r. r\<lparr>rk_audit := v\<rparr>)),
      (''default_retention'', into dec_number rk_retention (\<lambda>v r. r\<lparr>rk_retention := v\<rparr>)),
      (''block_size'', into dec_number rk_hard (\<lambda>v r. r\<lparr>rk_hard := v\<rparr>)),
      (''notification_size'', into dec_number rk_soft (\<lambda>v r. r\<lparr>rk_soft := v\<rparr>))]"

definition no_raw_bucket :: raw_bucket where
  "no_raw_bucket = \<lparr>rk_name = [], rk_namespace = [], rk_owner = [], rk_vpool = [], rk_created = [],
     rk_modified = [], rk_modified_camel = [], rk_locked = None, rk_versioning = None,
     rk_encryption = None, rk_audit = None, rk_retention = no_number, rk_hard = no_number,
     rk_soft = no_number\<rparr>"

definition bucket_fields :: "bucket_response fields" where
  "bucket_fields =
     [(''object_bucket'', into (dec_slice (dec_struct rawBucket_fields) no_raw_bucket)
         bs_buckets (\<lambda>v r. r\<lparr>bs_buckets := v\<rparr>)),
      (''next_marker'', into dec_string bs_marker (\<lambda>v r. r\<lparr>bs_marker := v\<rparr>)),
      (''nextMarker'', into dec_string bs_marker_camel (\<lambda>v r. r\<lparr>bs_marker_camel := v\<rparr>))]"

text \<open>\<open>Sprintf("%.0fs", x)\<close> of an integral value.\<close>

definition seconds_text :: "f64 \<Rightarrow> string" where
  "seconds_text x =
     (case x of Fin s r \<Rightarrow> (if s then ''-'' else []) @ dec_digits (nat \<lfloor>r\<rfloor>) @ ''s'' | _ \<Rightarrow> [])"

definition parseStamp :: "string \<Rightarrow> string \<Rightarrow> time option result" where
  "parseStamp message text =
     (if text = [] then Inr None
      else case ParseTime text of None \<Rightarrow> Inl (Msg message) | Some t \<Rightarrow> Inr (Some t))"

definition parseRetention :: "number \<Rightarrow> string option result" where
  "parseRetention n =
     (let v = num_value n
      in if \<not> num_valid n then Inr None
         else if feq v (Fin True 1) \<or> feq v (Fin True 2) then Inr None
         else if flt v fzero \<or> \<not> fintegral v then Inl (Msg ''bucket retention is invalid'')
         else Inr (Some (seconds_text v)))"

definition bucketStep :: "string \<Rightarrow> time \<Rightarrow> raw_bucket \<Rightarrow> bucket list \<Rightarrow> bucket list result" where
  "bucketStep cluster collectedAt raw acc =
     (if rk_name raw = [] \<or> rk_namespace raw = [] then Inl (Msg ''bucket name and namespace are required'')
      else if billingKey (rk_namespace raw) (rk_name raw)
        \<in> set (map (\<lambda>b. billingKey (bk_namespace b) (bk_name b)) acc) then Inl (Msg ''duplicate bucket'')
      else
        andThen (validateQuotaNumbers (rk_soft raw) (rk_hard raw)) (\<lambda>_.
        andThen (parseStamp ''bucket created timestamp is invalid'' (rk_created raw)) (\<lambda>created.
          if rk_modified raw \<noteq> [] \<and> rk_modified_camel raw \<noteq> [] \<and> rk_modified raw \<noteq> rk_modified_camel raw
          then Inl (Msg ''bucket last modified timestamp is ambiguous'')
          else
            let lastModified = (if rk_modified raw = [] then rk_modified_camel raw else rk_modified raw)
            in andThen (parseStamp ''bucket last modified timestamp is invalid'' lastModified) (\<lambda>modified.
               andThen (parseRetention (rk_retention raw)) (\<lambda>retention.
                 let soft = applyQuota (rk_soft raw) (None, False);
                     hard = applyQuota (rk_hard raw) (None, False)
                 in Inr (acc @ [\<lparr>bk_cluster = cluster, bk_namespace = rk_namespace raw, bk_name = rk_name raw,
                      bk_owner = stringPointer (rk_owner raw), bk_used = None, bk_objects = None,
                      bk_soft = fst soft, bk_hard = fst hard, bk_soft_configured = snd soft,
                      bk_hard_configured = snd hard, bk_versioning = rk_versioning raw,
                      bk_encryption = rk_encryption raw, bk_group = stringPointer (rk_vpool raw),
                      bk_locked = rk_locked raw, bk_retention = retention, bk_audit = rk_audit raw,
                      bk_created = created, bk_modified = modified, bk_sample_at = None,
                      bk_collected_at = collectedAt\<rparr>]))))))"

definition ParseBucketPage :: "string \<Rightarrow> string \<Rightarrow> time \<Rightarrow> (bucket list \<times> string) result" where
  "ParseBucketPage data cluster collectedAt =
     andThen (decodeJSON (\<lambda>j. dec_struct bucket_fields j
       \<lparr>bs_buckets = [], bs_marker = [], bs_marker_camel = []\<rparr>) data) (\<lambda>response.
       let nextMarker = (if bs_marker response = [] then bs_marker_camel response else bs_marker response)
       in if length nextMarker > 4096 \<or> contains_any nextMarker [CHR 0x0D, CHR 0x0A]
          then Inl (Msg ''bucket page marker is invalid'')
          else andThen (foldE (bucketStep cluster collectedAt) (bs_buckets response) []) (\<lambda>result.
            Inr (result, nextMarker)))"

definition ParseBuckets :: "string \<Rightarrow> string \<Rightarrow> time \<Rightarrow> bucket list result" where
  "ParseBuckets data cluster collectedAt =
     andThen (ParseBucketPage data cluster collectedAt) (\<lambda>(values, _). Inr values)"

section \<open>Replication\<close>

record replication_response =
  rr_id :: string
  rr_name :: string
  rr_group :: string
  rr_source :: string
  rr_target :: string
  rr_status :: string
  rr_repo :: number
  rr_journal :: number
  rr_xor :: number
  rr_rpo :: number
  rr_fail_state :: string
  rr_fail_pct :: number
  rr_boot_state :: string
  rr_boot_pct :: number

definition replication_fields :: "replication_response fields" where
  "replication_fields =
     [(''id'', into dec_string rr_id (\<lambda>v r. r\<lparr>rr_id := v\<rparr>)),
      (''name'', into dec_string rr_name (\<lambda>v r. r\<lparr>rr_name := v\<rparr>)),
      (''rgName'', into dec_string rr_group (\<lambda>v r. r\<lparr>rr_group := v\<rparr>)),
      (''zone1Name'', into dec_string rr_source (\<lambda>v r. r\<lparr>rr_source := v\<rparr>)),
      (''zone2Name'', into dec_string rr_target (\<lambda>v r. r\<lparr>rr_target := v\<rparr>)),
      (''rglinkStatus'', into dec_string rr_status (\<lambda>v r. r\<lparr>rr_status := v\<rparr>)),
      (''chunksRepoPendingReplicationTotalSize'', into dec_number rr_repo (\<lambda>v r. r\<lparr>rr_repo := v\<rparr>)),
      (''chunksJournalPendingReplicationTotalSize'', into dec_number rr_journal (\<lambda>v r. r\<lparr>rr_journal := v\<rparr>)),
      (''chunksPendingXorTotalSize'', into dec_number rr_xor (\<lambda>v r. r\<lparr>rr_xor := v\<rparr>)),
      (''replicationRpoTimestamp'', into dec_number rr_rpo (\<lambda>v r. r\<lparr>rr_rpo := v\<rparr>)),
      (''FailoverState'', into dec_string rr_fail_state (\<lambda>v r. r\<lparr>rr_fail_state := v\<rparr>)),
      (''FailoverProgressPercent'', into dec_number rr_fail_pct (\<lambda>v r. r\<lparr>rr_fail_pct := v\<rparr>)),
      (''BootstrapState'', into dec_string rr_boot_state (\<lambda>v r. r\<lparr>rr_boot_state := v\<rparr>)),
      (''BootstrapProgressPercent'', into dec_number rr_boot_pct (\<lambda>v r. r\<lparr>rr_boot_pct := v\<rparr>))]"

definition no_replication_response :: replication_response where
  "no_replication_response = \<lparr>rr_id = [], rr_name = [], rr_group = [], rr_source = [], rr_target = [],
     rr_status = [], rr_repo = no_number, rr_journal = no_number, rr_xor = no_number, rr_rpo = no_number,
     rr_fail_state = [], rr_fail_pct = no_number, rr_boot_state = [], rr_boot_pct = no_number\<rparr>"

definition linkStatus :: "string \<Rightarrow> f64 option result" where
  "linkStatus value =
     (let v = to_lower value
      in if value = [] then Inr None
         else if v \<in> {''good'', ''healthy'', ''ok''} then Inr (pointer (f64_nat 1))
         else if v \<in> {''bad'', ''unhealthy'', ''degraded'', ''faulted'', ''failed'', ''broken''}
         then Inr (pointer fzero)
         else Inl (Msg ''unknown replication status''))"

text \<open>The loop over the three pending sizes: the sum, and whether any was given.\<close>

definition pendingStep :: "number \<Rightarrow> f64 \<times> bool \<Rightarrow> (f64 \<times> bool) result" where
  "pendingStep value acc =
     (case acc of (pending, hasPending) \<Rightarrow>
        if \<not> num_valid value then Inr (pending, hasPending)
        else if flt (num_value value) fzero then Inl (Msg ''replication pending bytes are negative'')
        else if flt (fsub max_f64 (num_value value)) pending
        then Inl (Msg ''replication pending bytes overflow'')
        else Inr (fadd pending (num_value value), True))"

text \<open>\<open>Duration.Seconds\<close>: the whole seconds plus the rest, each converted and added in float64.\<close>

definition duration_seconds :: "duration \<Rightarrow> f64" where
  "duration_seconds d =
     (let sec = sgn d * (\<bar>d\<bar> div second); nsec = sgn d * (\<bar>d\<bar> mod second)
      in fadd (f64_of_int sec) (fdiv (f64_of_int nsec) (f64_nat 1000000000)))"

definition float_floor :: "f64 \<Rightarrow> int" where
  "float_floor x = (case x of Fin s r \<Rightarrow> (if s then - \<lfloor>r\<rfloor> else \<lfloor>r\<rfloor>) | _ \<Rightarrow> 0)"

definition replicationLag :: "number \<Rightarrow> f64 \<Rightarrow> bool \<Rightarrow> time \<Rightarrow> f64 option result" where
  "replicationLag rpo pending hasPending now =
     (let v = num_value rpo
      in if \<not> (num_valid rpo \<and> hasPending \<and> flt fzero pending) then Inr None
         else if flt v fzero \<or> \<not> fintegral v \<or> flt (f64_of_int (unix_seconds now)) v
         then Inl (Msg ''replication RPO timestamp is invalid or in the future'')
         else Inr (Some (duration_seconds (time_sub now (time_unix (float_floor v))))))"

definition recoveryFields :: "replication_response \<Rightarrow> (string option \<times> string option \<times> f64 option) result" where
  "recoveryFields r =
     (if rr_boot_state r \<noteq> [] then
        andThen (ratioPercent (rr_boot_pct r)) (\<lambda>progress.
          Inr (stringPointer ''bootstrap'', stringPointer (rr_boot_state r), progress))
      else if rr_fail_state r \<noteq> [] then
        andThen (ratioPercent (rr_fail_pct r)) (\<lambda>progress.
          Inr (stringPointer ''failover'', stringPointer (rr_fail_state r), progress))
      else Inr (None, None, None))"

definition ParseReplication :: "string \<Rightarrow> string \<Rightarrow> time \<Rightarrow> replication result" where
  "ParseReplication data cluster now =
     andThen (decodeJSON (\<lambda>j. dec_struct replication_fields j no_replication_response) data) (\<lambda>r.
       let name = (if rr_group r = [] then rr_name r else rr_group r)
       in if rr_id r = [] \<or> name = [] then Inl (Msg ''replication id and group name are required'')
          else andThen (linkStatus (rr_status r)) (\<lambda>status.
               andThen (foldE pendingStep [rr_repo r, rr_journal r, rr_xor r] (fzero, False))
                 (\<lambda>(pending, hasPending).
               andThen (replicationLag (rr_rpo r) pending hasPending now) (\<lambda>lag.
               andThen (recoveryFields r) (\<lambda>(kind, state, progress).
                 Inr \<lparr>rp_cluster = cluster, rp_id = rr_id r, rp_group = name,
                   rp_source = stringPointer (rr_source r), rp_target = stringPointer (rr_target r),
                   rp_status = status, rp_lag = lag,
                   rp_pending = (if hasPending then pointer pending else None),
                   rp_recovery_kind = kind, rp_recovery_status = state, rp_recovery_progress = progress,
                   rp_collected_at = now\<rparr>)))))"

section \<open>Applying parsed data to resources\<close>

definition ApplyNodeStatuses :: "node list \<Rightarrow> (string \<times> node_status) list \<Rightarrow> bool \<Rightarrow> node list" where
  "ApplyNodeStatuses nodes statuses includeServices =
     map (\<lambda>n. case map_of statuses (nd_id n) of
         None \<Rightarrow> n
       | Some status \<Rightarrow> n\<lparr>nd_health := pointer (st_health status),
           nd_services := (if includeServices then st_services status else [])\<rparr>) nodes"

definition ApplyNodeHealth :: "node list \<Rightarrow> (string \<times> f64) list \<Rightarrow> node list" where
  "ApplyNodeHealth nodes health =
     map (\<lambda>n. case map_of health (nd_id n) of
         None \<Rightarrow> n
       | Some value \<Rightarrow> n\<lparr>nd_health := pointer value\<rparr>) nodes"

definition ApplyQuotaToNamespace :: "namespace \<Rightarrow> quota \<Rightarrow> namespace" where
  "ApplyQuotaToNamespace value q = value\<lparr>nm_soft := qt_soft q, nm_hard := qt_hard q,
     nm_soft_configured := qt_soft q \<noteq> None, nm_hard_configured := qt_hard q \<noteq> None\<rparr>"

definition ApplyBillingToNamespace :: "namespace \<Rightarrow> billing \<Rightarrow> namespace" where
  "ApplyBillingToNamespace value b =
     value\<lparr>nm_used := bl_used b, nm_objects := bl_objects b, nm_sample_at := bl_sample b\<rparr>"

definition ApplyQuotaToBucket :: "bucket \<Rightarrow> quota \<Rightarrow> bucket" where
  "ApplyQuotaToBucket value q = value\<lparr>bk_soft := qt_soft q, bk_hard := qt_hard q,
     bk_soft_configured := qt_soft q \<noteq> None, bk_hard_configured := qt_hard q \<noteq> None\<rparr>"

definition ApplyBillingToBucket :: "bucket \<Rightarrow> billing \<Rightarrow> bucket" where
  "ApplyBillingToBucket value b =
     value\<lparr>bk_used := bl_used b, bk_objects := bl_objects b, bk_sample_at := bl_sample b\<rparr>"

end
