(* ===== verification/Examples.thy ===== *)
theory Examples
  imports Quantities
begin

text \<open>
  What the examples of the parsers share: JSON texts that can be written down, and small whole
  numbers, whose decoding and scaling are exact.
\<close>

section \<open>Texts and numbers of the examples\<close>

text \<open>A JSON text written with a tilde for each quotation mark.\<close>

definition json_text :: "string \<Rightarrow> string" where
  "json_text s = map (\<lambda>c. if c = CHR ''~'' then CHR 0x22 else c) s"

definition whole :: "nat \<Rightarrow> number" where
  "whole n = \<lparr>num_value = f64_nat n, num_valid = True\<rparr>"

lemma whole_simps [simp]: "num_value (whole n) = f64_nat n" "num_valid (whole n)"
  by (simp_all add: whole_def)

lemma f64_nat_less: "n \<le> 2 ^ 53 \<Longrightarrow> (of_nat n :: rat) < 2 ^ 1024"
proof -
  assume "n \<le> 2 ^ 53"
  then have "(of_nat n :: rat) \<le> of_nat (2 ^ 53)" by (simp only: of_nat_le_iff)
  then show ?thesis by simp
qed

lemma whole_ok: "n \<le> 2 ^ 53 \<Longrightarrow> number_ok (whole n)"
  using wf_f64_nat by (simp add: number_ok_def)

lemma setNumber_digits:
  assumes "list_all is_digit ds" "ds \<noteq> []" "dec_value ds \<le> 2 ^ 53"
  shows "setNumber ds = Inr (whole (dec_value ds))"
  using ParseFloat_digits [of ds] assms by (simp add: setNumber_def list_all_iff whole_def)

lemma fdiv_max_GB: "fdiv max_f64 decimalGB = Fin False (4835703278458516 * 2 ^ 942)"
proof -
  have "rnd ((2 ^ 53 - 1) * 2 ^ 971 / of_nat 1000000000) = of_int 4835703278458516 * 2 ^ 942"
    by (rule rnd_near) simp_all
  then show ?thesis
    unfolding decimalGB_def by (subst fdiv_max_nat) (simp_all add: pack_def)
qed

lemma scaleFinite_GB_small:
  assumes "n * 1000000000 \<le> 2 ^ 53"
  shows "scaleFinite (f64_nat n) decimalGB field = Inr (f64_nat (n * 1000000000))"
proof -
  have "rnd (of_nat (n * 1000000000)) = of_nat (n * 1000000000)" using assms by (rule rnd_of_nat)
  then have m: "fmul (f64_nat n) decimalGB = f64_nat (n * 1000000000)"
    using f64_nat_less [OF assms] by (simp add: decimalGB_def pack_def)
  have "(of_nat n :: rat) \<le> of_nat (2 ^ 53)"
    using assms by (simp only: of_nat_le_iff)
  then have "\<not> (4835703278458516 * 2 ^ 942 :: rat) < of_nat n" by simp
  then show ?thesis
    unfolding scaleFinite_def fdiv_max_GB m by (simp add: fzero_def decimalGB_def fle_def)
qed

end
