(* ===== verification/Response_Facts.thy ===== *)
theory Response_Facts
  imports Responses Cache Examples
begin

text \<open>
  What the management parsers guarantee of the values they return: ranges and finiteness of the
  numbers, identities that do not repeat, and independence of Go's map order.
\<close>

section \<open>Decoders keep invariants\<close>

lemma field_for_in: "field_for fs key = Some d \<Longrightarrow> \<exists>n. (n, d) \<in> set fs"
  by (auto simp: field_for_def find_Some_iff split: option.splits dest: map_of_SomeD)
    (metis nth_mem prod.collapse)

lemma dec_struct_inv:
  assumes "dec_struct fs j old = Inr r" "I old"
    and "\<And>n d v x y. (n, d) \<in> set fs \<Longrightarrow> I x \<Longrightarrow> d v x = Inr y \<Longrightarrow> I y"
  shows "I r"
proof (cases j)
  case (JObj ms)
  then have "foldE (\<lambda>(key, v) r. case field_for fs key of None \<Rightarrow> Inr r | Some dec \<Rightarrow> dec v r) ms old = Inr r"
    using assms(1) by (simp add: dec_struct_def)
  then show ?thesis
  proof (induction rule: foldE_rule)
    case start
    then show ?case by (rule assms(2))
  next
    case (step ys y u v)
    then show ?case
      using assms(3) by (auto split: option.splits prod.splits dest: field_for_in)
  qed
qed (use assms(1,2) in \<open>auto simp: dec_struct_def type_error_def\<close>)

lemma into_Inr [simp]: "into dec get put j r = Inr r' \<longleftrightarrow> (\<exists>v. dec j (get r) = Inr v \<and> r' = put v r)"
  by (auto simp: into_def andThen_Inr)

section \<open>Capacity\<close>

definition capacity_response_ok :: "capacity_response \<Rightarrow> bool" where
  "capacity_response_ok r \<longleftrightarrow> number_ok (rc_total (cr_capacity r)) \<and> number_ok (rc_free (cr_capacity r))
     \<and> number_ok (cr_total r) \<and> number_ok (cr_free r)"

lemma rawCapacity_ok:
  assumes "dec_struct rawCapacity_fields j old = Inr r" "number_ok (rc_total old) \<and> number_ok (rc_free old)"
  shows "number_ok (rc_total r) \<and> number_ok (rc_free r)"
  by (rule dec_struct_inv [where I = "\<lambda>r. number_ok (rc_total r) \<and> number_ok (rc_free r)", OF assms])
    (auto simp: rawCapacity_fields_def; erule dec_number_ok)

lemma capacity_response_ok:
  assumes "dec_struct capacity_fields j old = Inr r" "capacity_response_ok old"
  shows "capacity_response_ok r"
  by (rule dec_struct_inv [where I = capacity_response_ok, OF assms])
    (auto simp: capacity_fields_def capacity_response_ok_def; (erule dec_number_ok | drule rawCapacity_ok; simp))

lemma capacityFrom_bounds:
  assumes "capacityFrom prefix raw = Inr c" "number_ok (rc_total raw)" "number_ok (rc_free raw)"
  shows "f64_finite (cp_total c) \<and> f64_finite (cp_used c) \<and> f64_finite (cp_available c)
    \<and> 0 \<le> fval (cp_available c) \<and> fval (cp_available c) \<le> fval (cp_total c)
    \<and> 0 \<le> fval (cp_used c) \<and> fval (cp_used c) \<le> fval (cp_total c)
    \<and> fval (cp_used c) = rnd (fval (cp_total c) - fval (cp_available c))"
proof -
  let ?t = "num_value (rc_total raw)" and ?f = "num_value (rc_free raw)"
  obtain tb fb where s: "scaleFinite ?t decimalGB ''cluster total capacity'' = Inr tb"
      "scaleFinite ?f decimalGB ''cluster free capacity'' = Inr fb"
    and le: "\<not> flt ?t ?f" and c: "c = \<lparr>cp_total = tb, cp_used = fsub tb fb, cp_available = fb\<rparr>"
    using assms(1) by (auto simp: capacityFrom_def andThen_Inr split: if_splits)
  have t: "wf_f64 ?t" "f64_finite ?t" and f: "wf_f64 ?f" "f64_finite ?f"
    using assms(2,3) by (auto simp: number_ok_def)
  note T = scaleFinite_fin [OF s(1) t safe_GB wf_multipliers(1)]
  note F = scaleFinite_fin [OF s(2) f safe_GB wf_multipliers(1)]
  have "fval ?f \<le> fval ?t" using le t f by (simp add: flt_fin)
  moreover have gb: "fval decimalGB = 1000000000" by (simp add: decimalGB_def)
  ultimately have fb: "fval fb \<le> fval tb" using T F by (auto intro: rnd_mono)
  have nn: "0 \<le> fval fb" "0 \<le> fval tb" using T F by auto
  have wt: "wf_f64 tb" and fin: "f64_finite tb" "f64_finite fb" using T F by auto
  note U = fsub_nonneg [OF wt fin nn(1) fb]
  have "rnd (fval tb) = fval tb" using fval_nonnegE [OF wt fin(1) nn(2)] by metis
  then have "rnd (fval tb - fval fb) \<le> fval tb"
    using rnd_mono [of "fval tb - fval fb" "fval tb"] nn fb by simp
  moreover have "0 \<le> rnd (fval tb - fval fb)" using fb by (intro rnd_nonneg) simp
  ultimately show ?thesis
    using fin nn fb U by (simp add: c)
qed

lemma ParseCapacity_from:
  assumes "ParseCapacity data = Inr c"
  obtains prefix raw where "capacityFrom prefix raw = Inr c" "number_ok (rc_total raw)" "number_ok (rc_free raw)"
proof -
  let ?zero = "\<lparr>cr_capacity = no_raw_capacity, cr_total = no_number, cr_free = no_number\<rparr>"
  obtain j r where r: "dec_struct capacity_fields j ?zero = Inr r"
    and c: "capacityFrom [] \<lparr>rc_total = cr_total r, rc_free = cr_free r\<rparr> = Inr c
      \<or> capacityFrom ''cluster_capacity.'' (cr_capacity r) = Inr c"
    using assms by (auto simp: ParseCapacity_def andThen_Inr decodeJSON_Inr Let_def split: if_splits)
  have "capacity_response_ok r"
    by (rule capacity_response_ok [OF r]) (simp add: capacity_response_ok_def no_raw_capacity_def)
  then show ?thesis
    using c that by (auto simp: capacity_response_ok_def)
qed

section \<open>Quotas and billing\<close>

lemma quotaFromNumbers_order: "quotaFromNumbers True s h = Inr q \<longleftrightarrow> quotaFromNumbers False s h = Inr q"
  by (auto simp: quotaFromNumbers_def andThen_Inr)

lemma no_limit_fin [simp]: "f64_finite no_limit" "fval no_limit = -1"
  by (simp_all add: no_limit_def)

lemma fval_GB [simp]: "fval decimalGB = 1000000000" "f64_finite decimalGB"
  by (simp_all add: decimalGB_def)

lemma quotaField_sound:
  assumes "quotaField field n = Inr v" "number_ok n"
  shows "num_valid n \<and> (case v of
      None \<Rightarrow> fval (num_value n) = -1
    | Some x \<Rightarrow> 0 \<le> fval (num_value n) \<and> f64_finite x \<and> fval x = rnd (fval (num_value n) * 1000000000))"
proof -
  have ok: "wf_f64 (num_value n)" "f64_finite (num_value n)" using assms(2) by (auto simp: number_ok_def)
  show ?thesis
  proof (cases "feq (num_value n) no_limit")
    case True
    then show ?thesis
      using assms(1) ok by (auto simp: quotaField_def andThen_Inr feq_fin)
  next
    case False
    then obtain x where "num_valid n" "v = Some x"
        "scaleFinite (num_value n) decimalGB (field @ '' quota'') = Inr x"
      using assms(1) by (auto simp: quotaField_def andThen_Inr split: if_splits)
    then show ?thesis
      using scaleFinite_fin [OF _ ok safe_GB wf_multipliers(1)] by fastforce
  qed
qed

lemma quota_sound:
  assumes "quotaFromNumbers b s h = Inr q" "number_ok s" "number_ok h"
  shows "(qt_soft q = None \<longleftrightarrow> fval (num_value s) = -1) \<and> (qt_hard q = None \<longleftrightarrow> fval (num_value h) = -1)
    \<and> (\<forall>x. qt_soft q = Some x \<longrightarrow> f64_finite x \<and> 0 \<le> fval x)
    \<and> (\<forall>y. qt_hard q = Some y \<longrightarrow> f64_finite y \<and> 0 \<le> fval y)
    \<and> (\<forall>x y. qt_soft q = Some x \<and> qt_hard q = Some y \<longrightarrow> fval x \<le> fval y)"
proof -
  have t: "quotaFromNumbers True s h = Inr q"
    using assms(1) quotaFromNumbers_order by (cases b) auto
  then have v: "validateQuotaNumbers s h = Inr ()"
    and fs: "quotaField ''soft'' s = Inr (qt_soft q)" and fh: "quotaField ''hard'' h = Inr (qt_hard q)"
    by (auto simp: quotaFromNumbers_def andThen_Inr)
  note S = quotaField_sound [OF fs assms(2)] and H = quotaField_sound [OF fh assms(3)]
  have le: "fval (num_value s) \<le> fval (num_value h)"
    if "0 \<le> fval (num_value s)" "0 \<le> fval (num_value h)"
    using v S H that assms(2,3)
    by (auto simp: validateQuotaNumbers_def checks_Inr Let_def number_ok_def fle_fin flt_fin)
  have mono: "rnd (fval (num_value s) * 1000000000) \<le> rnd (fval (num_value h) * 1000000000)"
    if "0 \<le> fval (num_value s)" "0 \<le> fval (num_value h)"
    using le [OF that] that by (intro rnd_mono) auto
  show ?thesis
    using S H mono by (auto split: option.splits intro: rnd_nonneg)
qed

section \<open>Nodes\<close>

definition raw_nodes_valid :: "raw_node list \<Rightarrow> bool" where
  "raw_nodes_valid raws \<longleftrightarrow>
     list_all (\<lambda>r. rn_id r \<noteq> [] \<and> rn_name r \<noteq> [] \<and> rn_version r \<noteq> []) raws
     \<and> distinct (map rn_id raws) \<and> distinct (map rn_name raws)"

lemma nodeFrom_fields [simp]:
  "nd_id (nodeFrom c t r) = rn_id r" "nd_name (nodeFrom c t r) = rn_name r"
  "nd_version (nodeFrom c t r) = rn_version r" "nd_cluster (nodeFrom c t r) = c"
  by (simp_all add: nodeFrom_def)

lemma nodes_loop:
  "foldE (nodeStep c t) raws ([], []) = Inr r \<longleftrightarrow>
     raw_nodes_valid raws \<and> r = (map (nodeFrom c t) raws, map rn_version raws)"
proof (induction raws arbitrary: r rule: rev_induct)
  case Nil
  then show ?case by (auto simp: raw_nodes_valid_def)
next
  case (snoc x xs)
  have "foldE (nodeStep c t) (xs @ [x]) ([], []) = Inr r \<longleftrightarrow>
      raw_nodes_valid xs \<and> nodeStep c t x (map (nodeFrom c t) xs, map rn_version xs) = Inr r"
    by (cases r) (auto simp: foldE_append andThen_Inr snoc.IH)
  also have "\<dots> \<longleftrightarrow> raw_nodes_valid (xs @ [x])
      \<and> r = (map (nodeFrom c t) (xs @ [x]), map rn_version (xs @ [x]))"
    by (cases r) (auto simp: nodeStep_def raw_nodes_valid_def image_image)
  finally show ?case .
qed

lemma ParseNodes_Inr:
  "ParseNodes data c t = Inr (nodes, versions) \<longleftrightarrow>
     (\<exists>j raws. decode_only data = Some j
        \<and> dec_list_response ''node'' (dec_struct rawNode_fields) no_raw_node j = Inr raws
        \<and> raws \<noteq> [] \<and> raw_nodes_valid raws
        \<and> nodes = map (nodeFrom c t) raws \<and> versions = map rn_version raws)"
  by (auto simp: ParseNodes_def andThen_Inr decodeJSON_Inr nodes_loop)

section \<open>Namespaces and buckets\<close>

lemma ParseNamespaces_keyed:
  assumes "ParseNamespaces data c t = Inr ns"
  shows "distinct (map nm_name ns) \<and> list_all (\<lambda>n. nm_cluster n = c \<and> nm_name n \<noteq> []) ns"
proof -
  obtain raws where "foldE (namespaceStep c t) raws [] = Inr ns"
    using assms by (auto simp: ParseNamespaces_def andThen_Inr)
  then show ?thesis
    by (rule foldE_unique [where key = nm_name and P = "\<lambda>n. nm_cluster n = c \<and> nm_name n \<noteq> []",
          THEN conjE])
      (auto simp: namespaceStep_def namespaceFrom_def Let_def andThen_Inr split: if_splits)
qed

lemma ParseBucketPage_keyed:
  assumes "ParseBucketPage data c t = Inr (bs, marker)"
  shows "distinct (map (\<lambda>b. (bk_namespace b, bk_name b)) bs)
    \<and> list_all (\<lambda>b. bk_cluster b = c \<and> bk_namespace b \<noteq> [] \<and> bk_name b \<noteq> []) bs
    \<and> length marker \<le> 4096"
proof -
  obtain raws where l: "foldE (bucketStep c t) raws [] = Inr bs" and m: "length marker \<le> 4096"
    using assms by (auto simp: ParseBucketPage_def andThen_Inr Let_def split: if_splits)
  let ?key = "\<lambda>b. (bk_namespace b, bk_name b)"
  let ?P = "\<lambda>b. bk_cluster b = c \<and> bk_namespace b \<noteq> [] \<and> bk_name b \<noteq> []"
  have "distinct (map ?key bs) \<and> list_all ?P bs \<and> length bs = length raws"
    using l
  proof (rule foldE_unique)
    fix x acc r assume "bucketStep c t x acc = Inr r"
    then show "\<exists>y. r = acc @ [y] \<and> ?key y \<notin> ?key ` set acc \<and> ?P y"
      by (auto simp: bucketStep_def Let_def andThen_Inr billingKey_def split: if_splits)
  qed
  with m show ?thesis by blast
qed

section \<open>Node statuses\<close>

definition serviceOf :: "string \<Rightarrow> raw_service \<Rightarrow> node_service result" where
  "serviceOf kind entry =
     (let name = normalizeDimension (sv_name entry) 128; state = normalizeDimension (sv_status entry) 64
      in if name = [] \<or> state = [] then Inl (Msg [])
         else andThen (statusHealth state) (\<lambda>health.
           Inr \<lparr>ns_name = name, ns_kind = kind, ns_status = state, ns_health = health\<rparr>))"

definition serviceKey :: "node_service \<Rightarrow> string list" where
  "serviceKey s = [ns_kind s, ns_name s]"

lemma serviceCompare_le: "serviceCompare a b \<le> 0 \<longleftrightarrow> serviceKey a \<le> serviceKey b"
  by (auto simp: serviceCompare_def serviceKey_def)

lemma serviceStep_Inr:
  "serviceStep kind e acc = Inr r \<longleftrightarrow>
     (\<exists>s. serviceOf kind e = Inr s \<and> serviceKey s \<notin> serviceKey ` set acc \<and> r = acc @ [s])"
  by (auto simp: serviceStep_def serviceOf_def serviceKey_def Let_def andThen_Inr image_iff)

lemma service_entries:
  "foldE (serviceStep kind) es acc = Inr r \<longleftrightarrow>
     (\<exists>ss. list_all2 (\<lambda>e s. serviceOf kind e = Inr s) es ss \<and> distinct (map serviceKey ss)
        \<and> serviceKey ` set ss \<inter> serviceKey ` set acc = {} \<and> r = acc @ ss)"
proof (induction es arbitrary: acc)
  case (Cons e es)
  show ?case
    unfolding foldE.simps andThen_Inr serviceStep_Inr Cons.IH
    by (auto simp: list_all2_Cons1)
qed auto

lemma service_pair:
  "foldE (\<lambda>kind. foldE (serviceStep kind) (entriesOf raw kind)) [k1, k2] [] = Inr r \<longleftrightarrow>
     (\<exists>ss ts. list_all2 (\<lambda>e s. serviceOf k1 e = Inr s) (entriesOf raw k1) ss
        \<and> list_all2 (\<lambda>e s. serviceOf k2 e = Inr s) (entriesOf raw k2) ts
        \<and> distinct (map serviceKey (ss @ ts)) \<and> r = ss @ ts)"
  by (auto simp: andThen_Inr service_entries)

definition kinds_order :: "string list \<Rightarrow> bool" where
  "kinds_order ks \<longleftrightarrow> ks = [''service'', ''process''] \<or> ks = [''process'', ''service'']"

lemma statusStep_swap:
  assumes "statusStep [k1, k2] raw acc = Inr r" shows "statusStep [k2, k1] raw acc = Inr r"
proof -
  let ?svc = "\<lambda>ks. foldE (\<lambda>kind. foldE (serviceStep kind) (entriesOf raw kind)) ks []"
  obtain h svcs where s: "?svc [k1, k2] = Inr svcs" and h: "nodeHealthValue (rt_health raw) = Inr h"
    using assms by (auto simp: statusStep_def Let_def andThen_Inr split: if_splits)
  then obtain ss ts where st: "list_all2 (\<lambda>e s. serviceOf k1 e = Inr s) (entriesOf raw k1) ss"
      "list_all2 (\<lambda>e s. serviceOf k2 e = Inr s) (entriesOf raw k2) ts"
      "distinct (map serviceKey (ss @ ts))" "svcs = ss @ ts"
    unfolding service_pair by blast
  then have s': "?svc [k2, k1] = Inr (ts @ ss)"
    unfolding service_pair by (auto simp: Int_commute)
  have "sort_func serviceCompare (ss @ ts) = sort_func serviceCompare (ts @ ss)"
    by (rule sort_func_perm [OF serviceCompare_le _ st(3)]) simp
  then show ?thesis
    using assms s s' h by (auto simp: statusStep_def Let_def st(4) split: if_splits)
qed

lemma ParseNodeStatuses_order:
  assumes "kinds_order ks" "kinds_order ks'"
  shows "ParseNodeStatuses ks data = Inr r \<longleftrightarrow> ParseNodeStatuses ks' data = Inr r"
proof -
  have "ParseNodeStatuses [a, b] data = Inr r \<longleftrightarrow> ParseNodeStatuses [b, a] data = Inr r" for a b
  proof -
    have "foldE (statusStep [a, b]) xs acc = Inr y \<longleftrightarrow> foldE (statusStep [b, a]) xs acc = Inr y" for xs acc y
      by (rule foldE_same_success) (blast intro: statusStep_swap)
    then show ?thesis
      unfolding ParseNodeStatuses_def andThen_Inr by (auto simp: Let_def)
  qed
  then show ?thesis using assms by (auto simp: kinds_order_def)
qed

section \<open>Properties of the numbers\<close>

text \<open>
  C27: a JSON number or a JSON string that is a decimal integer up to 2 to the 53
  decodes to exactly that integer, whatever the target held before, and \<open>null\<close> to no number.
\<close>

theorem number_exact:
  assumes "list_all is_digit ds" "ds \<noteq> []" "dec_value ds \<le> 2 ^ 53"
  shows "dec_number (JNum ds) old = Inr \<lparr>num_value = Fin False (of_nat (dec_value ds)), num_valid = True\<rparr>
    \<and> dec_number (JStr ds) old = dec_number (JNum ds) old
    \<and> dec_number JNull old = Inr no_number"
  using setNumber_digits [OF assms] by (simp add: dec_number_def numberFrom_def whole_def)

theorem number_exact_witness:
  "dec_number (JNum ''9007199254740992'') no_number = Inr \<lparr>num_value = Fin False (2 ^ 53), num_valid = True\<rparr>"
proof -
  have v: "dec_value ''9007199254740992'' = 2 ^ 53" by code_simp
  have "list_all is_digit ''9007199254740992''" by code_simp
  from number_exact [OF this, of no_number] show ?thesis by (simp add: v)
qed

text \<open>
  C28: whatever is decoded as a number -- a member of a response, the bytes handed to
  \<open>UnmarshalJSON\<close>, the text of a Flux cell -- is a finite float64 value: no NaN, no infinity
  and nothing that float64 cannot represent gets in.
\<close>

theorem number_finite:
  assumes "dec_number j old = Inr n \<or> UnmarshalJSON data = Inr n \<or> parseFinite data = Inr (num_value n)"
  shows "f64_finite (num_value n) \<and> wf_f64 (num_value n)"
proof -
  have "number_ok m" if "UnmarshalJSON data = Inr m" for m
    using that numberFrom_ok by (auto simp: UnmarshalJSON_def split: if_splits option.splits)
  then show ?thesis
    using assms dec_number_ok [of j old n] parseFinite_ok [of data "num_value n"] by (auto simp: number_ok_def)
qed

theorem number_finite_witness: "f64_finite (num_value (whole 42)) \<and> wf_f64 (num_value (whole 42))"
proof (rule number_finite)
  have "dec_value ''42'' = 42" "list_all is_digit ''42''" by code_simp+
  then show "dec_number (JStr ''42'') no_number = Inr (whole 42) \<or> UnmarshalJSON [] = Inr (whole 42)
      \<or> parseFinite [] = Inr (num_value (whole 42))"
    using setNumber_digits [of "''42''"] by (simp add: dec_number_def numberFrom_def)
qed

section \<open>Capacity\<close>

text \<open>
  C21: a capacity response that parses yields three finite byte counts with used and
  available between 0 and the total, and used is the rounded difference of the other two.
\<close>

theorem capacity_bounds:
  assumes "ParseCapacity data = Inr c"
  shows "f64_finite (cp_total c) \<and> f64_finite (cp_used c) \<and> f64_finite (cp_available c)
    \<and> 0 \<le> fval (cp_available c) \<and> fval (cp_available c) \<le> fval (cp_total c)
    \<and> 0 \<le> fval (cp_used c) \<and> fval (cp_used c) \<le> fval (cp_total c)
    \<and> fval (cp_used c) = rnd (fval (cp_total c) - fval (cp_available c))"
  by (rule ParseCapacity_from [OF assms]) (rule capacityFrom_bounds)

definition capacity_text :: string where
  "capacity_text = json_text ''{~totalProvisioned_gb~: 10, ~totalFree_gb~: ~4~}''"

lemma f64_op_simps: "flt (Fin False a) (Fin False b) \<longleftrightarrow> a < b" "flt (Fin False a) fzero \<longleftrightarrow> a < 0"
  by (simp_all add: fzero_def)

lemma ParseCapacity_text:
  "ParseCapacity capacity_text =
     Inr \<lparr>cp_total = f64_nat 10000000000, cp_used = fsub (f64_nat 10000000000) (f64_nat 4000000000),
       cp_available = f64_nat 4000000000\<rparr>"
proof -
  have j: "decode_only capacity_text
      = Some (JObj [(''totalProvisioned_gb'', JNum ''10''), (''totalFree_gb'', JStr ''4'')])"
    by code_simp
  have n: "setNumber ''10'' = Inr (whole 10)" "setNumber ''4'' = Inr (whole 4)"
    using setNumber_digits [of "''10''"] setNumber_digits [of "''4''"]
    by (simp_all add: is_digit_def dec_value_def digit_val_def)
  have f: "field_for capacity_fields ''totalProvisioned_gb'' = Some (into dec_number cr_total (\<lambda>v r. r\<lparr>cr_total := v\<rparr>))"
    "field_for capacity_fields ''totalFree_gb'' = Some (into dec_number cr_free (\<lambda>v r. r\<lparr>cr_free := v\<rparr>))"
    by (simp_all add: field_for_def capacity_fields_def)
  show ?thesis
    unfolding ParseCapacity_def Let_def
    apply (rule andThen_Inr [THEN iffD2])
    apply (simp add: decodeJSON_Inr j dec_struct_def f into_def dec_number_def numberFrom_def n no_number_def no_raw_capacity_def)
    apply (simp add: capacityFrom_def scaleFinite_GB_small Required_def fzero_def)
    using scaleFinite_GB_small [of 10] scaleFinite_GB_small [of 4] apply simp
    done
qed

theorem capacity_bounds_witness: "fval (cp_used (case ParseCapacity capacity_text of Inr c \<Rightarrow> c)) \<le> 10000000000"
  using capacity_bounds [OF ParseCapacity_text] by (simp add: ParseCapacity_text)

section \<open>Quotas\<close>

lemma rawQuota_ok:
  assumes "dec_struct rawQuota_fields j old = Inr r" "number_ok (rq_hard old) \<and> number_ok (rq_soft old)"
  shows "number_ok (rq_hard r) \<and> number_ok (rq_soft r)"
  by (rule dec_struct_inv [where I = "\<lambda>r. number_ok (rq_hard r) \<and> number_ok (rq_soft r)", OF assms])
    (auto simp: rawQuota_fields_def; erule dec_number_ok)

lemma no_raw_quota_ok [simp]: "number_ok (rq_hard no_raw_quota) \<and> number_ok (rq_soft no_raw_quota)"
  by (simp add: no_raw_quota_def)

definition quota_response_ok :: "quota_response \<Rightarrow> bool" where
  "quota_response_ok r \<longleftrightarrow> number_ok (rq_hard (qr_details r)) \<and> number_ok (rq_soft (qr_details r))
     \<and> number_ok (qr_hard r) \<and> number_ok (qr_soft r)"

lemma quota_response_ok:
  assumes "dec_struct quota_fields j old = Inr r" "quota_response_ok old"
  shows "quota_response_ok r"
  by (rule dec_struct_inv [where I = quota_response_ok, OF assms])
    (auto simp: quota_fields_def quota_response_ok_def; (erule dec_number_ok | drule rawQuota_ok; simp))

lemma ParseNamespaceQuota_numbers:
  assumes "ParseNamespaceQuota b data = Inr q"
  shows "\<exists>s h. number_ok s \<and> number_ok h \<and> quotaFromNumbers b s h = Inr q
    \<and> (\<forall>c. ParseNamespaceQuota c data = quotaFromNumbers c s h)"
proof -
  let ?zero = "\<lparr>qr_details = no_raw_quota, qr_hard = no_number, qr_soft = no_number\<rparr>"
  obtain r where r: "decodeJSON (\<lambda>j. dec_struct quota_fields j ?zero) data = Inr r"
    using assms by (auto simp: ParseNamespaceQuota_def andThen_Inr)
  then have "quota_response_ok r"
    using quota_response_ok [of _ ?zero r] by (auto simp: decodeJSON_Inr quota_response_ok_def no_raw_quota_def)
  then show ?thesis
    using assms by (auto simp: ParseNamespaceQuota_def r Let_def quota_response_ok_def split: if_splits)
qed

lemma ParseBucketQuota_numbers:
  assumes "ParseBucketQuota b data = Inr q"
  shows "\<exists>s h. number_ok s \<and> number_ok h \<and> quotaFromNumbers b s h = Inr q
    \<and> (\<forall>c. ParseBucketQuota c data = quotaFromNumbers c s h)"
proof -
  obtain env where env: "decodeJSON dec_map data = Inr env"
    using assms by (auto simp: ParseBucketQuota_def andThen_Inr)
  obtain raw where raw: "decodeJSON (\<lambda>j. dec_struct rawQuota_fields j no_raw_quota) data = Inr raw
        \<or> (\<exists>j. dec_struct rawQuota_fields j no_raw_quota = Inr raw)"
      "\<forall>c. ParseBucketQuota c data = quotaFromNumbers c (rq_soft raw) (rq_hard raw)"
    using assms
    by (auto simp: ParseBucketQuota_def env Let_def andThen_Inr decodeRaw_def split: option.splits if_splits)
      blast+
  then obtain j where "dec_struct rawQuota_fields j no_raw_quota = Inr raw"
    by (auto simp: decodeJSON_Inr)
  then show ?thesis
    using rawQuota_ok [of j no_raw_quota raw] raw(2) assms by auto
qed

text \<open>
  C22: a quota that parses, of a namespace or of a bucket, does not depend on the order
  in which Go visits the soft and the hard limit; each limit is absent or a finite count of bytes
  that is not negative, and the soft limit is at most the hard one when both are set.
\<close>

theorem quota_bounds:
  assumes "ParseNamespaceQuota b data = Inr q \<or> ParseBucketQuota b data = Inr q"
  shows "(ParseNamespaceQuota (\<not> b) data = Inr q \<or> ParseBucketQuota (\<not> b) data = Inr q)
    \<and> (\<forall>x. qt_soft q = Some x \<longrightarrow> f64_finite x \<and> 0 \<le> fval x)
    \<and> (\<forall>y. qt_hard q = Some y \<longrightarrow> f64_finite y \<and> 0 \<le> fval y)
    \<and> (\<forall>x y. qt_soft q = Some x \<and> qt_hard q = Some y \<longrightarrow> fval x \<le> fval y)"
proof -
  obtain s h where n: "number_ok s" "number_ok h" and q: "quotaFromNumbers b s h = Inr q"
    and p: "(\<forall>c. ParseNamespaceQuota c data = quotaFromNumbers c s h)
      \<or> (\<forall>c. ParseBucketQuota c data = quotaFromNumbers c s h)"
    using assms ParseNamespaceQuota_numbers ParseBucketQuota_numbers by meson
  have "quotaFromNumbers (\<not> b) s h = Inr q"
    using q quotaFromNumbers_order [of s h q] by (cases b) auto
  then show ?thesis
    using p quota_sound [OF q n] by auto
qed


definition quota_text :: string where
  "quota_text = json_text ''{~blockSize~: 5, ~notificationSize~: ~3~}''"

lemma ParseNamespaceQuota_text:
  "ParseNamespaceQuota True quota_text = Inr \<lparr>qt_soft = Some (f64_nat 3000000000), qt_hard = Some (f64_nat 5000000000)\<rparr>"
proof -
  have j: "decode_only quota_text
      = Some (JObj [(''blockSize'', JNum ''5''), (''notificationSize'', JStr ''3'')])"
    by code_simp
  have n: "setNumber ''5'' = Inr (whole 5)" "setNumber ''3'' = Inr (whole 3)"
    using setNumber_digits [of "''5''"] setNumber_digits [of "''3''"]
    by (simp_all add: is_digit_def dec_value_def digit_val_def)
  have f: "field_for quota_fields ''blockSize'' = Some (into dec_number qr_hard (\<lambda>v r. r\<lparr>qr_hard := v\<rparr>))"
    "field_for quota_fields ''notificationSize'' = Some (into dec_number qr_soft (\<lambda>v r. r\<lparr>qr_soft := v\<rparr>))"
    by (simp_all add: field_for_def quota_fields_def)
  have q: "quotaFromNumbers True (whole 3) (whole 5)
      = Inr \<lparr>qt_soft = Some (f64_nat 3000000000), qt_hard = Some (f64_nat 5000000000)\<rparr>"
    using scaleFinite_GB_small [of 3] scaleFinite_GB_small [of 5]
    by (simp add: quotaFromNumbers_def validateQuotaNumbers_def fdiv_max_GB checks.simps require_def
        quotaField_def Required_def no_limit_def fzero_def)
  show ?thesis
    unfolding ParseNamespaceQuota_def Let_def
    by (rule andThen_Inr [THEN iffD2])
      (simp add: decodeJSON_Inr j dec_struct_def f into_def dec_number_def numberFrom_def n no_number_def
        no_raw_quota_def q)
qed

theorem quota_bounds_witness:
  "fval (the (qt_soft (case ParseNamespaceQuota True quota_text of Inr q \<Rightarrow> q)))
     \<le> fval (the (qt_hard (case ParseNamespaceQuota True quota_text of Inr q \<Rightarrow> q)))"
  using quota_bounds [OF disjI1 [OF ParseNamespaceQuota_text]] by (simp add: ParseNamespaceQuota_text)

section \<open>Billing\<close>

lemma billingUnit_cases:
  assumes "billingUnit unit = Some m"
  shows "m \<in> {f64_nat 1, binaryKB, decimalGB} \<or> to_upper unit \<in> {''MB'', ''TB''}"
proof -
  obtain U where U: "U = to_upper unit" by simp
  have "map_of [(''B'', f64_nat 1), (''BYTES'', f64_nat 1), (''KB'', binaryKB), (''MB'', f64_nat 1000000),
       (''GB'', decimalGB), (''TB'', f64_nat 1000000000000)] U = Some m"
    using assms by (simp only: billingUnit_def U)
  from map_of_SomeD [OF this] have "(U, m) \<in> {(''B'', f64_nat 1), (''BYTES'', f64_nat 1), (''KB'', binaryKB), (''MB'', f64_nat 1000000),
       (''GB'', decimalGB), (''TB'', f64_nat 1000000000000)}" by (simp only: list.set)
  then show ?thesis unfolding U [symmetric] by blast
qed
lemma billing_ok:
  assumes "parseBilling sz unit objects sample = Inr b" "number_ok sz" "number_ok objects"
    "to_upper unit \<noteq> ''MB''" "to_upper unit \<noteq> ''TB''"
  shows "\<exists>used count. bl_used b = Some used \<and> bl_objects b = Some count
    \<and> f64_finite used \<and> 0 \<le> fval used \<and> f64_finite count \<and> 0 \<le> fval count \<and> fintegral count
    \<and> (sample = [] \<longleftrightarrow> bl_sample b = None)"
proof -
  obtain m where m: "billingUnit unit = Some m" and obj: "num_valid objects" "\<not> flt (num_value objects) fzero"
      "fintegral (num_value objects)"
    and sc: "\<exists>u. scaleFinite (num_value sz) m ''billing total_size'' = Inr u \<and> bl_used b = Some u
      \<and> bl_objects b = Some (num_value objects) \<and> (sample = [] \<longleftrightarrow> bl_sample b = None)"
    using assms(1)
    by (auto simp: parseBilling_def andThen_Inr Let_def pointer_def split: option.splits if_splits)
  have "m \<in> {f64_nat 1, binaryKB, decimalGB}"
    using billingUnit_cases [OF m] assms(4,5) by simp
  moreover have one: "wf_f64 (f64_nat 1)" by (rule wf_f64_nat) simp
  ultimately have safe: "safe_multiplier m \<and> wf_f64 m"
    unfolding insert_iff empty_iff by (elim disjE FalseE; hypsubst; intro conjI safe_1 safe_KB safe_GB wf_multipliers one)
  from sc obtain u where u: "scaleFinite (num_value sz) m ''billing total_size'' = Inr u \<and> bl_used b = Some u
      \<and> bl_objects b = Some (num_value objects) \<and> (sample = [] \<longleftrightarrow> bl_sample b = None)" by (rule exE)
  have "f64_finite u \<and> 0 \<le> fval u"
    using scaleFinite_fin [OF conjunct1 [OF u] _ _ conjunct1 [OF safe] conjunct2 [OF safe]] assms(2)
    by (auto simp: number_ok_def)
  then show ?thesis
    using u obj assms(3) by (auto simp: number_ok_def flt_fin)
qed

lemma rawBilling_ok:
  assumes "dec_struct fs j old = Inr r" "fs = namespaceBilling_fields \<or> fs = rawBucketBilling_fields"
    "number_ok (rb_size old) \<and> number_ok (rb_objects old)"
  shows "number_ok (rb_size r) \<and> number_ok (rb_objects r)"
  by (rule dec_struct_inv [where I = "\<lambda>r. number_ok (rb_size r) \<and> number_ok (rb_objects r)", OF assms(1,3)])
    (use assms(2) in \<open>force simp: namespaceBilling_fields_def rawBucketBilling_fields_def elim: dec_number_ok\<close>)

text \<open>The decoded response of \<open>ParseNamespaceBilling\<close>, when it decodes.\<close>

definition namespaceBilling_raw :: "string \<Rightarrow> raw_billing result" where
  "namespaceBilling_raw data = decodeJSON (\<lambda>j. dec_struct namespaceBilling_fields j no_raw_billing) data"

text \<open>
  C23: namespace billing in bytes, KB or GB that parses has a finite size and a finite
  whole count of objects, neither negative. MB and TB are excluded: there the guard of
  \<open>scaleFinite\<close> lets a size pass whose product is infinite.
\<close>

theorem billing_bounds:
  assumes "ParseNamespaceBilling data = Inr b" "namespaceBilling_raw data = Inr raw"
    "to_upper (rb_unit raw) \<noteq> ''MB''" "to_upper (rb_unit raw) \<noteq> ''TB''"
  shows "\<exists>used count. bl_used b = Some used \<and> bl_objects b = Some count
    \<and> f64_finite used \<and> 0 \<le> fval used \<and> f64_finite count \<and> 0 \<le> fval count \<and> fintegral count
    \<and> (rb_sample raw = [] \<longleftrightarrow> bl_sample b = None)"
proof -
  have "number_ok (rb_size raw) \<and> number_ok (rb_objects raw)"
    using assms(2) rawBilling_ok [of namespaceBilling_fields _ no_raw_billing raw]
    by (auto simp: namespaceBilling_raw_def decodeJSON_Inr no_raw_billing_def)
  then show ?thesis
    using assms billing_ok
    by (auto simp: ParseNamespaceBilling_def namespaceBilling_raw_def [symmetric] billingFrom_def)
qed

lemma scaleFinite_bytes: "n \<le> 2 ^ 53 \<Longrightarrow> scaleFinite (f64_nat n) (f64_nat 1) field = Inr (f64_nat n)"
proof -
  assume n: "n \<le> 2 ^ 53"
  have "rnd ((2 ^ 53 - 1) * 2 ^ 971 / of_nat 1) = (2 ^ 53 - 1) * 2 ^ 971"
    using rnd_exact [of _ "2 ^ 53 - 1" 971] by simp
  then have q: "fdiv max_f64 (f64_nat 1) = Fin False ((2 ^ 53 - 1) * 2 ^ 971)"
    by (subst fdiv_max_nat) (simp_all add: pack_def)
  have m: "fmul (f64_nat n) (f64_nat 1) = f64_nat n"
    using rnd_of_nat [OF n] f64_nat_less [OF n] by (simp add: pack_def)
  have "(of_nat n :: rat) \<le> of_nat (2 ^ 53)" using n by (simp only: of_nat_le_iff)
  then have "\<not> ((2 ^ 53 - 1) * 2 ^ 971 :: rat) < of_nat n" by simp
  then show ?thesis
    unfolding scaleFinite_def q m by (simp add: fzero_def fle_def)
qed

definition billing_text :: string where
  "billing_text = json_text ''{~total_size~: 7, ~total_size_unit~: ~bytes~, ~total_objects~: ~2~}''"

lemma billing_text_raw:
  "namespaceBilling_raw billing_text = Inr \<lparr>rb_name = [], rb_namespace = [], rb_size = whole 7,
     rb_unit = ''bytes'', rb_objects = whole 2, rb_sample = []\<rparr>"
proof -
  have j: "decode_only billing_text = Some (JObj [(''total_size'', JNum ''7''),
      (''total_size_unit'', JStr ''bytes''), (''total_objects'', JStr ''2'')])"
    by code_simp
  have n: "setNumber ''7'' = Inr (whole 7)" "setNumber ''2'' = Inr (whole 2)"
    using setNumber_digits [of "''7''"] setNumber_digits [of "''2''"]
    by (simp_all add: is_digit_def dec_value_def digit_val_def)
  have f: "field_for namespaceBilling_fields ''total_size'' = Some (into dec_number rb_size (\<lambda>v r. r\<lparr>rb_size := v\<rparr>))"
    "field_for namespaceBilling_fields ''total_size_unit'' = Some (into dec_string rb_unit (\<lambda>v r. r\<lparr>rb_unit := v\<rparr>))"
    "field_for namespaceBilling_fields ''total_objects'' = Some (into dec_number rb_objects (\<lambda>v r. r\<lparr>rb_objects := v\<rparr>))"
    by (simp_all add: field_for_def namespaceBilling_fields_def)
  show ?thesis
    unfolding namespaceBilling_raw_def decodeJSON_Inr
    by (simp add: j dec_struct_def f into_def dec_number_def dec_string_def numberFrom_def n no_raw_billing_def)
qed

lemma billing_text_parsed:
  "ParseNamespaceBilling billing_text
     = Inr \<lparr>bl_used = Some (f64_nat 7), bl_objects = Some (f64_nat 2), bl_sample = None\<rparr>"
proof -
  have u: "billingUnit ''bytes'' = Some (f64_nat 1)" "to_upper ''bytes'' = ''BYTES''" by code_simp+
  show ?thesis
    unfolding ParseNamespaceBilling_def namespaceBilling_raw_def [symmetric] billing_text_raw
    using scaleFinite_bytes [of 7]
    by (simp add: billingFrom_def parseBilling_def u fzero_def pointer_def)
qed

theorem billing_bounds_witness:
  "\<exists>used. (case ParseNamespaceBilling billing_text of Inr b \<Rightarrow> bl_used b) = Some used
     \<and> f64_finite used \<and> 0 \<le> fval used"
proof -
  have "to_upper ''bytes'' = ''BYTES''" by code_simp
  then show ?thesis
    using billing_bounds [OF billing_text_parsed billing_text_raw]
    by (auto simp: billing_text_parsed)
qed

lemma to_upper_TB: "to_upper ''TB'' = ''TB''"
  by code_simp

text \<open>
  C29: \<open>scaleFinite\<close> is meant to refuse what is outside float64, and for TB it
  does not: a finite size of about 1.8e296 TB passes its guard and the parsed billing holds
  positive infinity.
\<close>

theorem billing_overflow:
  "wf_f64 terabyte_gap \<and> f64_finite terabyte_gap
   \<and> parseBilling \<lparr>num_value = terabyte_gap, num_valid = True\<rparr> ''TB'' (whole 1) []
     = Inr \<lparr>bl_used = Some (Inf False), bl_objects = Some (f64_nat 1), bl_sample = None\<rparr>"
proof -
  have u: "billingUnit ''TB'' = Some (f64_nat 1000000000000)"
    unfolding billingUnit_def by (subst (1) to_upper_TB) simp
  have "\<not> flt terabyte_gap fzero" by (simp add: terabyte_gap_def fzero_def)
  then show ?thesis
    using wf_terabyte_gap scaleFinite_terabyte_gap [of "''billing total_size''"]
    by (simp add: parseBilling_def u fzero_def pointer_def) (simp add: terabyte_gap_def)
qed

section \<open>Identity and roles\<close>

lemma sorted_distinct_adj: "sorted xs \<Longrightarrow> distinct_adj xs \<Longrightarrow> sorted_wrt (<) (xs :: 'a::linorder list)"
proof (induction xs)
  case (Cons x xs)
  then show ?case
    by (cases xs) (fastforce simp: distinct_adj_Cons)+
qed simp

text \<open>
  C26: an identity that parses has a name without surrounding white space, and its roles
  are sorted, without duplicates, and include SYSTEM\_MONITOR or SYSTEM\_ADMIN up to case.
\<close>

theorem whoami_admits:
  assumes "ParseWhoAmI data = Inr (name, roles)"
  shows "name \<noteq> [] \<and> sorted roles \<and> distinct roles
    \<and> (\<exists>role \<in> set roles. equal_fold role ''SYSTEM_MONITOR'' \<or> equal_fold role ''SYSTEM_ADMIN'')"
proof -
  obtain rs where "name \<noteq> []" and r: "roles = remdups_adj (sort rs)"
    and ex: "list_ex (\<lambda>role. equal_fold role ''SYSTEM_MONITOR'' \<or> equal_fold role ''SYSTEM_ADMIN'') rs"
    using assms unfolding ParseWhoAmI_def Let_def andThen_Inr by (auto split: if_split_asm)
  moreover have "set roles = set rs" by (simp add: r)
  moreover have "sorted_wrt (<) roles" by (simp add: r sorted_distinct_adj)
  ultimately show ?thesis
    by (simp add: list_ex_iff strict_sorted_iff)
qed

theorem whoami_admits_witness:
  "sorted [''A'', ''System_Monitor''] \<and> equal_fold ''System_Monitor'' ''SYSTEM_MONITOR''"
proof -
  have "ParseWhoAmI (json_text
      ''{~user~: {~common_name~: ~ mon ~, ~roles~: {~role~: [~System_Monitor~, ~A~, ~A~]}}}'')
      = Inr (''mon'', [''A'', ''System_Monitor''])"
    by code_simp
  moreover have "\<not> equal_fold ''A'' ''SYSTEM_MONITOR''" "\<not> equal_fold ''A'' ''SYSTEM_ADMIN''"
    "equal_fold ''System_Monitor'' ''SYSTEM_MONITOR''" by code_simp+
  ultimately show ?thesis using whoami_admits by blast
qed

section \<open>Nodes and their statuses\<close>

text \<open>
  C25: \<open>ParseNodes\<close> succeeds exactly when the text is one JSON value whose \<open>node\<close>
  list decodes, is not empty, has an id, a name and a version in every entry, and repeats no id and
  no name; the nodes and versions are then those of the list, in its order.
\<close>

theorem nodes_parsed:
  "ParseNodes data c t = Inr (nodes, versions) \<longleftrightarrow>
     (\<exists>j raws. decode_only data = Some j
        \<and> dec_list_response ''node'' (dec_struct rawNode_fields) no_raw_node j = Inr raws
        \<and> raws \<noteq> [] \<and> raw_nodes_valid raws
        \<and> nodes = map (nodeFrom c t) raws \<and> versions = map rn_version raws)"
  by (rule ParseNodes_Inr)

lemma statusStep_services:
  assumes "statusStep ks raw acc = Inr r" "\<forall>(n, s) \<in> set acc. sorted_wrt (<) (map serviceKey (st_services s))"
    "kinds_order ks"
  shows "\<forall>(n, s) \<in> set r. sorted_wrt (<) (map serviceKey (st_services s))"
proof -
  obtain svcs i h where s: "foldE (\<lambda>kind. foldE (serviceStep kind) (entriesOf raw kind)) ks [] = Inr svcs"
    and r: "r = acc @ [(i, \<lparr>st_health = h, st_services = sort_func serviceCompare svcs\<rparr>)]"
    using assms(1) by (auto simp: statusStep_def Let_def andThen_Inr split: if_splits)
  have "distinct (map serviceKey svcs)"
    using s assms(3) service_pair by (auto simp: kinds_order_def)
  then have "distinct (map serviceKey (sort_func serviceCompare svcs))"
    by (metis mset_map mset_sort_func mset_eq_imp_distinct_iff)
  moreover have "sorted (map serviceKey (sort_func serviceCompare svcs))"
    by (rule sorted_sort_func [OF serviceCompare_le])
  ultimately show ?thesis
    using assms(2) by (simp add: r strict_sorted_iff)
qed

text \<open>
  C24: the statuses parsed do not depend on the order in which Go visits the
  two kinds of services, and every node's services are sorted by kind and name with no repetition.
\<close>

theorem node_statuses_order_free:
  assumes "ParseNodeStatuses ks data = Inr r" "kinds_order ks" "kinds_order ks'"
  shows "ParseNodeStatuses ks' data = Inr r
    \<and> (\<forall>(n, s) \<in> set r. sorted_wrt (<) (map (\<lambda>v. [ns_kind v, ns_name v]) (st_services s)))"
proof
  show "ParseNodeStatuses ks' data = Inr r"
    using assms ParseNodeStatuses_order by blast
  obtain vs where "foldE (statusStep ks) vs [] = Inr r"
    using assms(1) by (auto simp: ParseNodeStatuses_def andThen_Inr Let_def split: if_splits)
  then have "\<forall>(n, s) \<in> set r. sorted_wrt (<) (map serviceKey (st_services s))"
    by (induction rule: foldE_rule) (use statusStep_services assms(2) in auto)
  then show "\<forall>(n, s) \<in> set r. sorted_wrt (<) (map (\<lambda>v. [ns_kind v, ns_name v]) (st_services s))"
    by (simp add: serviceKey_def [abs_def])
qed

definition status_text :: string where
  "status_text = json_text ''{~node~: [{~nodeid~: ~n1~, ~healthStatus~: ~Good~,
     ~services~: [{~name~: ~b~, ~status~: ~up~}], ~processes~: [{~name~: ~a~, ~status~: ~Down~}]}]}''"

definition status_parsed :: "(string \<times> node_status) list" where
  "status_parsed = [(''n1'', \<lparr>st_health = f64_nat 1, st_services =
     [\<lparr>ns_name = ''a'', ns_kind = ''process'', ns_status = ''Down'', ns_health = fzero\<rparr>,
      \<lparr>ns_name = ''b'', ns_kind = ''service'', ns_status = ''up'', ns_health = f64_nat 1\<rparr>]\<rparr>)]"

theorem node_statuses_order_free_witness:
  "ParseNodeStatuses [''process'', ''service''] status_text = Inr status_parsed"
proof -
  have "ParseNodeStatuses [''service'', ''process''] status_text = Inr status_parsed" by code_simp
  from node_statuses_order_free [OF this] show ?thesis by (simp add: kinds_order_def)
qed

section \<open>Replication\<close>

definition replication_response_ok :: "replication_response \<Rightarrow> bool" where
  "replication_response_ok r \<longleftrightarrow> list_all number_ok
     [rr_repo r, rr_journal r, rr_xor r, rr_rpo r, rr_fail_pct r, rr_boot_pct r]"

lemma replication_response_ok:
  assumes "dec_struct replication_fields j old = Inr r" "replication_response_ok old"
  shows "replication_response_ok r"
  by (rule dec_struct_inv [where I = replication_response_ok, OF assms])
    (auto simp: replication_fields_def replication_response_ok_def; erule dec_number_ok)


lemma time_unix_le: "k \<le> unix_seconds now \<Longrightarrow> time_unix k \<le> now"
proof -
  assume "k \<le> unix_seconds now"
  then have "(k + unix_epoch) * second \<le> (now div second) * second"
    by (intro mult_right_mono) (auto simp: unix_seconds_def second_def)
  also have "\<dots> \<le> now" by (simp add: second_def)
  finally show ?thesis by (simp add: time_unix_def)
qed

lemma duration_seconds_nonneg:
  assumes "0 \<le> d" "int64 d"
  shows "f64_finite (duration_seconds d) \<and> 0 \<le> fval (duration_seconds d)"
proof -
  let ?sec = "d div second" and ?nsec = "d mod second"
  have sg: "sgn d * (\<bar>d\<bar> div second) = ?sec" "sgn d * (\<bar>d\<bar> mod second) = ?nsec"
    using assms(1) by (cases "d = 0"; simp)+
  have b: "0 \<le> ?sec" "?sec \<le> 9223372036" "0 \<le> ?nsec" "?nsec < 1000000000"
    using assms by (auto simp: second_def int64_iff pos_imp_zdiv_nonneg_iff)
  have s: "f64_of_int ?sec = Fin False (of_int ?sec)" and n: "f64_of_int ?nsec = Fin False (of_int ?nsec)"
    using b by (intro f64_of_int_small; simp)+
  have q: "rnd (of_int ?nsec / 1000000000) \<le> 1" "0 \<le> rnd (of_int ?nsec / 1000000000)"
  proof -
    have "(of_int ?nsec :: rat) \<le> of_int 1000000000" using b(4) by (simp only: of_int_le_iff)
    then have "rnd (of_int ?nsec / 1000000000) \<le> rnd 1" using b(3) by (intro rnd_mono) auto
    then show "rnd (of_int ?nsec / 1000000000) \<le> 1" using rnd_of_nat [of 1] by simp
    show "0 \<le> rnd (of_int ?nsec / 1000000000)" using b(3) by (intro rnd_nonneg) simp
  qed
  let ?q = "rnd (of_int ?nsec / 1000000000)"
  have "(1::rat) < 2 ^ 1024" by simp
  then have qf: "fdiv (f64_of_int ?nsec) (f64_nat 1000000000) = Fin False ?q"
    using q b(3) by (simp add: n pack_def)
  have "(of_int ?sec :: rat) \<le> of_int 9223372036" using b(2) by (simp only: of_int_le_iff)
  then have "rnd (of_int ?sec + ?q) \<le> rnd (of_nat 9223372037)" using q b(1) by (intro rnd_mono) auto
  also have "\<dots> = of_nat 9223372037" by (rule rnd_of_nat) simp
  also have "\<dots> < (2::rat) ^ 1024" by simp
  finally have "rnd (of_int ?sec + ?q) < 2 ^ 1024" .
  moreover have "0 \<le> rnd (of_int ?sec + ?q)" using q b(1) by (intro rnd_nonneg) simp
  ultimately show ?thesis
    unfolding duration_seconds_def Let_def sg qf s
    using q(2) b(1) by (simp add: fadd_pos pack_def del: fadd.simps)
qed

lemma replicationLag_ok:
  assumes "replicationLag rpo pending has now = Inr (Some x)" "number_ok rpo"
    "0 \<le> unix_seconds now" "unix_seconds now \<le> 2 ^ 53"
  shows "f64_finite x \<and> 0 \<le> fval x \<and> has \<and> flt fzero pending"
proof -
  let ?v = "num_value rpo"
  have v: "\<not> flt ?v fzero" "fintegral ?v" "\<not> flt (f64_of_int (unix_seconds now)) ?v"
    and x: "x = duration_seconds (time_sub now (time_unix (float_floor ?v)))" and p: "has" "flt fzero pending"
    using assms(1) by (auto simp: replicationLag_def Let_def split: if_splits)
  obtain s r where r: "?v = Fin s r" "0 \<le> r" using assms(2) by (cases ?v) (auto simp: number_ok_def)
  have u: "f64_of_int (unix_seconds now) = Fin False (of_int (unix_seconds now))"
    using assms(3,4) by (rule f64_of_int_small)
  have "float_floor ?v \<le> unix_seconds now"
  proof (cases s)
    case True
    then show ?thesis using v(1) r assms(3) by (simp add: r float_floor_def fzero_def)
  next
    case False
    then have "r \<le> of_int (unix_seconds now)" using v(3) r by (simp add: u)
    then show ?thesis using False by (simp add: r float_floor_def) linarith
  qed
  then have "0 \<le> now - time_unix (float_floor ?v)" using time_unix_le by simp
  then have "0 \<le> time_sub now (time_unix (float_floor ?v))"
    by (simp add: time_sub_def sat64_def max_int64_def min_int64_def)
  then show ?thesis
    using duration_seconds_nonneg p by (simp add: x time_sub_def)
qed

lemma ratioPercent_ok:
  assumes "ratioPercent n = Inr v" "number_ok n"
  shows "\<forall>x. v = Some x \<longrightarrow> f64_finite x \<and> 0 \<le> fval x \<and> fval x \<le> 1"
proof (cases v)
  case (Some x)
  then have x: "\<not> flt (num_value n) fzero" "\<not> flt (f64_nat 100) (num_value n)" "x = fdiv (num_value n) (f64_nat 100)"
    using assms(1) by (auto simp: ratioPercent_def pointer_def split: if_splits)
  have "nonneg_f64 (num_value n)" "fval (num_value n) \<le> 100"
    using x assms(2) by (auto simp: number_ok_def nonneg_f64_def flt_fin)
  from percent_ratio [OF this] show ?thesis using Some x(3) by (simp add: ratio_def)
qed simp


lemma pendingStep_ok:
  assumes "pendingStep n (pending, has) = Inr (pending', has')" "number_ok n" "pending \<noteq> NaN \<and> \<not> flt pending fzero"
  shows "pending' \<noteq> NaN \<and> \<not> flt pending' fzero"
proof (cases "num_valid n")
  case True
  then have v: "\<not> flt (num_value n) fzero" "pending' = fadd pending (num_value n)"
    using assms(1) by (auto simp: pendingStep_def split: if_splits)
  obtain s r where r: "num_value n = Fin s r" "0 \<le> r" using assms(2) by (cases "num_value n") (auto simp: number_ok_def)
  then have nn: "0 \<le> fval (Fin s r)" using v(1) by (simp add: fzero_def)
  show ?thesis
  proof (cases pending)
    case (Fin t a)
    then have "0 \<le> fval (Fin t a)" using assms(3) by (simp add: fzero_def)
    then have "0 \<le> rnd \<bar>fval (Fin t a) + fval (Fin s r)\<bar>" by (intro rnd_nonneg) simp
    then show ?thesis
      using nn \<open>0 \<le> fval (Fin t a)\<close> unfolding v(2) Fin r(1) fadd.simps Let_def
      by (simp add: fzero_def pack_def del: fval.simps) simp
  next
    case (Inf t)
    then show ?thesis using assms(3) by (simp add: v(2) r(1) fzero_def)
  qed (use assms(3) in simp)
qed (use assms in \<open>simp add: pendingStep_def\<close>)

lemma pending_sum_ok:
  assumes "foldE pendingStep ns (fzero, False) = Inr (pending, has)" "list_all number_ok ns"
  shows "pending \<noteq> NaN \<and> \<not> flt pending fzero"
proof -
  have "\<And>p. foldE pendingStep ns p = Inr q \<Longrightarrow> fst p \<noteq> NaN \<and> \<not> flt (fst p) fzero
      \<Longrightarrow> fst q \<noteq> NaN \<and> \<not> flt (fst q) fzero" for q
    using assms(2)
  proof (induction ns)
    case (Cons n ns)
    then obtain p' where "pendingStep n p = Inr p'" "foldE pendingStep ns p' = Inr q"
      by (auto simp: andThen_Inr)
    then show ?case
      using Cons.IH [of p'] Cons.prems pendingStep_ok [of n "fst p" "snd p" "fst p'" "snd p'"] by simp
  qed simp
  from this [OF assms(1)] show ?thesis by (simp add: fzero_def)
qed

text \<open>
  C20: a replication link that parses, at a time between 1970 and 2 to the 53
  seconds later, has the caller's cluster, an id and a group; its status is 0 or 1; its pending
  bytes are never negative nor NaN; a lag is only reported with pending bytes, and is finite and
  not negative; a recovery's progress is in [0, 1] and comes with its kind.
\<close>

theorem replication_bounds:
  assumes "ParseReplication data c now = Inr r" "0 \<le> unix_seconds now" "unix_seconds now \<le> 2 ^ 53"
  shows "rp_cluster r = c \<and> rp_id r \<noteq> [] \<and> rp_group r \<noteq> [] \<and> rp_collected_at r = now
    \<and> rp_status r \<in> {None, Some fzero, Some (f64_nat 1)}
    \<and> (\<forall>p. rp_pending r = Some p \<longrightarrow> p \<noteq> NaN \<and> \<not> flt p fzero)
    \<and> (\<forall>l. rp_lag r = Some l \<longrightarrow> rp_pending r \<noteq> None \<and> f64_finite l \<and> 0 \<le> fval l)
    \<and> rp_recovery_kind r \<in> {None, Some ''bootstrap'', Some ''failover''}
    \<and> (\<forall>p. rp_recovery_progress r = Some p \<longrightarrow>
         rp_recovery_kind r \<noteq> None \<and> f64_finite p \<and> 0 \<le> fval p \<and> fval p \<le> 1)"
proof -
  obtain w status pending has lag kind state progress where w: "replication_response_ok w"
    and ids: "rr_id w \<noteq> []" "(if rr_group w = [] then rr_name w else rr_group w) \<noteq> []"
    and st: "linkStatus (rr_status w) = Inr status"
    and p: "foldE pendingStep [rr_repo w, rr_journal w, rr_xor w] (fzero, False) = Inr (pending, has)"
    and l: "replicationLag (rr_rpo w) pending has now = Inr lag"
    and rec: "recoveryFields w = Inr (kind, state, progress)"
    and r: "r = \<lparr>rp_cluster = c, rp_id = rr_id w, rp_group = (if rr_group w = [] then rr_name w else rr_group w),
       rp_source = stringPointer (rr_source w), rp_target = stringPointer (rr_target w),
       rp_status = status, rp_lag = lag, rp_pending = (if has then pointer pending else None),
       rp_recovery_kind = kind, rp_recovery_status = state, rp_recovery_progress = progress,
       rp_collected_at = now\<rparr>"
  proof -
    obtain w where d: "decodeJSON (\<lambda>j. dec_struct replication_fields j no_replication_response) data = Inr w"
      using assms(1) by (auto simp: ParseReplication_def andThen_Inr)
    have "replication_response_ok no_replication_response"
      by (simp add: replication_response_ok_def no_replication_response_def)
    then have "replication_response_ok w"
      using d replication_response_ok by (auto simp: decodeJSON_Inr)
    then show ?thesis
      using assms(1) that [of w]
      by (simp add: ParseReplication_def d Let_def andThen_Inr del: foldE.simps split: if_splits prod.splits)
  qed
  have ns: "list_all number_ok [rr_repo w, rr_journal w, rr_xor w]" and rpo: "number_ok (rr_rpo w)"
    and pct: "number_ok (rr_fail_pct w)" "number_ok (rr_boot_pct w)"
    using w by (simp_all add: replication_response_ok_def)
  have "status \<in> {None, Some fzero, Some (f64_nat 1)}"
    using st unfolding linkStatus_def Let_def by (simp add: pointer_def split: if_split_asm)
  moreover note pending_sum_ok [OF p ns]
  moreover have "\<forall>x. lag = Some x \<longrightarrow> f64_finite x \<and> 0 \<le> fval x \<and> has"
    using replicationLag_ok [of "rr_rpo w" pending has now] l rpo assms(2,3) by auto
  moreover have "kind \<in> {None, Some ''bootstrap'', Some ''failover''}"
      "\<forall>x. progress = Some x \<longrightarrow> kind \<noteq> None \<and> f64_finite x \<and> 0 \<le> fval x \<and> fval x \<le> 1"
    using rec ratioPercent_ok pct
    by (auto simp: recoveryFields_def andThen_Inr stringPointer_def split: if_splits)
  ultimately show ?thesis
    using ids by (simp add: r pointer_def)
qed


definition link_text :: string where
  "link_text = json_text ''{~id~: ~r1~, ~rgName~: ~g~, ~rglinkStatus~: ~Degraded~, ~BootstrapState~: ~Running~}''"

theorem replication_bounds_witness:
  "rp_status (case ParseReplication link_text ''c'' (time_unix 5) of Inr r \<Rightarrow> r) \<in> {None, Some fzero, Some (f64_nat 1)}"
proof -
  have p: "ParseReplication link_text ''c'' (time_unix 5) = Inr \<lparr>rp_cluster = ''c'', rp_id = ''r1'', rp_group = ''g'',
      rp_source = None, rp_target = None, rp_status = Some fzero, rp_lag = None, rp_pending = None,
      rp_recovery_kind = Some ''bootstrap'', rp_recovery_status = Some ''Running'',
      rp_recovery_progress = None, rp_collected_at = time_unix 5\<rparr>"
    by code_simp
  show ?thesis
    using replication_bounds [OF p] by (simp add: p)
qed

definition pending_a :: number where
  "pending_a = \<lparr>num_value = Fin False ((2 ^ 53 - 2) * 2 ^ 971), num_valid = True\<rparr>"

definition pending_b :: number where
  "pending_b = \<lparr>num_value = Fin False (3 * 2 ^ 970), num_valid = True\<rparr>"

lemma rnd_top:
  assumes "2 ^ 1023 \<le> x" "x < 2 ^ 1024"
  shows "rnd x = of_int (rne (x / 2 ^ 971)) * 2 ^ 971"
proof -
  have "2 powi (971 + 52) \<le> x" "x < 2 powi (971 + 53)"
    using assms by simp_all
  then have "ulp_exp x = 971" by (intro ulp_exp_eq) auto
  then show ?thesis using assms by (simp add: rnd_def)
qed

text \<open>
  C30: the loop that adds the pending sizes refuses a sum above the largest float64
  by comparing with a rounded difference, which lets two sizes pass whose sum rounds to infinity.
\<close>

theorem pending_overflow:
  "number_ok pending_a \<and> number_ok pending_b
   \<and> foldE pendingStep [pending_a, pending_b] (fzero, False) = Inr (Inf False, True)"
proof -
  have "rnd (of_int (2 ^ 53 - 2) * 2 powi 971) = of_int (2 ^ 53 - 2) * 2 powi 971"
    by (rule rnd_exact [of _ "2 ^ 53 - 2" 971]) simp_all
  then have wa: "number_ok pending_a" by (simp add: number_ok_def pending_a_def)
  have "rnd (of_int 3 * 2 powi 970) = of_int 3 * 2 powi 970"
    by (rule rnd_exact [of _ 3 970]) simp_all
  then have wb: "number_ok pending_b" by (simp add: number_ok_def pending_b_def)
  have d: "rnd ((2 ^ 53 - 1) * 2 ^ 971 - 3 * 2 ^ 970) = (2 ^ 53 - 2) * 2 ^ 971"
    using rne_half [of "2 ^ 53 - 3"] by (subst rnd_top) simp_all
  have s: "rnd ((2 ^ 53 - 2) * 2 ^ 971 + 3 * 2 ^ 970) = 2 ^ 1024"
    using rne_half [of "2 ^ 53 - 1"] by (subst rnd_top) simp_all
  have a: "fsub max_f64 (num_value pending_a) = Fin False (2 ^ 971)"
  proof -
    have "rnd (of_int 1 * 2 powi 971) = of_int 1 * 2 powi 971" by (rule rnd_exact [of _ 1 971]) simp_all
    then show ?thesis by (simp add: fsub_def max_f64_def pending_a_def pack_def)
  qed
  have a': "fadd fzero (num_value pending_a) = num_value pending_a"
    using wa by (simp add: number_ok_def pending_a_def fzero_def pack_def)
  have b: "fsub max_f64 (num_value pending_b) = num_value pending_a"
    using d by (simp add: fsub_def max_f64_def pending_a_def pending_b_def pack_def)
  have ab: "fadd (num_value pending_a) (num_value pending_b) = Inf False"
    using s by (simp add: pending_a_def pending_b_def fadd_pos pack_def)
  have "pendingStep pending_a (fzero, False) = Inr (num_value pending_a, True)"
    using a by (simp add: pendingStep_def a') (simp add: pending_a_def fzero_def)
  moreover have "pendingStep pending_b (num_value pending_a, True) = Inr (Inf False, True)"
    using b by (simp add: pendingStep_def ab) (simp add: pending_a_def pending_b_def fzero_def)
  ultimately show ?thesis using wa wb by simp
qed

end
