(* ===== verification/Flux.thy ===== *)
theory Flux
  imports Quantities
begin

text \<open>
  The Flux parsers of internal/ecs/parser.go: tables of string cells become node resources and
  performance samples. The column index of a series is the list of its columns, whose names are
  checked to be distinct; maps of results are association lists in insertion order.
\<close>

section \<open>Series\<close>

record series =
  se_columns :: "string list"
  se_values :: "string list list"

definition dec_strings :: "string list decoder" where
  "dec_strings = dec_slice dec_string []"

definition series_fields :: "series fields" where
  "series_fields =
     [(''Columns'', into dec_strings se_columns (\<lambda>v r. r\<lparr>se_columns := v\<rparr>)),
      (''Values'', into (dec_slice dec_strings []) se_values (\<lambda>v r. r\<lparr>se_values := v\<rparr>))]"

definition dec_series :: "json \<Rightarrow> series list result" where
  "dec_series j =
     dec_struct [(''Series'', into (dec_slice (dec_struct series_fields) \<lparr>se_columns = [], se_values = []\<rparr>)
       (\<lambda>r. r) (\<lambda>v r. v))] j []"

text \<open>A cell by column name; the position is that of the name's only occurrence.\<close>

definition column :: "string list \<Rightarrow> string \<Rightarrow> nat option" where
  "column cols name = map_of (zip cols [0..<length cols]) name"

definition cell :: "string list \<Rightarrow> string list \<Rightarrow> string \<Rightarrow> string" where
  "cell cols row name = (case column cols name of Some k \<Rightarrow> row ! k | None \<Rightarrow> row ! 0)"

fun checkColumns :: "string \<Rightarrow> string list \<Rightarrow> string list \<Rightarrow> unit result" where
  "checkColumns prefix seen [] = Inr ()"
| "checkColumns prefix seen (name # names) =
     (if name \<in> set seen then Inl (Errorf (prefix @ '' series contains duplicate column %s'') [name])
      else checkColumns prefix (name # seen) names)"

definition requireColumns :: "string \<Rightarrow> string list \<Rightarrow> string list \<Rightarrow> unit result" where
  "requireColumns prefix required cols = checks (map (\<lambda>name.
     require (name \<in> set cols) (Errorf (prefix @ '' series is missing required column %s'') [name])) required)"

definition validateFluxRange :: "string list \<Rightarrow> string list \<Rightarrow> unit result" where
  "validateFluxRange cols row =
     (case (column cols ''_start'', column cols ''_stop'') of
        (None, None) \<Rightarrow> Inr ()
      | (Some startIndex, Some stopIndex) \<Rightarrow>
          (case ParseTime (row ! startIndex) of
             None \<Rightarrow> Inl (Msg ''Flux _start timestamp is invalid'')
           | Some start \<Rightarrow>
               (case ParseTime (row ! stopIndex) of
                  None \<Rightarrow> Inl (Msg ''Flux _stop timestamp is invalid'')
                | Some stop \<Rightarrow>
                    if \<not> start < stop then Inl (Msg ''Flux _stop timestamp is invalid'')
                    else
                      let sample = (case ParseTime (cell cols row ''_time'') of Some t \<Rightarrow> t | None \<Rightarrow> 0)
                      in if sample < start \<or> \<not> sample < stop
                         then Inl (Msg ''Flux timestamp is outside the half-open range'') else Inr ()))
      | _ \<Rightarrow> Inl (Msg ''Flux range boundary columns are incomplete''))"

fun fluxDimension :: "string list \<Rightarrow> string list \<Rightarrow> string list \<Rightarrow> string option" where
  "fluxDimension cols row [] = None"
| "fluxDimension cols row (name # names) =
     (case column cols name of
        Some k \<Rightarrow> if row ! k \<noteq> [] then Some (row ! k) else fluxDimension cols row names
      | None \<Rightarrow> fluxDimension cols row names)"

definition dimension :: "string option \<Rightarrow> string" where
  "dimension v = (case v of None \<Rightarrow> [] | Some s \<Rightarrow> s)"

definition likelyBondMember :: "string \<Rightarrow> bool" where
  "likelyBondMember value =
     (let lower = to_lower value
      in list_ex (\<lambda>prefix. has_prefix lower prefix \<and> contains_any (trim_prefix lower prefix) ''0123456789'')
        [''em'', ''eno'', ''enp'', ''ens'', ''eth''])"

section \<open>Node resources\<close>

record node_resource =
  re_cpu :: "f64 option"
  re_mem_used :: "f64 option"
  re_mem_total :: "f64 option"
  re_disk_used :: "f64 option"
  re_disk_total :: "f64 option"
  re_network :: "network list"

record resource_policy =
  po_filesystems :: "string list"
  po_interfaces :: "string list"
  po_max_interfaces :: int
  po_prefer_bond :: bool

record disk_resource =
  dr_used :: "f64 option"
  dr_total :: "f64 option"

definition no_resource :: node_resource where
  "no_resource = \<lparr>re_cpu = None, re_mem_used = None, re_mem_total = None, re_disk_used = None,
     re_disk_total = None, re_network = []\<rparr>"

definition no_disk :: disk_resource where
  "no_disk = \<lparr>dr_used = None, dr_total = None\<rparr>"

type_synonym resources = "(string \<times> node_resource) list"
type_synonym disks = "(string \<times> (string \<times> disk_resource) list) list"

definition lookup_or :: "'v \<Rightarrow> ('k \<times> 'v) list \<Rightarrow> 'k \<Rightarrow> 'v" where
  "lookup_or d m k = (case map_of m k of Some v \<Rightarrow> v | None \<Rightarrow> d)"

definition cpuSample :: "string list \<Rightarrow> string list \<Rightarrow> f64 \<Rightarrow> node_resource \<Rightarrow> node_resource result" where
  "cpuSample cols row number resource =
     (if (case column cols ''cpu'' of None \<Rightarrow> True | Some k \<Rightarrow> row ! k \<noteq> ''cpu-total'')
      then Inl (Msg ''Flux CPU series must identify cpu-total'')
      else if flt (f64_nat 100) number then Inl (Msg ''Flux CPU percent is outside 0..100'')
      else if re_cpu resource \<noteq> None then Inl (Msg ''Flux CPU series is duplicated'')
      else Inr (resource\<lparr>re_cpu := Some (fdiv (fsub (f64_nat 100) number) (f64_nat 100))\<rparr>))"

definition diskSample :: "resource_policy \<Rightarrow> string \<Rightarrow> string list \<Rightarrow> string list \<Rightarrow> string \<Rightarrow> f64
    \<Rightarrow> disks \<Rightarrow> disks result" where
  "diskSample policy nodeID cols row field number disks =
     (case fluxDimension cols row [''path'', ''filesystem'', ''device''] of
        None \<Rightarrow> Inl (Msg ''Flux disk series must identify a filesystem'')
      | Some raw \<Rightarrow>
          let filesystem = normalizeDimension raw 128;
              nodeDisks = lookup_or [] disks nodeID;
              disk = lookup_or no_disk nodeDisks filesystem;
              put = (\<lambda>d. Inr (AList.update nodeID (AList.update filesystem d nodeDisks) disks))
          in if filesystem = [] then Inl (Msg ''Flux disk filesystem is invalid'')
             else if filesystem \<notin> set (po_filesystems policy) then Inr disks
             else if field = ''used'' then
               (if dr_used disk \<noteq> None then Inl (Msg ''Flux disk used series is duplicated'')
                else put (disk\<lparr>dr_used := pointer number\<rparr>))
             else
               (if dr_total disk \<noteq> None then Inl (Msg ''Flux disk total series is duplicated'')
                else put (disk\<lparr>dr_total := pointer number\<rparr>)))"

fun index_func :: "('a \<Rightarrow> bool) \<Rightarrow> 'a list \<Rightarrow> nat option" where
  "index_func P [] = None"
| "index_func P (x # xs) = (if P x then Some 0 else map_option Suc (index_func P xs))"

definition addInterface :: "resource_policy \<Rightarrow> string \<Rightarrow> network list \<Rightarrow> (network list \<times> nat) result" where
  "addInterface policy name networks =
     (case index_func (\<lambda>n. nw_interface n = name) networks of
        Some position \<Rightarrow> Inr (networks, position)
      | None \<Rightarrow>
          if int (length networks) \<ge> po_max_interfaces policy
          then Inl (Msg ''Flux network interface limit exceeded'')
          else Inr (networks @ [\<lparr>nw_interface = name, nw_receive = None, nw_transmit = None\<rparr>], length networks))"

definition networkSample :: "resource_policy \<Rightarrow> string list \<Rightarrow> string list \<Rightarrow> string \<Rightarrow> f64
    \<Rightarrow> node_resource \<Rightarrow> node_resource result" where
  "networkSample policy cols row field number resource =
     (let raw = (case column cols ''interface'' of None \<Rightarrow> [] | Some k \<Rightarrow> row ! k);
          name = normalizeDimension raw 64
      in if raw = [] then Inl (Msg ''Flux network interface is required'')
         else if name = [] then Inl (Msg ''Flux network interface is invalid'')
         else if po_interfaces policy \<noteq> [] \<and> name \<notin> set (po_interfaces policy) then Inr resource
         else andThen (addInterface policy name (re_network resource)) (\<lambda>(networks, position).
           let n = networks ! position
           in if field = ''bytes_recv'' then
                (if nw_receive n \<noteq> None then Inl (Msg ''Flux network receive series is duplicated'')
                 else Inr (resource\<lparr>re_network := networks[position := n\<lparr>nw_receive := pointer number\<rparr>]\<rparr>))
              else
                (if nw_transmit n \<noteq> None then Inl (Msg ''Flux network transmit series is duplicated'')
                 else Inr (resource\<lparr>re_network := networks[position := n\<lparr>nw_transmit := pointer number\<rparr>]\<rparr>))))"

text \<open>The switch over measurement and field; a field of no interest leaves the resource as it is.\<close>

definition resourceSample :: "resource_policy \<Rightarrow> string \<Rightarrow> string list \<Rightarrow> string list \<Rightarrow> f64
    \<Rightarrow> node_resource \<times> disks \<Rightarrow> (node_resource \<times> disks) result" where
  "resourceSample policy nodeID cols row number acc =
     (case acc of (resource, disks) \<Rightarrow>
        let measurement = cell cols row ''_measurement''; field = cell cols row ''_field'';
            keep = (\<lambda>m. andThen m (\<lambda>r. Inr (r, disks)))
        in if measurement = ''cpu'' \<and> field = ''usage_idle'' then keep (cpuSample cols row number resource)
           else if measurement = ''mem'' \<and> field = ''used'' then
             (if re_mem_used resource \<noteq> None then Inl (Msg ''Flux memory used series is duplicated'')
              else Inr (resource\<lparr>re_mem_used := pointer number\<rparr>, disks))
           else if measurement = ''mem'' \<and> field = ''total'' then
             (if re_mem_total resource \<noteq> None then Inl (Msg ''Flux memory total series is duplicated'')
              else Inr (resource\<lparr>re_mem_total := pointer number\<rparr>, disks))
           else if measurement = ''disk'' \<and> (field = ''used'' \<or> field = ''total'') then
             andThen (diskSample policy nodeID cols row field number disks) (\<lambda>ds. Inr (resource, ds))
           else if measurement = ''net'' \<and> (field = ''bytes_recv'' \<or> field = ''bytes_sent'') then
             keep (networkSample policy cols row field number resource)
           else Inr (resource, disks))"

definition resourceRow :: "resource_policy \<Rightarrow> string list \<Rightarrow> string list \<Rightarrow> resources \<times> disks
    \<Rightarrow> (resources \<times> disks) result" where
  "resourceRow policy cols row acc =
     (case acc of (result, disks) \<Rightarrow>
        if length row \<noteq> length cols then Inl (Msg ''Flux row length does not match columns'')
        else if ParseTime (cell cols row ''_time'') = None then Inl (Msg ''Flux timestamp is invalid'')
        else andThen (validateFluxRange cols row) (\<lambda>_.
          case parseFinite (cell cols row ''_value'') of
            Inl e \<Rightarrow> Inl (Msg ''Flux value is invalid'')
          | Inr number \<Rightarrow>
              let nodeID = cell cols row ''node_id''
              in if flt number fzero then Inl (Msg ''Flux value is invalid'')
                 else if nodeID = [] then Inl (Msg ''Flux node_id is empty'')
                 else andThen (resourceSample policy nodeID cols row number
                     (lookup_or no_resource result nodeID, disks)) (\<lambda>(resource, ds).
                   Inr (AList.update nodeID resource result, ds))))"

definition resourceSeries :: "resource_policy \<Rightarrow> series \<Rightarrow> resources \<times> disks \<Rightarrow> (resources \<times> disks) result" where
  "resourceSeries policy s acc =
     (if se_columns s = [] \<and> se_values s = [] then Inr acc
      else
        andThen (checkColumns ''Flux'' [] (se_columns s)) (\<lambda>_.
        andThen (requireColumns ''Flux'' [''_measurement'', ''_field'', ''_value'', ''_time'', ''node_id'']
          (se_columns s)) (\<lambda>_.
        foldE (resourceRow policy (se_columns s)) (se_values s) acc)))"

definition addDisk :: "disk_resource \<Rightarrow> node_resource \<Rightarrow> node_resource result" where
  "addDisk disk resource =
     (case (dr_used disk, dr_total disk) of
        (Some diskUsed, Some diskTotal) \<Rightarrow>
          if flt diskTotal diskUsed then Inl (Msg ''Flux disk used exceeds total'')
          else
            let used = fadd (optionalFloat (re_disk_used resource)) diskUsed;
                sumTotal = fadd (optionalFloat (re_disk_total resource)) diskTotal
            in if \<not> finite_f64 used \<or> \<not> finite_f64 sumTotal then Inl (Msg ''Flux disk aggregate is too large'')
               else Inr (resource\<lparr>re_disk_used := pointer used, re_disk_total := pointer sumTotal\<rparr>)
      | _ \<Rightarrow> Inl (Msg ''Flux disk series is incomplete''))"

definition interfaceCompare :: "network \<Rightarrow> network \<Rightarrow> int" where
  "interfaceCompare left right = str_compare (nw_interface left) (nw_interface right)"

definition finishNetworks :: "resource_policy \<Rightarrow> network list \<Rightarrow> network list" where
  "finishNetworks policy networks =
     sort_func interfaceCompare
       (if po_prefer_bond policy
          \<and> list_ex (\<lambda>n. has_prefix (to_lower (nw_interface n)) ''bond'') networks
        then filter (\<lambda>n. \<not> likelyBondMember (nw_interface n)) networks else networks)"

text \<open>
  Go ranges over the map of nodes and over the map of a node's disks in an order of its own: the
  arguments \<open>nodeOrder\<close> and \<open>diskOrder\<close> reorder the entries. The disk sums are rounded
  in that order.
\<close>

type_synonym disk_order = "(string \<times> disk_resource) list \<Rightarrow> (string \<times> disk_resource) list"

definition finishResource :: "disk_order \<Rightarrow> resource_policy \<Rightarrow> disks \<Rightarrow> string \<times> node_resource
    \<Rightarrow> (string \<times> node_resource) result" where
  "finishResource diskOrder policy disks entry =
     (case entry of (nodeID, resource) \<Rightarrow>
        if (case (re_mem_used resource, re_mem_total resource) of
              (Some u, Some t) \<Rightarrow> flt t u | _ \<Rightarrow> False)
        then Inl (Msg ''Flux memory used exceeds total'')
        else andThen (foldE addDisk (map snd (diskOrder (lookup_or [] disks nodeID))) resource) (\<lambda>r.
          Inr (nodeID, r\<lparr>re_network := finishNetworks policy (re_network r)\<rparr>)))"

definition ParseFluxNodeResourcesWithPolicy :: "(resources \<Rightarrow> resources) \<Rightarrow> disk_order \<Rightarrow> string
    \<Rightarrow> resource_policy \<Rightarrow> resources result" where
  "ParseFluxNodeResourcesWithPolicy nodeOrder diskOrder data policy =
     andThen (decodeJSON dec_series data) (\<lambda>response.
       if po_max_interfaces policy < 1 \<or> po_max_interfaces policy > 128
       then Inl (Msg ''node resource max network interfaces is invalid'')
       else andThen (foldE (resourceSeries policy) response ([], [])) (\<lambda>(result, disks).
         mapE (finishResource diskOrder policy disks) (nodeOrder result)))"

definition ParseFluxNodeResources :: "(resources \<Rightarrow> resources) \<Rightarrow> disk_order \<Rightarrow> string
    \<Rightarrow> resources result" where
  "ParseFluxNodeResources nodeOrder diskOrder data = ParseFluxNodeResourcesWithPolicy nodeOrder diskOrder data
     \<lparr>po_filesystems = [], po_interfaces = [], po_max_interfaces = 16, po_prefer_bond = True\<rparr>"

definition ApplyNodeResourcesForCapabilities :: "node list \<Rightarrow> resources \<Rightarrow> bool \<Rightarrow> bool \<Rightarrow> bool \<Rightarrow> node list" where
  "ApplyNodeResourcesForCapabilities nodes resources cpuMemory disk net =
     map (\<lambda>n. case map_of resources (nd_id n) of
         None \<Rightarrow> n
       | Some r \<Rightarrow>
           let n1 = (if cpuMemory then n\<lparr>nd_cpu := re_cpu r, nd_mem_used := re_mem_used r,
                 nd_mem_total := re_mem_total r\<rparr> else n);
               n2 = (if disk then n1\<lparr>nd_disk_used := re_disk_used r, nd_disk_total := re_disk_total r\<rparr> else n1)
           in if net then n2\<lparr>nd_network := re_network r\<rparr> else n2) nodes"

definition ApplyNodeResources :: "node list \<Rightarrow> resources \<Rightarrow> node list" where
  "ApplyNodeResources nodes resources = ApplyNodeResourcesForCapabilities nodes resources True True True"

end
