(* ===== verification/Flux_Facts.thy ===== *)
theory Flux_Facts
  imports Flux Examples
begin

text \<open>
  What the Flux parsers guarantee of the resources of nodes: ratios in [0, 1], use never above the
  total, interfaces that are allowed, distinct, sorted and within the limit.
\<close>

lemma lookup_or_update [simp]:
  "lookup_or d (AList.update k v m) k' = (if k' = k then v else lookup_or d m k')"
  by (simp add: lookup_or_def update_conv)

lemma lookup_or_mem: "lookup_or d m k = d \<or> (k, lookup_or d m k) \<in> set m"
  by (auto simp: lookup_or_def split: option.splits dest: map_of_SomeD)

definition le_opt :: "f64 option \<Rightarrow> f64 option \<Rightarrow> bool" where
  "le_opt a b \<longleftrightarrow> (\<forall>x y. a = Some x \<and> b = Some y \<longrightarrow> fval x \<le> fval y)"

lemma idle_ratio:
  assumes "nonneg_f64 x" "fval x \<le> 100"
  shows "ratio (fdiv (fsub (f64_nat 100) x) (f64_nat 100))"
proof (rule percent_ratio)
  have h: "wf_f64 (f64_nat 100)" by (rule wf_f64_nat) simp
  have x: "f64_finite x" "0 \<le> fval x" "fval x \<le> fval (f64_nat 100)"
    using assms by (auto simp: nonneg_f64_def)
  have h': "f64_finite (f64_nat 100)" by simp
  note U = fsub_nonneg [OF h h' x]
  have "rnd (100 - fval x) \<le> rnd 100" using x assms(2) by (intro rnd_mono) auto
  moreover have "rnd 100 = 100" using rnd_of_nat [of 100] by simp
  moreover have "0 \<le> rnd (100 - fval x)" using assms(2) by (intro rnd_nonneg) auto
  ultimately show "nonneg_f64 (fsub (f64_nat 100) x)" "fval (fsub (f64_nat 100) x) \<le> 100"
    using U by (auto simp: nonneg_f64_def)
qed

section \<open>The invariant of the rows\<close>

definition opt_ok :: "f64 option \<Rightarrow> bool" where
  "opt_ok v \<longleftrightarrow> (\<forall>x. v = Some x \<longrightarrow> nonneg_f64 x)"

lemma opt_ok_simps [simp]: "opt_ok None" "opt_ok (Some x) = nonneg_f64 x" "opt_ok (pointer x) = nonneg_f64 x"
  by (simp_all add: opt_ok_def pointer_def)

definition networks_ok :: "resource_policy \<Rightarrow> network list \<Rightarrow> bool" where
  "networks_ok policy ns \<longleftrightarrow>
     distinct (map nw_interface ns) \<and> int (length ns) \<le> po_max_interfaces policy
     \<and> (\<forall>n \<in> set ns. nw_interface n \<noteq> [] \<and> (po_interfaces policy \<noteq> [] \<longrightarrow> nw_interface n \<in> set (po_interfaces policy))
          \<and> opt_ok (nw_receive n) \<and> opt_ok (nw_transmit n))"

definition resource_ok :: "resource_policy \<Rightarrow> node_resource \<Rightarrow> bool" where
  "resource_ok policy r \<longleftrightarrow>
     (\<forall>x. re_cpu r = Some x \<longrightarrow> ratio x) \<and> opt_ok (re_mem_used r) \<and> opt_ok (re_mem_total r)
     \<and> re_disk_used r = None \<and> re_disk_total r = None \<and> networks_ok policy (re_network r)"

definition disk_ok :: "disk_resource \<Rightarrow> bool" where
  "disk_ok d \<longleftrightarrow> opt_ok (dr_used d) \<and> opt_ok (dr_total d)"

definition disks_ok :: "disks \<Rightarrow> bool" where
  "disks_ok disks \<longleftrightarrow> (\<forall>nid. \<forall>(f, d) \<in> set (lookup_or [] disks nid). disk_ok d)"

definition rows_ok :: "resource_policy \<Rightarrow> resources \<times> disks \<Rightarrow> bool" where
  "rows_ok policy acc \<longleftrightarrow>
     (case acc of (result, disks) \<Rightarrow>
        distinct (map fst result) \<and> [] \<notin> set (map fst result)
        \<and> (\<forall>nid. resource_ok policy (lookup_or no_resource result nid)) \<and> disks_ok disks)"

lemma set_update_subset: "set (AList.update k v al) \<subseteq> insert (k, v) (set al)"
  by (induction al) auto

lemma cpuSample_ok:
  assumes "cpuSample cols row x r = Inr r'" "nonneg_f64 x" "resource_ok policy r"
  shows "resource_ok policy r'"
proof -
  have "ratio (fdiv (fsub (f64_nat 100) x) (f64_nat 100))" if "\<not> flt (f64_nat 100) x"
    using that assms(2) by (intro idle_ratio) (auto simp: flt_fin nonneg_f64_def)
  then show ?thesis
    using assms by (auto simp: cpuSample_def resource_ok_def split: if_splits)
qed

lemma index_func_Some: "index_func P xs = Some k \<Longrightarrow> k < length xs \<and> P (xs ! k)"
  by (induction xs arbitrary: k) (auto split: if_splits)

lemma index_func_None: "index_func P xs = None \<longleftrightarrow> (\<forall>x \<in> set xs. \<not> P x)"
  by (induction xs) auto

lemma addInterface_ok:
  assumes "addInterface policy name ns = Inr (ms, k)" "networks_ok policy ns" "name \<noteq> []"
    "po_interfaces policy \<noteq> [] \<longrightarrow> name \<in> set (po_interfaces policy)"
  shows "networks_ok policy ms \<and> k < length ms"
  using assms
  by (auto simp: addInterface_def networks_ok_def index_func_None split: option.splits if_splits
      dest: index_func_Some)

lemma networks_ok_update:
  assumes "networks_ok policy ms" "k < length ms" "nw_interface n = nw_interface (ms ! k)"
    "opt_ok (nw_receive n)" "opt_ok (nw_transmit n)"
  shows "networks_ok policy (ms[k := n])"
proof -
  have "map nw_interface (ms[k := n]) = map nw_interface ms"
    by (metis assms(2,3) list_update_id map_update nth_map)
  moreover have "m = n \<or> m \<in> set ms" if "m \<in> set (ms[k := n])" for m
    using that set_update_subset_insert by fastforce
  moreover have "nw_interface n \<noteq> [] \<and> (po_interfaces policy \<noteq> [] \<longrightarrow> nw_interface n \<in> set (po_interfaces policy))"
    using assms(1) nth_mem [OF assms(2)] unfolding assms(3) networks_ok_def by blast
  ultimately show ?thesis
    using assms(1,4,5) unfolding networks_ok_def length_list_update by metis
qed

lemma networkSample_ok:
  assumes "networkSample policy cols row field x r = Inr r'" "nonneg_f64 x" "resource_ok policy r"
  shows "resource_ok policy r'"
proof -
  let ?name = "\<lambda>raw. normalizeDimension raw 64"
  have "networks_ok policy (ms[k := n])"
    if "addInterface policy (?name raw) (re_network r) = Inr (ms, k)" "?name raw \<noteq> []"
      "po_interfaces policy = [] \<or> ?name raw \<in> set (po_interfaces policy)"
      "n = (ms ! k)\<lparr>nw_receive := pointer x\<rparr> \<or> n = (ms ! k)\<lparr>nw_transmit := pointer x\<rparr>"
    for raw ms k n
  proof -
    have ok: "networks_ok policy ms" "k < length ms"
      using addInterface_ok [OF that(1)] assms(3) that(2,3) by (auto simp: resource_ok_def)
    then have "opt_ok (nw_receive (ms ! k))" "opt_ok (nw_transmit (ms ! k))"
      using nth_mem by (fastforce simp: networks_ok_def)+
    then show ?thesis
      using ok that(4) assms(2) by (intro networks_ok_update) auto
  qed
  then show ?thesis
    using assms(1,3)
    by (auto simp: networkSample_def Let_def andThen_Inr resource_ok_def split: if_splits)
qed

lemma disks_okD: "disks_ok disks \<Longrightarrow> (f, d) \<in> set (lookup_or [] disks nid) \<Longrightarrow> disk_ok d"
  by (auto simp: disks_ok_def)

lemma disks_ok_lookup:
  assumes "disks_ok disks" shows "disk_ok (lookup_or no_disk (lookup_or [] disks nid) f)"
  using lookup_or_mem [of no_disk "lookup_or [] disks nid" f] disks_okD [OF assms]
  by (auto simp: disk_ok_def no_disk_def)

lemma disks_ok_put:
  assumes "disks_ok disks" "disk_ok d"
  shows "disks_ok (AList.update nid (AList.update f d (lookup_or [] disks nid)) disks)"
  using assms set_update_subset [of f d "lookup_or [] disks nid"]
  by (fastforce simp: disks_ok_def)

lemma diskSample_ok:
  assumes "diskSample policy nid cols row field x disks = Inr disks'" "nonneg_f64 x" "disks_ok disks"
  shows "disks_ok disks'"
proof -
  have "disks_ok (AList.update nid (AList.update f d (lookup_or [] disks nid)) disks)"
    if "d = (lookup_or no_disk (lookup_or [] disks nid) f)\<lparr>dr_used := pointer x\<rparr>
      \<or> d = (lookup_or no_disk (lookup_or [] disks nid) f)\<lparr>dr_total := pointer x\<rparr>" for f d
    using disks_ok_lookup [OF assms(3)] assms(2) that
    by (intro disks_ok_put [OF assms(3)]) (auto simp: disk_ok_def)
  then show ?thesis
    using assms(1,3) by (auto simp: diskSample_def Let_def split: option.splits if_splits)
qed

lemma resourceSample_ok:
  assumes "resourceSample policy nid cols row x (r, disks) = Inr (r', disks')" "nonneg_f64 x"
    "resource_ok policy r" "disks_ok disks"
  shows "resource_ok policy r' \<and> disks_ok disks'"
  using assms cpuSample_ok [of cols row x r _ policy] networkSample_ok [of policy cols row _ x r]
    diskSample_ok [of policy nid cols row _ x disks]
  by (auto simp: resourceSample_def Let_def andThen_Inr resource_ok_def split: if_splits)

lemma resourceRow_ok:
  assumes "resourceRow policy cols row acc = Inr acc'" "rows_ok policy acc"
  shows "rows_ok policy acc'"
proof -
  obtain result disks where acc: "acc = (result, disks)" by fastforce
  obtain x r d where x: "parseFinite (cell cols row ''_value'') = Inr x" "\<not> flt x fzero"
    and nid: "cell cols row ''node_id'' \<noteq> []"
    and s: "resourceSample policy (cell cols row ''node_id'') cols row x
        (lookup_or no_resource result (cell cols row ''node_id''), disks) = Inr (r, d)"
    and acc': "acc' = (AList.update (cell cols row ''node_id'') r result, d)"
    using assms(1) by (auto simp: resourceRow_def acc andThen_Inr Let_def split: if_splits sum.splits)
  have "nonneg_f64 x" using parseFinite_ok [OF x(1)] x(2) by (auto simp: nonneg_f64_def flt_fin)
  then have "resource_ok policy r \<and> disks_ok d"
    using resourceSample_ok [OF s] assms(2) by (auto simp: rows_ok_def acc)
  then show ?thesis
    using assms(2) nid dom_update [of "cell cols row ''node_id''" r result]
    by (auto simp: rows_ok_def acc acc' distinct_update)
qed

lemma resourceSeries_ok:
  assumes "resourceSeries policy s acc = Inr acc'" "rows_ok policy acc"
  shows "rows_ok policy acc'"
proof (cases "se_columns s = [] \<and> se_values s = []")
  case False
  then have "foldE (resourceRow policy (se_columns s)) (se_values s) acc = Inr acc'"
    using assms(1) by (auto simp: resourceSeries_def andThen_Inr)
  then show ?thesis
    by (induction rule: foldE_rule) (use assms(2) resourceRow_ok in blast)+
qed (use assms in \<open>auto simp: resourceSeries_def\<close>)

lemma all_series_ok:
  assumes "foldE (resourceSeries policy) ss ([], []) = Inr acc" "0 < po_max_interfaces policy"
  shows "rows_ok policy acc"
  using assms(1)
proof (induction rule: foldE_rule)
  case start
  then show ?case
    using assms(2)
    by (simp add: rows_ok_def lookup_or_def no_resource_def resource_ok_def networks_ok_def disks_ok_def)
qed (use resourceSeries_ok in blast)

section \<open>The aggregation\<close>

definition aggregate_ok :: "node_resource \<Rightarrow> node_resource \<Rightarrow> bool" where
  "aggregate_ok r0 r \<longleftrightarrow> opt_ok (re_disk_used r) \<and> opt_ok (re_disk_total r)
     \<and> (re_disk_used r = None \<longleftrightarrow> re_disk_total r = None) \<and> le_opt (re_disk_used r) (re_disk_total r)
     \<and> re_cpu r = re_cpu r0 \<and> re_mem_used r = re_mem_used r0 \<and> re_mem_total r = re_mem_total r0
     \<and> re_network r = re_network r0"

lemma fadd_nonneg:
  assumes "nonneg_f64 x" "nonneg_f64 y" "finite_f64 (fadd x y)"
  shows "nonneg_f64 (fadd x y) \<and> fval (fadd x y) = rnd (fval x + fval y)"
  using assms fadd_fin [of x y] rnd_nonneg [of "fval x + fval y"]
  by (auto simp: nonneg_f64_def finite_f64_iff)

lemma addDisk_ok:
  assumes "addDisk d r = Inr r'" "disk_ok d" "aggregate_ok r0 r"
  shows "aggregate_ok r0 r'"
proof -
  obtain u t where d: "dr_used d = Some u" "dr_total d = Some t" and le: "\<not> flt t u"
    and fin: "finite_f64 (fadd (optionalFloat (re_disk_used r)) u)"
      "finite_f64 (fadd (optionalFloat (re_disk_total r)) t)"
    and r': "r' = r\<lparr>re_disk_used := pointer (fadd (optionalFloat (re_disk_used r)) u),
      re_disk_total := pointer (fadd (optionalFloat (re_disk_total r)) t)\<rparr>"
    using assms(1) by (auto simp: addDisk_def Let_def split: option.splits if_splits)
  let ?a = "optionalFloat (re_disk_used r)" and ?b = "optionalFloat (re_disk_total r)"
  have ut: "nonneg_f64 u" "nonneg_f64 t" using assms(2) d by (auto simp: disk_ok_def)
  have ab: "nonneg_f64 ?a" "nonneg_f64 ?b" "fval ?a \<le> fval ?b"
    using assms(3)
    by (auto simp: aggregate_ok_def optionalFloat_def le_opt_def nonneg_f64_def fzero_def split: option.splits)
  note A = fadd_nonneg [OF ab(1) ut(1) fin(1)] and B = fadd_nonneg [OF ab(2) ut(2) fin(2)]
  have "fval u \<le> fval t" using le ut by (auto simp: nonneg_f64_def flt_fin)
  then have "rnd (fval ?a + fval u) \<le> rnd (fval ?b + fval t)"
    using ab ut by (intro rnd_mono) (auto simp: nonneg_f64_def)
  then show ?thesis
    using A B assms(3) by (simp add: aggregate_ok_def le_opt_def r' pointer_def)
qed

lemma interfaceCompare_le: "interfaceCompare a b \<le> 0 \<longleftrightarrow> nw_interface a \<le> nw_interface b"
  by (simp add: interfaceCompare_def)

lemma finishNetworks_ok:
  assumes "networks_ok policy ns"
  shows "networks_ok policy (finishNetworks policy ns) \<and> sorted (map nw_interface (finishNetworks policy ns))"
proof -
  let ?fs = "filter (\<lambda>n. \<not> likelyBondMember (nw_interface n)) ns"
  have "int (length ?fs) \<le> int (length ns)" by simp
  then have fewer: "int (length ?fs) \<le> po_max_interfaces policy"
    using assms unfolding networks_ok_def by linarith
  have "networks_ok policy ?fs"
    using assms fewer by (auto simp: networks_ok_def distinct_map_filter)
  moreover have "networks_ok policy (sort_func interfaceCompare ms)" if "networks_ok policy ms" for ms
  proof -
    have "distinct (map nw_interface (sort_func interfaceCompare ms)) = distinct (map nw_interface ms)"
      by (metis mset_map mset_sort_func mset_eq_imp_distinct_iff)
    then show ?thesis using that by (simp add: networks_ok_def)
  qed
  ultimately show ?thesis
    using assms sorted_sort_func [of interfaceCompare nw_interface, OF interfaceCompare_le]
    by (simp add: finishNetworks_def)
qed

definition finished_ok :: "resource_policy \<Rightarrow> node_resource \<Rightarrow> bool" where
  "finished_ok policy r \<longleftrightarrow>
     (\<forall>x. re_cpu r = Some x \<longrightarrow> ratio x)
     \<and> opt_ok (re_mem_used r) \<and> opt_ok (re_mem_total r) \<and> le_opt (re_mem_used r) (re_mem_total r)
     \<and> opt_ok (re_disk_used r) \<and> opt_ok (re_disk_total r) \<and> le_opt (re_disk_used r) (re_disk_total r)
     \<and> networks_ok policy (re_network r) \<and> sorted (map nw_interface (re_network r))"

lemma finishResource_ok:
  assumes "finishResource ord policy disks (nid, r) = Inr (nid', r')" "iterates ord"
    "resource_ok policy r" "disks_ok disks"
  shows "nid' = nid \<and> finished_ok policy r'"
proof -
  let ?ds = "map snd (ord (lookup_or [] disks nid))"
  obtain v where v: "foldE addDisk ?ds r = Inr v" and nid: "nid' = nid"
    and r': "r' = v\<lparr>re_network := finishNetworks policy (re_network v)\<rparr>"
    using assms(1) by (auto simp: finishResource_def andThen_Inr split: if_splits)
  have mem: "le_opt (re_mem_used r) (re_mem_total r)"
    using assms(1,3) by (auto simp: finishResource_def le_opt_def resource_ok_def nonneg_f64_def flt_fin
        split: if_splits option.splits)
  have "aggregate_ok r v"
    using v
  proof (induction rule: foldE_rule)
    case start
    then show ?case using assms(3) by (simp add: aggregate_ok_def resource_ok_def le_opt_def)
  next
    case (step ys y u v)
    then have "disk_ok y" using disks_okD [OF assms(4)] iterates_set [OF assms(2)] by auto
    then show ?case using step addDisk_ok by blast
  qed
  then have v: "opt_ok (re_disk_used v)" "opt_ok (re_disk_total v)" "le_opt (re_disk_used v) (re_disk_total v)"
      "re_cpu v = re_cpu r" "re_mem_used v = re_mem_used r" "re_mem_total v = re_mem_total r"
      "re_network v = re_network r"
    by (simp_all add: aggregate_ok_def)
  then show ?thesis
    using v assms(3) mem finishNetworks_ok
    by (simp add: nid r' finished_ok_def resource_ok_def)
qed

lemma resources_sound:
  assumes "ParseFluxNodeResourcesWithPolicy nodeOrder diskOrder data policy = Inr rs"
    "iterates nodeOrder" "iterates diskOrder"
  shows "distinct (map fst rs) \<and> (\<forall>(nid, r) \<in> set rs. nid \<noteq> [] \<and> finished_ok policy r)"
proof -
  obtain ss result disks where f: "foldE (resourceSeries policy) ss ([], []) = Inr (result, disks)"
    and m: "0 < po_max_interfaces policy"
    and l: "list_all2 (\<lambda>e e'. finishResource diskOrder policy disks e = Inr e') (nodeOrder result) rs"
    using assms(1) by (auto simp: ParseFluxNodeResourcesWithPolicy_def andThen_Inr decodeJSON_Inr
        mapE_Inr split: if_splits)
  have ok: "rows_ok policy (result, disks)" by (rule all_series_ok [OF f m])
  have entry: "fst e' = fst e \<and> fst e \<noteq> [] \<and> finished_ok policy (snd e')"
    if "e \<in> set result" "finishResource diskOrder policy disks e = Inr e'" for e e'
  proof -
    have "map_of result (fst e) = Some (snd e)"
      using that(1) ok by (simp add: rows_ok_def)
    then have "resource_ok policy (snd e)"
      using ok unfolding rows_ok_def lookup_or_def prod.case by (metis option.simps(5))
    then show ?thesis
      using finishResource_ok [of diskOrder policy disks "fst e" "snd e" "fst e'" "snd e'"] that ok assms(3)
      by (force simp: rows_ok_def)
  qed
  have "list_all2 (\<lambda>e e'. fst e' = fst e) (nodeOrder result) rs"
    by (rule list.rel_mono_strong [OF l]) (use entry iterates_set [OF assms(2)] in auto)
  then have "map fst rs = map fst (nodeOrder result)"
    by (induction rule: list_all2_induct) auto
  moreover have "nid \<noteq> [] \<and> finished_ok policy r" if mem: "(nid, r) \<in> set rs" for nid r
  proof -
    obtain e where "e \<in> set (nodeOrder result)" "finishResource diskOrder policy disks e = Inr (nid, r)"
      using list_all2_right [OF l mem] by blast
    then show ?thesis using entry [of e] iterates_set [OF assms(2)] by auto
  qed
  ultimately show ?thesis
    using ok iterates_distinct [OF assms(2)] by (auto simp: rows_ok_def)
qed

end
