(* ===== verification/Performance.thy ===== *)
theory Performance
  imports Flux
begin

text \<open>
  ParseFluxPerformance of internal/ecs/parser.go: rows of the performance measurements become
  labelled samples, with the normalisation of each label.
\<close>

section \<open>Labels and units\<close>

definition performanceThroughput :: "f64 \<Rightarrow> string \<Rightarrow> f64 result" where
  "performanceThroughput value unit =
     (case map_of [([], f64_nat 1), (''B/S'', f64_nat 1), (''BYTE/S'', f64_nat 1), (''BYTES/S'', f64_nat 1),
         (''KB/S'', f64_nat 1000), (''MB/S'', f64_nat 1000000), (''GB/S'', f64_nat 1000000000),
         (''TB/S'', f64_nat 1000000000000)] (to_upper (trim_space unit)) of
        None \<Rightarrow> Inl (Msg ''performance throughput unit is unsupported'')
      | Some multiplier \<Rightarrow>
          if \<not> finite_f64 (fmul value multiplier) then Inl (Msg ''performance throughput is too large'')
          else Inr (fmul value multiplier))"

definition performanceLatency :: "f64 \<Rightarrow> string \<Rightarrow> f64 result" where
  "performanceLatency value unit =
     (let u = to_lower (trim_space unit)
      in if u \<in> {[], ''ms'', ''millisecond'', ''milliseconds''} then Inr (fdiv value (f64_nat 1000))
         else if u \<in> {''s'', ''second'', ''seconds''} then Inr value
         else Inl (Msg ''performance latency unit is unsupported''))"

definition operations :: "string list" where
  "operations = [''ALL'', ''DELETE'', ''GET'', ''HEAD'', ''POST'', ''PUT'', ''READ'', ''WRITE'']"

definition normalizeOperation :: "string \<Rightarrow> string" where
  "normalizeOperation value =
     (let upper = to_upper (normalizeDimension value 32) in if upper \<in> set operations then upper else [])"

definition latencyOperation :: "string \<Rightarrow> string" where
  "latencyOperation value =
     (let lower = to_lower (normalizeDimension value 64)
      in if lower = ''ttfb_read'' then ''READ'' else if lower = ''ttlb_write'' then ''WRITE''
         else normalizeOperation value)"

definition operationFromField :: "string \<Rightarrow> string" where
  "operationFromField field =
     (case find (str_contains (to_lower field))
         [''delete'', ''get'', ''head'', ''post'', ''put'', ''read'', ''write''] of
        Some operation \<Rightarrow> to_upper operation
      | None \<Rightarrow> [])"

definition normalizeStatusClass :: "string \<Rightarrow> string" where
  "normalizeStatusClass value =
     (let v = to_lower (normalizeDimension value 16)
      in if v \<in> {''2xx'', ''success'', ''succeed''} then ''2xx''
         else if v \<in> {''4xx'', ''client_error''} then ''4xx''
         else if v \<in> {''5xx'', ''error'', ''server_error''} then ''5xx''
         else [])"

definition statusClassFromField :: "string \<Rightarrow> string" where
  "statusClassFromField field =
     (let has = str_contains (to_lower field)
      in if has ''succeed'' \<or> has ''success'' \<or> has ''2xx'' then ''2xx''
         else if has ''user_error'' \<or> has ''client'' \<or> has ''4xx'' then ''4xx''
         else if has ''system_error'' \<or> has ''error'' \<or> has ''failed'' \<or> has ''server'' \<or> has ''5xx'' then ''5xx''
         else [])"

definition normalizeQuantile :: "string \<Rightarrow> string" where
  "normalizeQuantile value =
     (let v = to_lower (normalizeDimension value 16)
      in if v \<in> {''p50'', ''0.5'', ''50''} then ''0.5''
         else if v \<in> {''p95'', ''0.95'', ''95''} then ''0.95''
         else if v \<in> {''p99'', ''0.99'', ''99''} then ''0.99''
         else [])"

section \<open>Rows\<close>

text \<open>
  The labels a row carries before the switch over its measurement. Every branch sets the metric of
  \<open>px_value\<close>; until then it holds a placeholder for Go's empty string.
\<close>

record perf_row =
  px_value :: performance
  px_operation :: string
  px_unit :: string
  px_field :: string
  px_measurement :: string
  px_number :: f64

definition throughputMetric :: "string \<Rightarrow> perf_metric option" where
  "throughputMetric field =
     (if field \<in> {''read'', ''read_rate'', ''read_bytes_per_second'', ''total_read_requests_size''}
      then Some ReadThroughput
      else if field \<in> {''write'', ''write_rate'', ''write_bytes_per_second'', ''total_write_requests_size''}
      then Some WriteThroughput else None)"

definition throughputSample :: "perf_row \<Rightarrow> performance result" where
  "throughputSample r =
     andThen (performanceThroughput (px_number r) (px_unit r)) (\<lambda>scaled.
       case throughputMetric (px_field r) of
         None \<Rightarrow> Inl (Msg ''performance throughput field is unsupported'')
       | Some metric \<Rightarrow> Inr ((px_value r)\<lparr>pf_metric := metric, pf_operation := [], pf_status_class := [],
           pf_quantile := [], pf_value := scaled\<rparr>))"

definition latencySample :: "perf_row \<Rightarrow> performance result" where
  "latencySample r =
     (let v = px_value r;
          operation = (if pf_operation v = [] then latencyOperation (px_operation r) else pf_operation v);
          quantile = (if pf_quantile v = [] then normalizeQuantile (px_field r) else pf_quantile v)
      in if operation = [] \<or> quantile = []
         then Inl (Msg ''performance latency operation and quantile are required'')
         else andThen (performanceLatency (px_number r) (px_unit r)) (\<lambda>scaled.
           Inr (v\<lparr>pf_operation := operation, pf_quantile := quantile, pf_metric := Latency,
             pf_status_class := [], pf_value := scaled\<rparr>)))"

text \<open>The common part of the transaction and the error measurement.\<close>

definition requestSample :: "string \<Rightarrow> perf_row \<Rightarrow> performance result" where
  "requestSample missing r =
     (let v = px_value r;
          op1 = (if pf_operation v = [] then operationFromField (px_field r) else pf_operation v);
          operation = (if op1 = [] then ''all'' else op1);
          statusClass = (if pf_status_class v = [] then statusClassFromField (px_field r)
            else pf_status_class v)
      in if statusClass = [] then Inl (Msg missing)
         else Inr (v\<lparr>pf_operation := operation, pf_status_class := statusClass, pf_metric := Requests,
           pf_quantile := [], pf_value := px_number r\<rparr>))"

text \<open>The switch: a sample, or no sample for the aggregate failure counter.\<close>

definition measurementSample :: "perf_row \<Rightarrow> performance option result" where
  "measurementSample r =
     (let m = px_measurement r; field = px_field r; some = (\<lambda>x. andThen x (\<lambda>v. Inr (Some v)))
      in if m = ''cq_performance_throughput'' then some (throughputSample r)
         else if m = ''cq_performance_latency'' then some (latencySample r)
         else if m \<in> {''cq_performance_transaction'', ''cq_performance_transaction_ns''} then
           (if field = ''failed_request_counter'' then Inr None
            else if field = ''succeed_request_counter''
            then some (requestSample ''performance transaction status class is required'' r)
            else Inl (Msg ''performance transaction field is unsupported''))
         else if m \<in> {''cq_performance_error'', ''cq_performance_error_ns''} then
           (if field \<in> {''system_errors'', ''user_errors'', ''server_error_counter'', ''client_error_counter''}
            then some (requestSample ''performance error status class is required'' r)
            else Inl (Msg ''performance error field is unsupported''))
         else Inl (Msg ''performance Flux measurement is unsupported''))"

definition performanceLabels :: "string list \<Rightarrow> string list \<Rightarrow> string \<Rightarrow> string \<Rightarrow> time \<Rightarrow> f64 \<Rightarrow> perf_row" where
  "performanceLabels cols row cluster vdc sampleTime number =
     (let d = (\<lambda>names. dimension (fluxDimension cols row names));
          operation = d [''operation'', ''method'', ''id'']
      in \<lparr>px_value = \<lparr>pf_cluster = cluster, pf_vdc = vdc,
            pf_namespace = normalizeDimension (d [''namespace'']) 128, pf_metric = Requests,
            pf_operation = normalizeOperation operation,
            pf_status_class = normalizeStatusClass (d [''status_class'']),
            pf_quantile = normalizeQuantile (d [''quantile'', ''percentile'']),
            pf_value = fzero, pf_collected_at = sampleTime\<rparr>,
          px_operation = operation, px_unit = d [''unit''],
          px_field = to_lower (cell cols row ''_field''),
          px_measurement = to_lower (cell cols row ''_measurement''), px_number = number\<rparr>)"

text \<open>The key that must not repeat: the seven labels joined by NUL.\<close>

definition performanceKey :: "performance \<Rightarrow> string" where
  "performanceKey v = join_with [CHR 0x00]
     [pf_cluster v, pf_vdc v, pf_namespace v, metric_string (pf_metric v), pf_operation v,
      pf_status_class v, pf_quantile v]"

definition performanceRow :: "string \<Rightarrow> string \<Rightarrow> time \<Rightarrow> string list \<Rightarrow> string list \<Rightarrow> performance list
    \<Rightarrow> performance list result" where
  "performanceRow cluster defaultVDC collectedAt cols row result =
     (if length row \<noteq> length cols then Inl (Msg ''performance Flux row length does not match columns'')
      else case ParseTime (cell cols row ''_time'') of
          None \<Rightarrow> Inl (Msg ''performance Flux timestamp is invalid'')
        | Some sampleTime \<Rightarrow>
            andThen (validateFluxRange cols row) (\<lambda>_.
              case parseFinite (cell cols row ''_value'') of
                Inl e \<Rightarrow> Inl (Msg ''performance Flux value is invalid'')
              | Inr number \<Rightarrow>
                  let raw = dimension (fluxDimension cols row [''vdc'', ''vdc_name'', ''zone'']);
                      vdc = normalizeDimension (if raw = [] then defaultVDC else raw) 128
                  in if flt number fzero then Inl (Msg ''performance Flux value is invalid'')
                     else if cluster = [] \<or> vdc = []
                     then Inl (Msg ''performance Flux cluster and VDC are required'')
                     else
                       andThen (measurementSample (performanceLabels cols row cluster vdc sampleTime number))
                         (\<lambda>sample. case sample of
                            None \<Rightarrow> Inr result
                          | Some v \<Rightarrow>
                              let v' = (if is_zero_time (pf_collected_at v)
                                then v\<lparr>pf_collected_at := collectedAt\<rparr> else v)
                              in if performanceKey v' \<in> set (map performanceKey result)
                                 then Inl (Msg ''performance Flux series contains duplicate metric labels'')
                                 else Inr (result @ [v'])))) "

definition performanceSeries :: "string \<Rightarrow> string \<Rightarrow> time \<Rightarrow> series \<Rightarrow> performance list \<Rightarrow> performance list result" where
  "performanceSeries cluster defaultVDC collectedAt s result =
     (if se_columns s = [] \<and> se_values s = [] then Inr result
      else
        andThen (checkColumns ''performance Flux'' [] (se_columns s)) (\<lambda>_.
        andThen (requireColumns ''performance Flux'' [''_measurement'', ''_field'', ''_value'', ''_time'']
          (se_columns s)) (\<lambda>_.
        foldE (performanceRow cluster defaultVDC collectedAt (se_columns s)) (se_values s) result)))"

definition ParseFluxPerformance :: "string \<Rightarrow> string \<Rightarrow> string \<Rightarrow> time \<Rightarrow> performance list result" where
  "ParseFluxPerformance data cluster defaultVDC collectedAt =
     andThen (decodeJSON dec_series data) (\<lambda>response.
       foldE (performanceSeries cluster defaultVDC collectedAt) response [])"

end
