(* ===== verification/Performance_Facts.thy ===== *)
theory Performance_Facts
  imports Flux_Facts Performance
begin

text \<open>
  What \<open>ParseFluxPerformance\<close> guarantees of its samples, and the properties of both Flux parsers.
\<close>

section \<open>Performance samples\<close>

definition quantiles :: "string list" where
  "quantiles = [''0.5'', ''0.95'', ''0.99'']"

definition status_classes :: "string list" where
  "status_classes = [''2xx'', ''4xx'', ''5xx'']"

text \<open>The labels a sample of each metric carries; the others are empty.\<close>

definition labels_ok :: "performance \<Rightarrow> bool" where
  "labels_ok v \<longleftrightarrow>
     (case pf_metric v of
        Latency \<Rightarrow> pf_operation v \<in> set operations \<and> pf_status_class v = [] \<and> pf_quantile v \<in> set quantiles
      | Requests \<Rightarrow> (pf_operation v = ''all'' \<or> pf_operation v \<in> set operations)
          \<and> pf_status_class v \<in> set status_classes \<and> pf_quantile v = []
      | _ \<Rightarrow> pf_operation v = [] \<and> pf_status_class v = [] \<and> pf_quantile v = [])"

lemma find_in: "find P xs = Some x \<Longrightarrow> x \<in> set xs"
  by (auto simp: find_Some_iff)

lemma normalizeOperation_in: "normalizeOperation s \<in> set operations \<or> normalizeOperation s = []"
  by (simp add: normalizeOperation_def Let_def)

lemma latencyOperation_in: "latencyOperation s \<in> set operations \<or> latencyOperation s = []"
  using normalizeOperation_in [of s] by (simp add: latencyOperation_def Let_def operations_def)

lemma operationFromField_in: "operationFromField s \<in> set operations \<or> operationFromField s = []"
proof (cases "operationFromField s = []")
  case False
  then obtain w where fnd: "find (str_contains (to_lower s))
      [''delete'', ''get'', ''head'', ''post'', ''put'', ''read'', ''write''] = Some w"
    and up: "operationFromField s = to_upper w"
    by (auto simp: operationFromField_def split: option.splits)
  from fnd have w: "w \<in> set [''delete'', ''get'', ''head'', ''post'', ''put'', ''read'', ''write'']"
    by (rule find_in)
  have every: "\<forall>w \<in> set [''delete'', ''get'', ''head'', ''post'', ''put'', ''read'', ''write'']. to_upper w \<in> set operations"
    by code_simp
  show ?thesis unfolding up by (rule disjI1, rule bspec [OF every w])
qed simp

lemma normalizeStatusClass_in: "normalizeStatusClass s \<in> set status_classes \<or> normalizeStatusClass s = []"
  unfolding normalizeStatusClass_def Let_def status_classes_def by simp

lemma statusClassFromField_in: "statusClassFromField s \<in> set status_classes \<or> statusClassFromField s = []"
  unfolding statusClassFromField_def Let_def status_classes_def by simp

lemma normalizeQuantile_in: "normalizeQuantile s \<in> set quantiles \<or> normalizeQuantile s = []"
  unfolding normalizeQuantile_def Let_def quantiles_def by simp


lemma fmul_nonneg_ok:
  assumes "nonneg_f64 x" "finite_f64 (fmul x (Fin False m))" "0 < m" "wf_f64 (Fin False m)"
  shows "nonneg_f64 (fmul x (Fin False m))"
  using assms fmul_nonneg [of x m] rnd_nonneg [of "fval x * m"]
  by (auto simp: nonneg_f64_def finite_f64_iff simp del: wf_f64.simps)

lemma throughput_unit:
  assumes "performanceThroughput x unit = Inr y"
  shows "\<exists>n \<in> {1, 1000, 1000000, 1000000000, 1000000000000}. y = fmul x (f64_nat n) \<and> finite_f64 y"
proof -
  obtain U where U: "U = to_upper (trim_space unit)" by simp
  let ?units = "[([], f64_nat 1), (''B/S'', f64_nat 1), (''BYTE/S'', f64_nat 1), (''BYTES/S'', f64_nat 1),
         (''KB/S'', f64_nat 1000), (''MB/S'', f64_nat 1000000), (''GB/S'', f64_nat 1000000000),
         (''TB/S'', f64_nat 1000000000000)]"
  obtain m where m: "map_of ?units U = Some m" and y: "y = fmul x m" "finite_f64 (fmul x m)"
    using assms unfolding performanceThroughput_def U [symmetric]
    by (auto simp del: map_of.simps split: option.splits if_split_asm)
  have "m \<in> snd ` set ?units" using map_of_SomeD [OF m] by force
  then have "m \<in> f64_nat ` {1, 1000, 1000000, 1000000000, 1000000000000}" by simp
  then show ?thesis using y by blast
qed

lemma performanceThroughput_ok:
  assumes "performanceThroughput x unit = Inr y" "nonneg_f64 x" shows "nonneg_f64 y"
proof -
  obtain n where n: "n \<in> {1, 1000, 1000000, 1000000000, 1000000000000 :: nat}" "y = fmul x (f64_nat n)"
      "finite_f64 y"
    using throughput_unit [OF assms(1)] by blast
  then have "n \<le> 2 ^ 53" "0 < n" by auto
  then show ?thesis
    unfolding n(2) using assms(2) n(2,3) by (intro fmul_nonneg_ok wf_f64_nat) simp_all
qed

lemma performanceLatency_ok:
  assumes "performanceLatency x unit = Inr y" "nonneg_f64 x" shows "nonneg_f64 y"
proof -
  have "y = x \<or> y = fdiv x (f64_nat 1000)"
    using assms(1) unfolding performanceLatency_def Let_def by (simp split: if_split_asm)
  moreover have "nonneg_f64 (fdiv x (f64_nat 1000))"
  proof -
    obtain s r where x: "x = Fin s r" "0 \<le> r" "s \<Longrightarrow> r = 0" "rnd r = r" "r < 2 ^ 1024"
      using assms(2) by (cases x) (auto simp: nonneg_f64_def split: if_splits)
    have "rnd (r / 1000) \<le> rnd r" using x(2) by (intro rnd_mono) auto
    then have "rnd (r / 1000) < 2 ^ 1024" "0 \<le> rnd (r / 1000)"
      using x by (auto intro: rnd_nonneg)
    then show ?thesis using x(2,3) by (auto simp: x(1) nonneg_f64_def pack_def)
  qed
  ultimately show ?thesis using assms(2) by auto
qed

definition sample_ok :: "string \<Rightarrow> performance \<Rightarrow> bool" where
  "sample_ok c v \<longleftrightarrow> pf_cluster v = c \<and> c \<noteq> [] \<and> pf_vdc v \<noteq> [] \<and> nonneg_f64 (pf_value v) \<and> labels_ok v"

definition row_ok :: "string \<Rightarrow> perf_row \<Rightarrow> bool" where
  "row_ok c r \<longleftrightarrow> pf_cluster (px_value r) = c \<and> c \<noteq> [] \<and> pf_vdc (px_value r) \<noteq> [] \<and> nonneg_f64 (px_number r)
     \<and> (pf_operation (px_value r) = [] \<or> pf_operation (px_value r) \<in> set operations)
     \<and> (pf_status_class (px_value r) = [] \<or> pf_status_class (px_value r) \<in> set status_classes)
     \<and> (pf_quantile (px_value r) = [] \<or> pf_quantile (px_value r) \<in> set quantiles)"

lemma throughputSample_ok: "throughputSample r = Inr v \<Longrightarrow> row_ok c r \<Longrightarrow> sample_ok c v"
  by (auto simp: throughputSample_def andThen_Inr row_ok_def sample_ok_def labels_ok_def throughputMetric_def
      performanceThroughput_ok split: option.splits if_splits)

lemma latencySample_ok: "latencySample r = Inr v \<Longrightarrow> row_ok c r \<Longrightarrow> sample_ok c v"
  using latencyOperation_in [of "px_operation r"] normalizeQuantile_in [of "px_field r"]
  by (auto simp: latencySample_def Let_def andThen_Inr row_ok_def sample_ok_def labels_ok_def
      performanceLatency_ok split: if_splits)

lemma requestSample_ok: "requestSample m r = Inr v \<Longrightarrow> row_ok c r \<Longrightarrow> sample_ok c v"
  using operationFromField_in [of "px_field r"] statusClassFromField_in [of "px_field r"]
  by (auto simp: requestSample_def Let_def row_ok_def sample_ok_def labels_ok_def split: if_splits)

lemma measurementSample_ok:
  assumes "measurementSample r = Inr (Some v)" "row_ok c r" shows "sample_ok c v"
proof -
  have "throughputSample r = Inr v \<or> latencySample r = Inr v \<or> (\<exists>m. requestSample m r = Inr v)"
    using assms(1) unfolding measurementSample_def Let_def
    by (simp add: andThen_Inr split: if_split_asm) blast+
  then show ?thesis
    using assms(2) throughputSample_ok latencySample_ok requestSample_ok by blast
qed

lemma performanceLabels_ok:
  assumes "nonneg_f64 x" "c \<noteq> []" "vdc \<noteq> []"
  shows "row_ok c (performanceLabels cols row c vdc t x)"
  using assms normalizeOperation_in normalizeStatusClass_in normalizeQuantile_in
  by (simp add: performanceLabels_def Let_def row_ok_def) blast

definition samples_ok :: "string \<Rightarrow> performance list \<Rightarrow> bool" where
  "samples_ok c vs \<longleftrightarrow> distinct (map performanceKey vs) \<and> (\<forall>v \<in> set vs. sample_ok c v)"

lemma sample_ok_collected [simp]: "sample_ok c (v\<lparr>pf_collected_at := t\<rparr>) = sample_ok c v"
  by (cases "pf_metric v") (simp_all add: sample_ok_def labels_ok_def)

lemma performanceRow_ok:
  assumes "performanceRow c vdc t cols row acc = Inr acc'" "samples_ok c acc"
  shows "samples_ok c acc'"
proof -
  obtain time number raw sample where
      n: "parseFinite (cell cols row ''_value'') = Inr number" "\<not> flt number fzero"
    and ids: "c \<noteq> []" "raw \<noteq> []"
    and m: "measurementSample (performanceLabels cols row c raw time number) = Inr sample"
    and acc': "acc' = acc \<or> (\<exists>v. sample = Some v \<and> (\<exists>w. (w = v \<or> w = v\<lparr>pf_collected_at := t\<rparr>)
        \<and> performanceKey w \<notin> performanceKey ` set acc \<and> acc' = acc @ [w]))"
    using assms(1)
    by (auto simp: performanceRow_def andThen_Inr Let_def split: if_split_asm option.split_asm sum.split_asm)
  have "nonneg_f64 number" using parseFinite_ok [OF n(1)] n(2) by (auto simp: nonneg_f64_def flt_fin)
  then have "row_ok c (performanceLabels cols row c raw time number)"
    using ids by (rule performanceLabels_ok)
  then have "\<forall>v. sample = Some v \<longrightarrow> sample_ok c v" using m measurementSample_ok by blast
  then show ?thesis
    using acc' assms(2) by (auto simp: samples_ok_def)
qed

lemma performanceSeries_ok:
  assumes "performanceSeries c vdc t s acc = Inr acc'" "samples_ok c acc"
  shows "samples_ok c acc'"
proof (cases "se_columns s = [] \<and> se_values s = []")
  case False
  then have "foldE (performanceRow c vdc t (se_columns s)) (se_values s) acc = Inr acc'"
    using assms(1) by (auto simp: performanceSeries_def andThen_Inr)
  then show ?thesis
    by (induction rule: foldE_rule) (use assms(2) performanceRow_ok in blast)+
qed (use assms in \<open>auto simp: performanceSeries_def\<close>)

lemma performance_sound:
  assumes "ParseFluxPerformance data c vdc t = Inr vs" shows "samples_ok c vs"
proof -
  obtain ss where "foldE (performanceSeries c vdc t) ss [] = Inr vs"
    using assms by (auto simp: ParseFluxPerformance_def andThen_Inr)
  then show ?thesis
    by (induction rule: foldE_rule) (use performanceSeries_ok in \<open>auto simp: samples_ok_def\<close>)
qed

text \<open>
  C19: every sample \<open>ParseFluxPerformance\<close> returns carries the caller's cluster, a
  VDC, a finite value that is not negative, and exactly the labels of its metric: throughput none, latency a known
  operation and one of three quantiles, requests an operation and one of three status classes.
\<close>

theorem performance_labels:
  assumes "ParseFluxPerformance data c vdc t = Inr vs" "v \<in> set vs"
  shows "pf_cluster v = c \<and> c \<noteq> [] \<and> pf_vdc v \<noteq> [] \<and> f64_finite (pf_value v) \<and> 0 \<le> fval (pf_value v)
    \<and> (case pf_metric v of
         Latency \<Rightarrow> pf_operation v \<in> set operations \<and> pf_status_class v = []
           \<and> pf_quantile v \<in> {''0.5'', ''0.95'', ''0.99''}
       | Requests \<Rightarrow> (pf_operation v = ''all'' \<or> pf_operation v \<in> set operations)
           \<and> pf_status_class v \<in> {''2xx'', ''4xx'', ''5xx''} \<and> pf_quantile v = []
       | _ \<Rightarrow> pf_operation v = [] \<and> pf_status_class v = [] \<and> pf_quantile v = [])"
proof -
  have "sample_ok c v" using performance_sound [OF assms(1)] assms(2) by (simp add: samples_ok_def)
  then show ?thesis
    unfolding sample_ok_def nonneg_f64_def labels_ok_def quantiles_def status_classes_def list.set by blast
qed

section \<open>A Flux response\<close>

text \<open>One series with the given columns and one row.\<close>

definition cpu_columns :: "string list" where
  "cpu_columns = [''_measurement'', ''_field'', ''_value'', ''_time'', ''node_id'']"

definition mem_row :: "string list" where
  "mem_row = [''mem'', ''used'', ''5'', ''2024-01-02T03:04:05Z'', ''n1'']"

definition flux_text :: string where
  "flux_text = json_text ''{~Series~: [{~Columns~: [~_measurement~, ~_field~, ~_value~, ~_time~, ~node_id~],
     ~Values~: [[~mem~, ~used~, ~5~, ~2024-01-02T03:04:05Z~, ~n1~]]}]}''"


lemma flux_text_series: "decodeJSON dec_series flux_text = Inr [\<lparr>se_columns = cpu_columns, se_values = [mem_row]\<rparr>]"
  by code_simp

lemma parseFinite_5: "parseFinite ''5'' = Inr (f64_nat 5)"
proof -
  have u: "decode_first ''5'' = Some (JNum ''5'', [])" "trim_space ''5'' \<noteq> ''null''" by code_simp+
  have "dec_value ''5'' = 5" "list_all is_digit ''5''" by code_simp+
  then have "setNumber ''5'' = Inr (whole 5)" using setNumber_digits [of "''5''"] by simp
  then show ?thesis by (simp add: parseFinite_def UnmarshalJSON_def u numberFrom_def Required_def)
qed

lemma mem_row_resources:
  "resourceRow policy cpu_columns mem_row ([], []) = Inr ([(''n1'', no_resource\<lparr>re_mem_used := Some (f64_nat 5)\<rparr>)], [])"
proof -
  have t: "ParseTime ''2024-01-02T03:04:05Z'' \<noteq> None" by code_simp
  have c: "cell cpu_columns mem_row ''_time'' = ''2024-01-02T03:04:05Z''" "cell cpu_columns mem_row ''_value'' = ''5''"
    "cell cpu_columns mem_row ''node_id'' = ''n1''" "cell cpu_columns mem_row ''_measurement'' = ''mem''"
    "cell cpu_columns mem_row ''_field'' = ''used''" by code_simp+
  have r: "validateFluxRange cpu_columns mem_row = Inr ()" "length mem_row = length cpu_columns" by code_simp+
  have l: "\<not> flt (f64_nat 5) fzero" by (simp add: fzero_def)
  show ?thesis
    using t l by (auto simp: resourceRow_def c r parseFinite_5 resourceSample_def lookup_or_def no_resource_def
        pointer_def)
qed

definition one_policy :: resource_policy where
  "one_policy = \<lparr>po_filesystems = [], po_interfaces = [], po_max_interfaces = 1, po_prefer_bond = True\<rparr>"

lemma flux_text_parsed:
  "ParseFluxNodeResourcesWithPolicy (\<lambda>xs. xs) rev flux_text one_policy
     = Inr [(''n1'', no_resource\<lparr>re_mem_used := Some (f64_nat 5)\<rparr>)]"
proof -
  have c: "checkColumns ''Flux'' [] cpu_columns = Inr ()"
    "requireColumns ''Flux'' [''_measurement'', ''_field'', ''_value'', ''_time'', ''node_id''] cpu_columns = Inr ()"
    "cpu_columns \<noteq> []"
    by code_simp+
  show ?thesis
    by (simp add: ParseFluxNodeResourcesWithPolicy_def flux_text_series one_policy_def resourceSeries_def c
        mem_row_resources finishResource_def lookup_or_def no_resource_def finishNetworks_def)
qed

text \<open>
  C18: whatever orders Go visits its maps in, the resources
  \<open>ParseFluxNodeResourcesWithPolicy\<close> returns name each node once and not by the empty string; a CPU
  use is a ratio in [0, 1]; memory and disk sizes are finite, not negative, and used is at most the
  total; the interfaces are sorted, distinct, at most as many as the policy allows, and among those
  it lists if it lists any.
\<close>

theorem flux_resources_sound:
  assumes "ParseFluxNodeResourcesWithPolicy nodeOrder diskOrder data policy = Inr rs"
    "iterates nodeOrder" "iterates diskOrder"
  shows "distinct (map fst rs) \<and> (\<forall>(nid, r) \<in> set rs. nid \<noteq> []
     \<and> (\<forall>x. re_cpu r = Some x \<longrightarrow> ratio x)
     \<and> list_all opt_ok [re_mem_used r, re_mem_total r, re_disk_used r, re_disk_total r]
     \<and> le_opt (re_mem_used r) (re_mem_total r) \<and> le_opt (re_disk_used r) (re_disk_total r)
     \<and> sorted_wrt (<) (map nw_interface (re_network r))
     \<and> int (length (re_network r)) \<le> po_max_interfaces policy
     \<and> (po_interfaces policy = [] \<or> nw_interface ` set (re_network r) \<subseteq> set (po_interfaces policy)))"
  using resources_sound [OF assms] unfolding finished_ok_def networks_ok_def strict_sorted_iff
  by fastforce

theorem flux_resources_sound_witness:
  "ParseFluxNodeResourcesWithPolicy (\<lambda>xs. xs) rev flux_text one_policy
     = Inr [(''n1'', no_resource\<lparr>re_mem_used := Some (f64_nat 5)\<rparr>)] \<and> opt_ok (Some (f64_nat 5))"
  using flux_resources_sound [OF flux_text_parsed iterates_id iterates_rev] flux_text_parsed by simp

definition perf_columns :: "string list" where
  "perf_columns = [''_measurement'', ''_field'', ''_value'', ''_time'']"

definition perf_values :: "string list" where
  "perf_values = [''cq_performance_error'', ''user_errors'', ''5'', ''2024-01-02T03:04:05Z'']"

definition perf_text :: string where
  "perf_text = json_text ''{~Series~: [{~Columns~: [~_measurement~, ~_field~, ~_value~, ~_time~],
     ~Values~: [[~cq_performance_error~, ~user_errors~, ~5~, ~2024-01-02T03:04:05Z~]]}]}''"

lemma perf_text_parsed:
  "ParseFluxPerformance perf_text ''c'' ''v'' 0
     = Inr [\<lparr>pf_cluster = ''c'', pf_vdc = ''v'', pf_namespace = [], pf_metric = Requests, pf_operation = ''all'',
         pf_status_class = ''4xx'', pf_quantile = [], pf_value = f64_nat 5,
         pf_collected_at = the (ParseTime ''2024-01-02T03:04:05Z'')\<rparr>]"
proof -
  have d: "decodeJSON dec_series perf_text = Inr [\<lparr>se_columns = perf_columns, se_values = [perf_values]\<rparr>]"
    by code_simp
  have c: "checkColumns ''performance Flux'' [] perf_columns = Inr ()"
    "requireColumns ''performance Flux'' [''_measurement'', ''_field'', ''_value'', ''_time''] perf_columns = Inr ()"
    "perf_columns \<noteq> []" "length perf_values = length perf_columns" "validateFluxRange perf_columns perf_values = Inr ()"
    "cell perf_columns perf_values ''_time'' = ''2024-01-02T03:04:05Z''" "cell perf_columns perf_values ''_value'' = ''5''"
    by code_simp+
  obtain t where t: "ParseTime ''2024-01-02T03:04:05Z'' = Some t" "\<not> is_zero_time t"
  proof -
    have "(case ParseTime ''2024-01-02T03:04:05Z'' of Some t \<Rightarrow> \<not> is_zero_time t | None \<Rightarrow> False)" by code_simp
    then show ?thesis using that by (cases "ParseTime ''2024-01-02T03:04:05Z''") simp_all
  qed
  have v: "dimension (fluxDimension perf_columns perf_values [''vdc'', ''vdc_name'', ''zone'']) = []"
    "normalizeDimension ''v'' 128 = ''v''" by code_simp+
  have m: "measurementSample (performanceLabels perf_columns perf_values ''c'' ''v'' t x)
      = Inr (Some \<lparr>pf_cluster = ''c'', pf_vdc = ''v'', pf_namespace = [], pf_metric = Requests,
          pf_operation = ''all'', pf_status_class = ''4xx'', pf_quantile = [], pf_value = x,
          pf_collected_at = t\<rparr>)" for x
    by code_simp
  have l: "\<not> flt (f64_nat 5) fzero" by (simp add: fzero_def)
  show ?thesis
    using l t by (simp add: ParseFluxPerformance_def d performanceSeries_def c performanceRow_def parseFinite_5 Let_def v m
        del: fluxDimension.simps)
qed

theorem performance_labels_witness:
  "0 \<le> fval (pf_value (hd (case ParseFluxPerformance perf_text ''c'' ''v'' 0 of Inr vs \<Rightarrow> vs)))"
  using performance_labels [OF perf_text_parsed, of "hd (case ParseFluxPerformance perf_text ''c'' ''v'' 0 of Inr vs \<Rightarrow> vs)"]
  by (simp add: perf_text_parsed)

end
