(* ===== verification/Pipeline.thy ===== *)
theory Pipeline
  imports Cache Response_Facts Performance_Facts
begin

text \<open>
  The parsers and the cache together: what a parser returns for a cluster may be published under
  that cluster's name without breaking the store.
\<close>

lemma keyedI:
  assumes "\<And>v. v \<in> set vs \<Longrightarrow> hd (key v) = c" "distinct (map f vs)" "\<And>v. f v = g (key v)"
  shows "keyed key c vs"
proof -
  have "distinct (map g (map key vs))" using assms(2) by (simp add: assms(3) [symmetric] comp_def)
  then have "distinct (map key vs)" unfolding distinct_map [of g] ..
  then show ?thesis using assms(1) by (simp add: keyed_def)
qed

lemma nodes_keyed: "ParseNodes data c t = Inr (ns, vs) \<Longrightarrow> keyed nodeKey c ns"
  by (rule keyedI [where f = nd_id and g = "\<lambda>k. k ! 1"])
    (auto simp: ParseNodes_Inr raw_nodes_valid_def nodeKey_def comp_def)

lemma namespaces_keyed: "ParseNamespaces data c t = Inr ms \<Longrightarrow> keyed namespaceKey c ms"
  using ParseNamespaces_keyed [of data c t ms]
  by (intro keyedI [where f = nm_name and g = "\<lambda>k. k ! 1"]) (auto simp: namespaceKey_def list_all_iff)

lemma buckets_keyed: "ParseBucketPage data c t = Inr (bs, m) \<Longrightarrow> keyed bucketKey c bs"
  using ParseBucketPage_keyed [of data c t bs m]
  by (intro keyedI [where f = "\<lambda>b. (bk_namespace b, bk_name b)" and g = "\<lambda>k. (k ! 1, k ! 2)"])
    (auto simp: bucketKey_def list_all_iff)

lemma performances_keyed: "ParseFluxPerformance data c vdc t = Inr ps \<Longrightarrow> keyed performanceFields c ps"
  using performance_sound [of data c vdc t ps]
  by (intro keyedI [where f = performanceKey and g = "join_with [CHR 0x00]"])
    (auto simp: samples_ok_def sample_ok_def performanceFields_def performanceKey_def simp del: join_with.simps)

text \<open>
  C17: publishing what the four list parsers return for a cluster, in this order,
  into a reachable store gives a reachable store, so the store stays well formed: every row is
  filed under its own cluster and no key occurs twice.
\<close>

theorem parsed_publishable:
  assumes "reachable s"
    and "ParseNodes d1 c t = Inr (ns, versions)" "ParseNamespaces d2 c t = Inr ms"
      "ParseBucketPage d3 c t = Inr (bs, marker)" "ParseFluxPerformance d4 c vdc t = Inr ps"
  defines "s' \<equiv> ReplacePerformances c ps (ReplaceBuckets c bs (ReplaceNamespaces c ms (ReplaceNodes c ns s)))"
  shows "reachable s' \<and> store_wf s'"
proof -
  have "reachable (apply_op (OpPerformances c ps) (apply_op (OpBuckets c bs)
      (apply_op (OpNamespaces c ms) (apply_op (OpNodes c ns) s))))"
    by (intro reach_op assms(1); simp add: nodes_keyed [OF assms(2)] namespaces_keyed [OF assms(3)]
        buckets_keyed [OF assms(4)] performances_keyed [OF assms(5)])
  then have "reachable s'" by (simp add: s'_def)
  then show ?thesis using reachable_wf by blast
qed

definition nodes_text :: string where
  "nodes_text = json_text ''{~node~: [{~nodeid~: ~n1~, ~nodename~: ~a~, ~version~: ~3.8~}]}''"

definition namespaces_text :: string where
  "namespaces_text = json_text ''{~namespace~: [{~name~: ~ns1~}, {~id~: ~ns2~}]}''"

definition buckets_text :: string where
  "buckets_text = json_text ''{~object_bucket~: [{~name~: ~b~, ~namespace~: ~ns1~}], ~NextMarker~: ~m~}''"

theorem parsed_publishable_witness:
  "\<exists>ns vs ms bs m ps. ParseNodes nodes_text ''c'' 0 = Inr (ns, vs) \<and> ParseNamespaces namespaces_text ''c'' 0 = Inr ms
     \<and> ParseBucketPage buckets_text ''c'' 0 = Inr (bs, m) \<and> ParseFluxPerformance perf_text ''c'' ''v'' 0 = Inr ps
     \<and> reachable (ReplacePerformances ''c'' ps (ReplaceBuckets ''c'' bs (ReplaceNamespaces ''c'' ms
         (ReplaceNodes ''c'' ns newStore))))"
proof -
  have "succeeds (ParseNodes nodes_text ''c'' 0)" "succeeds (ParseNamespaces namespaces_text ''c'' 0)"
    "succeeds (ParseBucketPage buckets_text ''c'' 0)"
    by code_simp+
  then obtain nv ms bm where "ParseNodes nodes_text ''c'' 0 = Inr nv" "ParseNamespaces namespaces_text ''c'' 0 = Inr ms"
      "ParseBucketPage buckets_text ''c'' 0 = Inr bm"
    unfolding succeeds_iff by blast
  moreover obtain ns vs bs m where "nv = (ns, vs)" "bm = (bs, m)" by fastforce
  ultimately show ?thesis
    using parsed_publishable [OF reach_new, of nodes_text "''c''" 0 ns vs namespaces_text ms buckets_text bs m
        perf_text "''v''"] perf_text_parsed by blast
qed

end
