(* ===== verification/Version.thy ===== *)
theory Version
  imports Go_Strings
begin

text \<open>
  internal/profile/version.go: the four-part product version of an ECS node. The parts are
  32-bit words; a build suffix is kept but does not take part in comparisons.
\<close>

section \<open>Parsing\<close>

record version =
  vr_parts :: "32 word list"
  vr_suffix :: string
  vr_raw :: string

definition zero_version :: version where
  "zero_version = \<lparr>vr_parts = [0, 0, 0, 0], vr_suffix = [], vr_raw = []\<rparr>"

text \<open>
  The match of \<open>versionPattern\<close>: n + 1 groups of digits separated by dots, then the rest.
  A group takes all the digits there are, since the pattern continues with a character that is
  none.
\<close>

fun match_numbers :: "nat \<Rightarrow> string \<Rightarrow> (string list \<times> string) option" where
  "match_numbers n s =
     (let d = takeWhile is_digit s; r = dropWhile is_digit s
      in if d = [] then None
         else case n of
             0 \<Rightarrow> Some ([d], r)
           | Suc m \<Rightarrow>
               (if has_prefix r ''.''
                then map_option (\<lambda>(ds, t). (d # ds, t)) (match_numbers m (drop 1 r))
                else None))"

declare match_numbers.simps [simp del]

definition suffix_ok :: "string \<Rightarrow> bool" where
  "suffix_ok t =
     (case t of
        [] \<Rightarrow> True
      | [c] \<Rightarrow> False
      | c # d # ds \<Rightarrow> c \<in> set ''._+-'' \<and> is_alnum d \<and> list_all (\<lambda>e. is_alnum e \<or> e \<in> set ''._+-'') ds)"

definition versionPattern :: "string \<Rightarrow> (string list \<times> string) option" where
  "versionPattern s =
     (case match_numbers 3 s of
        None \<Rightarrow> None
      | Some (ds, t) \<Rightarrow> (if suffix_ok t then Some (ds, t) else None))"

text \<open>\<open>strconv.ParseUint(d, 10, 32)\<close> on a string of digits.\<close>

definition parse_uint32 :: "string \<Rightarrow> 32 word option" where
  "parse_uint32 d = (if dec_value d < 2 ^ 32 then Some (of_nat (dec_value d)) else None)"

definition parsePart :: "string \<Rightarrow> string \<Rightarrow> go_error + 32 word" where
  "parsePart value d =
     (case parse_uint32 d of
        None \<Rightarrow> Inl (Wrap ''version %q part %d: %w'' [value] (Msg ''value out of range''))
      | Some w \<Rightarrow> Inr w)"

definition ParseVersion :: "string \<Rightarrow> version result" where
  "ParseVersion value =
     (if value = [] then Inl (Msg ''version is empty'')
      else if value \<noteq> trim_space value
      then Inl (Errorf ''version %q contains surrounding whitespace'' [value])
      else case versionPattern value of
          None \<Rightarrow> Inl (Errorf
            ''version %q must contain four numeric parts and an optional build suffix'' [value])
        | Some (ds, suffix) \<Rightarrow>
            andThen (mapE (parsePart value) ds)
              (\<lambda>parts. Inr \<lparr>vr_parts = parts, vr_suffix = suffix, vr_raw = value\<rparr>))"

section \<open>Comparing and printing\<close>

fun compareParts :: "32 word list \<Rightarrow> 32 word list \<Rightarrow> int" where
  "compareParts (p # ps) (q # qs) =
     (if p < q then -1 else if p > q then 1 else compareParts ps qs)"
| "compareParts _ _ = 0"

definition Compare :: "version \<Rightarrow> version \<Rightarrow> int" where
  "Compare v other = compareParts (vr_parts v) (vr_parts other)"

definition dotted :: "string list \<Rightarrow> string" where
  "dotted ds = concat (map (\<lambda>(i, d). if i = (0::nat) then d else CHR ''.'' # d) (zip [0..<length ds] ds))"

definition Core :: "version \<Rightarrow> string" where
  "Core v = dotted (map (\<lambda>p. dec_digits (unat p)) (vr_parts v))"

definition Suffix :: "version \<Rightarrow> string" where
  "Suffix v = vr_suffix v"

definition version_string :: "version \<Rightarrow> string" where
  "version_string v = vr_raw v"

definition version_wf :: "version \<Rightarrow> bool" where
  "version_wf v \<longleftrightarrow> length (vr_parts v) = 4 \<and> suffix_ok (vr_suffix v)"

section \<open>Lemmas\<close>

lemma dotted_simps [simp]:
  "dotted [] = []" "dotted [d] = d" "dotted (d # e # ds) = d @ CHR ''.'' # dotted (e # ds)"
proof -
  have s: "concat (map (\<lambda>(i, d). if i = 0 then d else CHR ''.'' # d) (zip [Suc n..<Suc n + length ds] ds))
      = concat (map (\<lambda>d. CHR ''.'' # d) ds)" for n and ds :: "string list"
  proof (induction ds arbitrary: n)
    case (Cons x xs)
    have "[Suc n..<Suc n + length (x # xs)] = Suc n # [Suc (Suc n)..<Suc (Suc n) + length xs]"
      by (simp add: upt_rec)
    then show ?case using Cons [of "Suc n"] by simp
  qed simp
  have all: "dotted (d # ds) = d @ concat (map (\<lambda>d. CHR ''.'' # d) ds)" for d and ds :: "string list"
  proof -
    have "[0..<length (d # ds)] = 0 # [Suc 0..<Suc 0 + length ds]" by (simp add: upt_rec)
    then show ?thesis using s [of 0 ds] by (simp add: dotted_def)
  qed
  show "dotted (d # e # ds) = d @ CHR ''.'' # dotted (e # ds)" unfolding all by simp
  show "dotted [d] = d" unfolding all by simp
qed (simp add: dotted_def)

definition all_numbers :: "string list \<Rightarrow> bool" where
  "all_numbers ds \<longleftrightarrow> (\<forall>d \<in> set ds. d \<noteq> [] \<and> (\<forall>c \<in> set d. is_digit c))"

lemma all_numbers_Cons:
  "all_numbers (d # ds) \<longleftrightarrow> d \<noteq> [] \<and> (\<forall>c \<in> set d. is_digit c) \<and> all_numbers ds"
  by (auto simp: all_numbers_def)

lemma all_numbers_Nil: "all_numbers []"
  by (simp add: all_numbers_def)

lemma not_digit_dot [simp]: "\<not> is_digit (CHR ''.'')"
  by (simp add: is_digit_def)

lemma takeWhile_digits:
  "\<forall>c \<in> set d. is_digit c \<Longrightarrow> r = [] \<or> \<not> is_digit (hd r) \<Longrightarrow>
    takeWhile is_digit (d @ r) = d \<and> dropWhile is_digit (d @ r) = r"
  by (cases r) (auto simp: takeWhile_append)

lemma match_numbers_complete:
  assumes "all_numbers ds" "length ds = Suc n" "t = [] \<or> \<not> is_digit (hd t)"
  shows "match_numbers n (dotted ds @ t) = Some (ds, t)"
  using assms
proof (induction n arbitrary: ds)
  case 0
  then obtain d where "ds = [d]" by (auto simp: length_Suc_conv)
  with 0 show ?case
    using takeWhile_digits [of d t] by (subst match_numbers.simps) (simp add: all_numbers_Cons)
next
  case (Suc n)
  then obtain d e es where ds: "ds = d # e # es" "length es = n"
    by (auto simp: length_Suc_conv)
  have "takeWhile is_digit (d @ CHR ''.'' # dotted (e # es) @ t) = d \<and>
      dropWhile is_digit (d @ CHR ''.'' # dotted (e # es) @ t) = CHR ''.'' # dotted (e # es) @ t"
    using Suc.prems by (intro takeWhile_digits) (auto simp: ds all_numbers_Cons)
  moreover have "match_numbers n (dotted (e # es) @ t) = Some (e # es, t)"
    using Suc by (auto simp: ds all_numbers_Cons)
  ultimately show ?case
    using Suc.prems by (subst match_numbers.simps) (simp add: ds all_numbers_Cons has_prefix_def)
qed

lemma match_numbers_0:
  "match_numbers 0 s = Some (ds, t) \<longleftrightarrow>
     takeWhile is_digit s \<noteq> [] \<and> ds = [takeWhile is_digit s] \<and> t = dropWhile is_digit s"
  by (subst match_numbers.simps) (auto simp: Let_def split: if_splits)

lemma match_numbers_Suc:
  "match_numbers (Suc n) s = Some (ds, t) \<longleftrightarrow>
     takeWhile is_digit s \<noteq> [] \<and> has_prefix (dropWhile is_digit s) ''.''
     \<and> (\<exists>es. match_numbers n (drop 1 (dropWhile is_digit s)) = Some (es, t)
           \<and> ds = takeWhile is_digit s # es)"
  by (subst match_numbers.simps) (auto simp: Let_def)

lemma match_numbers_sound:
  "match_numbers n s = Some (ds, t) \<Longrightarrow>
    s = dotted ds @ t \<and> all_numbers ds \<and> length ds = Suc n"
proof (induction n arbitrary: s ds)
  case 0
  then show ?case by (auto simp: match_numbers_0 all_numbers_def dest: set_takeWhileD)
next
  case (Suc n)
  let ?d = "takeWhile is_digit s" and ?r = "dropWhile is_digit s"
  obtain es where d: "?d \<noteq> []" and p: "has_prefix ?r ''.''"
    and es: "match_numbers n (drop 1 ?r) = Some (es, t)" "ds = ?d # es"
    using Suc.prems by (auto simp: match_numbers_Suc)
  note ih = Suc.IH [OF es(1)]
  have "?r = CHR ''.'' # drop 1 ?r" using p by (auto simp: has_prefix_iff)
  then have "?d @ ?r = ?d @ CHR ''.'' # dotted es @ t"
    using ih by simp
  then have "s = ?d @ CHR ''.'' # dotted es @ t" by (simp only: takeWhile_dropWhile_id)
  moreover obtain e es' where "es = e # es'" using ih by (cases es) auto
  ultimately show ?case
    using ih es(2) d by (auto simp: all_numbers_Cons dest: set_takeWhileD)
qed

lemma suffix_ok_not_digit: "suffix_ok t \<Longrightarrow> t = [] \<or> \<not> is_digit (hd t)"
  by (auto simp: suffix_ok_def is_digit_def split: list.splits)

lemma versionPattern_iff:
  "versionPattern s = Some (ds, t) \<longleftrightarrow>
     s = dotted ds @ t \<and> length ds = 4 \<and> all_numbers ds \<and> suffix_ok t"
proof
  assume "versionPattern s = Some (ds, t)"
  then have "match_numbers 3 s = Some (ds, t)" "suffix_ok t"
    by (auto simp: versionPattern_def split: option.splits if_splits)
  then show "s = dotted ds @ t \<and> length ds = 4 \<and> all_numbers ds \<and> suffix_ok t"
    using match_numbers_sound [of 3 s ds t] by simp
next
  assume "s = dotted ds @ t \<and> length ds = 4 \<and> all_numbers ds \<and> suffix_ok t"
  then show "versionPattern s = Some (ds, t)"
    using match_numbers_complete [of ds 3 t] suffix_ok_not_digit [of t]
    by (auto simp: versionPattern_def)
qed

lemma visible_digit: "is_digit c \<Longrightarrow> visible c"
  by (simp add: is_digit_def visible_def)

lemma visible_alnum: "is_alnum c \<Longrightarrow> visible c"
  by (auto simp: is_alnum_def is_digit_def visible_def)

lemma visible_separators: "c \<in> set ''._+-'' \<Longrightarrow> visible c"
  by (auto simp: visible_def)

lemma suffix_ok_visible: "suffix_ok t \<Longrightarrow> \<forall>c \<in> set t. visible c"
  by (auto simp: suffix_ok_def list_all_iff visible_alnum visible_separators split: list.splits)

lemma dotted_visible: "all_numbers ds \<Longrightarrow> \<forall>c \<in> set (dotted ds). visible c"
proof (induction ds rule: induct_list012)
  case (3 d e ds)
  then show ?case by (auto simp: all_numbers_Cons visible_digit) (simp add: visible_def)
qed (auto simp: all_numbers_Cons visible_digit)

lemma dotted_nonempty: "all_numbers ds \<Longrightarrow> ds \<noteq> [] \<Longrightarrow> dotted ds \<noteq> []"
  by (induction ds rule: induct_list012) (auto simp: all_numbers_Cons)

lemma versionPattern_trimmed:
  assumes "versionPattern s = Some (ds, t)" shows "s \<noteq> [] \<and> trim_space s = s"
proof -
  have s: "s = dotted ds @ t" "length ds = 4" "all_numbers ds" "suffix_ok t"
    using assms by (simp_all add: versionPattern_iff)
  have "ds \<noteq> []" using s(2) by auto
  then have ne: "s \<noteq> []" using s(1,3) dotted_nonempty [of ds] by auto
  have "\<forall>c \<in> set s. visible c"
    using s suffix_ok_visible [of t] dotted_visible [of ds] by auto
  with ne show ?thesis by (simp add: trim_space_visible)
qed

lemma parsePart_Inr: "parsePart v d = Inr w \<longleftrightarrow> dec_value d < 2 ^ 32 \<and> w = of_nat (dec_value d)"
  by (auto simp: parsePart_def parse_uint32_def)

lemma mapE_parsePart:
  "mapE (parsePart v) ds = Inr ws \<longleftrightarrow>
     (\<forall>d \<in> set ds. dec_value d < 2 ^ 32) \<and> ws = map (\<lambda>d. of_nat (dec_value d)) ds"
  by (induction ds arbitrary: ws) (auto simp: andThen_Inr parsePart_Inr)

lemma ParseVersion_iff:
  "ParseVersion s = Inr v \<longleftrightarrow>
     (\<exists>ds t. s = dotted ds @ t \<and> length ds = 4 \<and> all_numbers ds \<and> suffix_ok t
        \<and> (\<forall>d \<in> set ds. dec_value d < 2 ^ 32)
        \<and> v = \<lparr>vr_parts = map (\<lambda>d. of_nat (dec_value d)) ds, vr_suffix = t, vr_raw = s\<rparr>)"
    (is "_ \<longleftrightarrow> ?R")
proof
  assume l: "ParseVersion s = Inr v"
  then obtain ds t where p: "versionPattern s = Some (ds, t)"
    by (auto simp: ParseVersion_def split: if_splits option.splits)
  then have "andThen (mapE (parsePart s) ds) (\<lambda>parts. Inr \<lparr>vr_parts = parts, vr_suffix = t, vr_raw = s\<rparr>) = Inr v"
    using l versionPattern_trimmed [OF p] by (simp add: ParseVersion_def)
  with p show ?R
    by (auto simp: versionPattern_iff andThen_Inr mapE_parsePart)
next
  assume ?R
  then obtain ds t where p: "versionPattern s = Some (ds, t)"
    and d: "\<forall>d \<in> set ds. dec_value d < 2 ^ 32"
    and v: "v = \<lparr>vr_parts = map (\<lambda>d. of_nat (dec_value d)) ds, vr_suffix = t, vr_raw = s\<rparr>"
    by (auto simp: versionPattern_iff)
  show "ParseVersion s = Inr v"
    using versionPattern_trimmed [OF p] p d
    by (simp add: ParseVersion_def andThen_Inr mapE_parsePart v)
qed

lemma ParseVersion_wf: "ParseVersion s = Inr v \<Longrightarrow> version_wf v"
  by (auto simp: ParseVersion_iff version_wf_def)

lemma Core_numbers:
  "all_numbers (map (\<lambda>p. dec_digits (unat p)) ps)"
  by (auto simp: all_numbers_def dec_digits_digits)

lemma ParseVersion_Core:
  assumes "version_wf v" "suffix_ok t"
  shows "ParseVersion (Core v @ t) =
    Inr \<lparr>vr_parts = vr_parts v, vr_suffix = t, vr_raw = Core v @ t\<rparr>"
proof -
  have "dec_value (dec_digits (unat p)) < 2 ^ 32" for p :: "32 word"
    using unsigned_less [of p] by (simp add: dec_value_dec_digits)
  then show ?thesis
    using assms Core_numbers [of "vr_parts v"]
    by (auto simp: ParseVersion_iff Core_def version_wf_def dec_value_dec_digits o_def
        intro!: exI [of _ "map (\<lambda>p. dec_digits (unat p)) (vr_parts v)"])
qed

section \<open>The order of versions\<close>

lemma compareParts_iff:
  "length ps = length qs \<Longrightarrow>
    (compareParts ps qs < 0 \<longleftrightarrow> ps < qs) \<and> (compareParts ps qs \<le> 0 \<longleftrightarrow> ps \<le> qs)
    \<and> (compareParts ps qs = 0 \<longleftrightarrow> ps = qs) \<and> compareParts qs ps = - compareParts ps qs"
  by (induction ps qs rule: list_induct2) auto

lemma Compare_iff:
  assumes "version_wf v" "version_wf w"
  shows "Compare v w < 0 \<longleftrightarrow> vr_parts v < vr_parts w"
    and "Compare v w \<le> 0 \<longleftrightarrow> vr_parts v \<le> vr_parts w"
    and "Compare v w = 0 \<longleftrightarrow> vr_parts v = vr_parts w"
    and "Compare w v = - Compare v w"
  using assms compareParts_iff [of "vr_parts v" "vr_parts w"]
  by (simp_all add: Compare_def version_wf_def)

lemma Compare_ge_iff:
  "version_wf v \<Longrightarrow> version_wf w \<Longrightarrow> Compare v w \<ge> 0 \<longleftrightarrow> vr_parts w \<le> vr_parts v"
  using Compare_iff(1) [of v w] by (simp add: not_less [symmetric])

section \<open>Properties\<close>

text \<open>
  C11: \<open>ParseVersion\<close> accepts exactly the strings that are four decimal numbers
  below 2 to the 32 joined by dots, followed by nothing or by a suffix that starts with a separator
  and a letter or digit; what it returns are the numbers, the suffix and the string itself.
\<close>

theorem version_language:
  "ParseVersion s = Inr v \<longleftrightarrow>
     (\<exists>a b c d. s = a @ ''.'' @ b @ ''.'' @ c @ ''.'' @ d @ vr_suffix v
        \<and> all_numbers [a, b, c, d] \<and> suffix_ok (vr_suffix v) \<and> vr_raw v = s
        \<and> list_all (\<lambda>x. dec_value x < 2 ^ 32) [a, b, c, d]
        \<and> vr_parts v = map (\<lambda>x. of_nat (dec_value x)) [a, b, c, d])"
    (is "_ \<longleftrightarrow> ?R")
proof
  assume "ParseVersion s = Inr v"
  then obtain ds t where v: "s = dotted ds @ t" "length ds = 4" "all_numbers ds" "suffix_ok t"
      "\<forall>d \<in> set ds. dec_value d < 2 ^ 32"
      "v = \<lparr>vr_parts = map (\<lambda>d. of_nat (dec_value d)) ds, vr_suffix = t, vr_raw = s\<rparr>"
    unfolding ParseVersion_iff by blast
  obtain a b c d where "ds = [a, b, c, d]"
    using v(2) by (auto simp: eval_nat_numeral length_Suc_conv)
  with v show ?R
    by (intro exI [of _ a] exI [of _ b] exI [of _ c] exI [of _ d]) simp
next
  assume ?R
  then obtain a b c d where "s = dotted [a, b, c, d] @ vr_suffix v" "all_numbers [a, b, c, d]"
      "suffix_ok (vr_suffix v)" "vr_raw v = s" "list_all (\<lambda>x. dec_value x < 2 ^ 32) [a, b, c, d]"
      "vr_parts v = map (\<lambda>x. of_nat (dec_value x)) [a, b, c, d]"
    by auto
  then show "ParseVersion s = Inr v"
    unfolding ParseVersion_iff
    by (intro exI [of _ "[a, b, c, d]"] exI [of _ "vr_suffix v"]) (simp add: version.equality)
qed

text \<open>
  C12: printing a version with \<open>Core\<close>, with any admissible suffix added, and
  parsing it again gives back its four parts and that suffix, so it compares equal to the original.
\<close>

theorem version_roundtrip:
  assumes "version_wf v" "suffix_ok t"
  shows "\<exists>w. ParseVersion (Core v @ t) = Inr w \<and> vr_parts w = vr_parts v \<and> Suffix w = t
    \<and> version_string w = Core v @ t \<and> Core w = Core v \<and> Compare v w = 0"
  using ParseVersion_Core [OF assms] compareParts_iff [of "vr_parts v" "vr_parts v"]
  by (simp add: Suffix_def version_string_def Core_def Compare_def)

theorem version_roundtrip_witness:
  "\<exists>w. ParseVersion (Core \<lparr>vr_parts = [3, 8, 1, 4294967295], vr_suffix = [], vr_raw = []\<rparr> @ ''.7-b'') = Inr w
     \<and> Suffix w = ''.7-b''"
proof -
  have "suffix_ok ''.7-b''"
    by (simp add: suffix_ok_def is_alnum_def is_digit_def)
  then show ?thesis
    using version_roundtrip [of "\<lparr>vr_parts = [3, 8, 1, 4294967295], vr_suffix = [], vr_raw = []\<rparr>" "''.7-b''"]
    by (auto simp: version_wf_def suffix_ok_def)
qed

text \<open>
  C13: on parsed versions \<open>Compare\<close> is the lexicographic order of the four parts
  as unsigned numbers: it is antisymmetric in sign, transitive, total, and zero exactly on versions
  with the same parts, whatever their suffixes.
\<close>

theorem version_order:
  assumes "ParseVersion a = Inr u" "ParseVersion b = Inr v" "ParseVersion c = Inr w"
  shows "Compare v u = - Compare u v
    \<and> (Compare u v < 0 \<longleftrightarrow> map unat (vr_parts u) < map unat (vr_parts v))
    \<and> (Compare u v = 0 \<longleftrightarrow> Core u = Core v)
    \<and> (Compare u v < 0 \<and> Compare v w \<le> 0 \<longrightarrow> Compare u w < 0)
    \<and> (Compare u v \<le> 0 \<or> Compare v u \<le> 0)"
proof -
  note wf = assms [THEN ParseVersion_wf]
  have lex: "ps < qs \<longleftrightarrow> map unat ps < map unat qs" if "length ps = length qs" for ps qs :: "32 word list"
    using that by (induction ps qs rule: list_induct2) (auto simp: word_less_nat_alt word_unat_eq_iff)
  have core: "Core u = Core v \<longleftrightarrow> vr_parts u = vr_parts v"
  proof
    assume "Core u = Core v"
    then show "vr_parts u = vr_parts v"
      using ParseVersion_Core [OF wf(1), of "[]"] ParseVersion_Core [OF wf(2), of "[]"]
      by (simp add: suffix_ok_def)
  qed (simp add: Core_def)
  have len: "length (vr_parts u) = length (vr_parts v)" using wf by (simp add: version_wf_def)
  show ?thesis
  proof (intro conjI impI)
    show "Compare v u = - Compare u v" by (rule Compare_iff(4) [OF wf(1,2)])
    then show "Compare u v \<le> 0 \<or> Compare v u \<le> 0" by linarith
    show "Compare u v < 0 \<longleftrightarrow> map unat (vr_parts u) < map unat (vr_parts v)"
      by (simp only: Compare_iff(1) [OF wf(1,2)] lex [OF len])
    show "Compare u v = 0 \<longleftrightarrow> Core u = Core v"
      by (simp only: Compare_iff(3) [OF wf(1,2)] core)
    assume "Compare u v < 0 \<and> Compare v w \<le> 0"
    then show "Compare u w < 0"
      unfolding Compare_iff(1) [OF wf(1,2)] Compare_iff(2) [OF wf(2,3)] Compare_iff(1) [OF wf(1,3)]
      by (blast intro: less_le_trans)
  qed
qed

theorem version_order_witness:
  "\<exists>u v. ParseVersion ''3.8.1.10.x'' = Inr u \<and> ParseVersion ''3.8.1.9'' = Inr v
     \<and> Compare u v = - Compare v u \<and> Compare v u = -1"
proof -
  have u: "ParseVersion ''3.8.1.10.x'' =
      Inr \<lparr>vr_parts = [3, 8, 1, 10], vr_suffix = ''.x'', vr_raw = ''3.8.1.10.x''\<rparr>"
    unfolding ParseVersion_iff by (intro exI [of _ "[''3'', ''8'', ''1'', ''10'']"])
      (simp add: suffix_ok_def all_numbers_def is_digit_def is_alnum_def dec_value_def digit_val_def)
  have v: "ParseVersion ''3.8.1.9'' =
      Inr \<lparr>vr_parts = [3, 8, 1, 9], vr_suffix = [], vr_raw = ''3.8.1.9''\<rparr>"
    unfolding ParseVersion_iff by (intro exI [of _ "[''3'', ''8'', ''1'', ''9'']"])
      (simp add: suffix_ok_def all_numbers_def is_digit_def is_alnum_def dec_value_def digit_val_def)
  show ?thesis
    using version_order [OF v u u] u v by (simp add: Compare_def)
qed

end
