(* ===== verification/Profiles.thy ===== *)
theory Profiles
  imports Version Go_Net
begin

text \<open>
  internal/profile/profile.go: the compatibility contract of one range of ECS versions and its
  validation. Reading and decoding a profile file is a parameter, what Go's file system and
  JSON packages deliver for a path.
\<close>

section \<open>Data\<close>

definition SchemaVersion :: string where "SchemaVersion = ''1.0''"

definition validProfileIDs :: "string list" where
  "validProfileIDs = [''ecs-3.6'', ''ecs-3.7'', ''ecs-3.8.0'', ''ecs-3.8.1'']"

text \<open>The type is a string in Go, so a profile may hold a value that is none of the four.\<close>

datatype support = SupportNative | SupportDerived | SupportConditional | SupportUnavailable
  | SupportOther string

fun support_valid :: "support \<Rightarrow> bool" where
  "support_valid (SupportOther s) = False"
| "support_valid _ = True"

record version_contract =
  vc_min :: string
  vc_max :: string
  vc_parser :: string
  vc_documented :: "string list"
  vc_tested :: "string list"

record selection_contract =
  sl_api :: string
  sl_method :: string
  sl_path :: string
  sl_version_field :: string
  sl_mixed_policy :: string
  sl_unknown_policy :: string

record transport_contract =
  tc_scheme :: string
  tc_port :: int
  tc_login :: string
  tc_token_header :: string
  tc_whoami :: string
  tc_logout :: string
  tc_flux :: string
  tc_host_policy :: string

record known_issue =
  ki_id :: string
  ki_effect :: string
  ki_mitigation :: string

record evidence =
  ev_status :: string
  ev_sources :: "string list"
  ev_api_access :: string
  ev_fixtures :: string
  ev_policy :: string
  ev_shared :: "string list"
  ev_certified :: bool

text \<open>A Go map is an association list without duplicate keys, in the order of a range over it.\<close>

type_synonym capabilities = "(string \<times> support) list"

record profile =
  pr_schema :: string
  pr_id :: string
  pr_version :: version_contract
  pr_selection :: selection_contract
  pr_transport :: transport_contract
  pr_capabilities :: capabilities
  pr_issues :: "known_issue list"
  pr_evidence :: evidence
  pr_min :: version
  pr_max :: version

section \<open>Validation\<close>

definition Supports :: "profile \<Rightarrow> version \<Rightarrow> bool" where
  "Supports p v \<longleftrightarrow> Compare v (pr_min p) \<ge> 0 \<and> Compare v (pr_max p) < 0"

definition validateVersions :: "profile \<Rightarrow> string \<Rightarrow> string list \<Rightarrow> unit result" where
  "validateVersions p field vs =
     andThen (foldE (\<lambda>value seen.
        if value \<in> set seen then Inl (Errorf ''version.%s contains duplicate %q'' [field, value])
        else andThen (wrap_error ''version.%s contains invalid value: %w'' [field] (ParseVersion value))
          (\<lambda>version.
             if Supports p version then Inr (value # seen)
             else Inl (Errorf ''version.%s value %q is outside the profile range'' [field, value])))
        vs [])
      (\<lambda>_. Inr ())"

definition validPolicies :: "string list" where
  "validPolicies =
     [''legacy'', ''accepted-server-names-required-for-proxy'', ''conditional-or-persisted'']"

definition validateTransport :: "transport_contract \<Rightarrow> unit result" where
  "validateTransport t = checks
     [require (tc_scheme t = ''https'') (Msg ''transport.scheme must be https''),
      require (tc_port t = 4443) (Msg ''transport.management_port must be 4443''),
      require (tc_login t = ''/login'') (Msg ''transport.login_path must be /login''),
      require (tc_token_header t = ''X-SDS-AUTH-TOKEN'') (Msg ''transport.token_header is unsupported''),
      require (tc_whoami t = ''/user/whoami'') (Msg ''transport.whoami_path must be /user/whoami''),
      require (tc_logout t = ''/logout'') (Msg ''transport.logout_path must be /logout''),
      require (tc_flux t = ''/flux/api/external/v2/query'') (Msg ''transport.flux_query_path is unsupported''),
      require (tc_host_policy t \<in> set validPolicies)
        (Errorf ''transport.host_header_policy %q is unsupported'' [tc_host_policy t])]"

definition validateKnownIssues :: "known_issue list \<Rightarrow> unit result" where
  "validateKnownIssues issues =
     andThen (foldE (\<lambda>issue seen.
        if ki_id issue = [] \<or> ki_effect issue = [] \<or> ki_mitigation issue = []
        then Inl (Msg ''known issue id, effect, and mitigation are required'')
        else if ki_id issue \<in> set seen then Inl (Errorf ''duplicate known issue %q'' [ki_id issue])
        else Inr (ki_id issue # seen)) issues [])
      (\<lambda>_. Inr ())"

definition validSource :: "string \<Rightarrow> bool" where
  "validSource source =
     (case ParseRequestURI source of
        None \<Rightarrow> False
      | Some parsed \<Rightarrow> url_scheme parsed = ''https'' \<and> url_host parsed \<noteq> [])"

definition validateSources :: "string list \<Rightarrow> unit result" where
  "validateSources sources =
     andThen (foldE (\<lambda>source seen.
        if \<not> validSource source
        then Inl (Errorf ''evidence source %q must be an absolute HTTPS URL'' [source])
        else if source \<in> set seen then Inl (Errorf ''duplicate evidence source %q'' [source])
        else Inr (source # seen)) sources [])
      (\<lambda>_. Inr ())"

definition validateShared :: "string list \<Rightarrow> unit result" where
  "validateShared shared =
     andThen (foldE (\<lambda>capability seen.
        if trim_space capability = [] then Inl (Msg ''shared validated capability must not be empty'')
        else if capability \<in> set seen
        then Inl (Errorf ''duplicate shared validated capability %q'' [capability])
        else Inr (capability # seen)) shared [])
      (\<lambda>_. Inr ())"

definition validateCertification :: "evidence \<Rightarrow> unit result" where
  "validateCertification e =
     (if ev_certified e then checks
        [require (ev_status e = ''sandbox-verified'')
           (Msg ''sandbox_certified profile must have sandbox-verified evidence status''),
         require (ev_fixtures e = ''redacted-sandbox-derived'')
           (Msg ''sandbox_certified profile must use redacted sandbox fixtures''),
         require (ev_api_access e = ''downloaded-and-reviewed'')
           (Msg ''sandbox_certified profile requires a reviewed API reference'')]
      else require (\<not> (ev_status e = ''sandbox-verified'' \<or> ev_fixtures e = ''redacted-sandbox-derived''))
        (Msg ''sandbox evidence cannot be declared without sandbox certification''))"

definition validateEvidence :: "evidence \<Rightarrow> unit result" where
  "validateEvidence e = checks
     [require (ev_status e \<in> {''documentation-verified'', ''documentation-partial'', ''sandbox-verified''})
        (Errorf ''evidence.status %q is unsupported'' [ev_status e]),
      require (ev_sources e \<noteq> []) (Msg ''evidence.official_sources must not be empty''),
      validateSources (ev_sources e),
      require (ev_api_access e \<in> {''downloaded-and-reviewed'', ''listed-by-dell-login-required''})
        (Errorf ''evidence.api_reference_access %q is unsupported'' [ev_api_access e]),
      require (ev_fixtures e \<in> {''synthetic-document-derived'', ''redacted-sandbox-derived''})
        (Errorf ''evidence.fixture_classification %q is unsupported'' [ev_fixtures e]),
      require (ev_policy e = ''shared-live-any-target-version'')
        (Errorf ''evidence.feature_validation_policy must be %q'' [''shared-live-any-target-version'']),
      require (ev_shared e \<noteq> []) (Msg ''evidence.shared_validated_capabilities must not be empty''),
      validateShared (ev_shared e),
      validateCertification e]"

definition validateCapabilities :: "capabilities \<Rightarrow> unit result" where
  "validateCapabilities caps = checks (map (\<lambda>(name, support).
     if trim_space name = [] then Inl (Msg ''capability name must not be empty'')
     else if \<not> support_valid support
     then Inl (Errorf ''capability %q has unsupported value %q'' [name])
     else Inr ()) caps)"

definition sharedDeclared :: "capabilities \<Rightarrow> string list \<Rightarrow> unit result" where
  "sharedDeclared caps shared = checks (map (\<lambda>capability.
     case map_of caps capability of
       None \<Rightarrow> Inl (Errorf ''shared validated capability %q is not declared'' [capability])
     | Some support \<Rightarrow>
         (if support = SupportUnavailable
          then Inl (Errorf ''shared validated capability %q is unavailable'' [capability])
          else Inr ())) shared)"

definition selectionSupported :: "selection_contract \<Rightarrow> bool" where
  "selectionSupported s \<longleftrightarrow>
     sl_api s = ''version-discovery'' \<and> sl_method s = ''GET'' \<and> sl_path s = ''/vdc/nodes''
     \<and> sl_version_field s = ''node[].version''
     \<and> sl_mixed_policy s = ''intersection-only-no-interval-derived-rates''
     \<and> sl_unknown_policy s = ''reject''"

text \<open>The part of \<open>validate\<close> that runs once the range is known.\<close>

definition validateContents :: "profile \<Rightarrow> unit result" where
  "validateContents p = checks
     [validateVersions p ''documented_releases'' (vc_documented (pr_version p)),
      validateVersions p ''tested_builds'' (vc_tested (pr_version p)),
      require (\<not> (ev_certified (pr_evidence p) \<and> vc_tested (pr_version p) = []))
        (Msg ''sandbox_certified profile must contain at least one tested_build''),
      require (selectionSupported (pr_selection p))
        (Msg ''selection contract does not match the supported bootstrap policy''),
      validateTransport (pr_transport p),
      require (pr_capabilities p \<noteq> []) (Msg ''capabilities must not be empty''),
      validateCapabilities (pr_capabilities p),
      validateKnownIssues (pr_issues p),
      validateEvidence (pr_evidence p),
      sharedDeclared (pr_capabilities p) (ev_shared (pr_evidence p))]"

text \<open>\<open>validate\<close> also fills in the parsed range, so it returns the profile.\<close>

definition validate :: "profile \<Rightarrow> profile result" where
  "validate p =
     andThen (checks
       [require (pr_schema p = SchemaVersion) (Errorf ''schema_version must be %q'' [SchemaVersion]),
        require (pr_id p \<in> set validProfileIDs) (Errorf ''profile_id %q is unsupported'' [pr_id p]),
        require (vc_parser (pr_version p) = ''dell-four-part-with-optional-build-suffix'')
          (Errorf ''version.parser must be %q'' [''dell-four-part-with-optional-build-suffix''])]) (\<lambda>_.
     andThen (wrap_error ''version.min_inclusive: %w'' [] (ParseVersion (vc_min (pr_version p)))) (\<lambda>minVersion.
     andThen (wrap_error ''version.max_exclusive: %w'' [] (ParseVersion (vc_max (pr_version p)))) (\<lambda>maxVersion.
       if Suffix minVersion \<noteq> [] \<or> Suffix maxVersion \<noteq> []
       then Inl (Msg ''profile range boundaries must not contain build suffixes'')
       else if Compare minVersion maxVersion \<ge> 0 then Inl (Msg ''version range must be non-empty'')
       else let q = p\<lparr>pr_min := minVersion, pr_max := maxVersion\<rparr>
            in andThen (validateContents q) (\<lambda>_. Inr q))))"

definition loadProfile :: "(string \<Rightarrow> profile result) \<Rightarrow> string \<Rightarrow> profile result" where
  "loadProfile decode path =
     andThen (decode path) (\<lambda>value. wrap_error ''validate profile: %w'' [] (validate value))"

text \<open>
  The directory's entries, with whether each is a directory; an entry's name has no slash, so
  its extension is \<open>.json\<close> when the name ends so.
\<close>

definition profileFiles :: "(string \<Rightarrow> (string \<times> bool) list result) \<Rightarrow> string \<Rightarrow> string list result" where
  "profileFiles readDir dir =
     andThen (wrap_error ''read profiles directory: %w'' [] (readDir dir)) (\<lambda>entries.
       let paths = sort (map (\<lambda>(name, isDir). dir @ ''/'' @ name)
             (filter (\<lambda>(name, isDir). \<not> isDir \<and> has_prefix name ''ecs-'' \<and> has_suffix name ''.json'') entries))
       in if paths = [] then Inl (Errorf ''no ecs-*.json profiles found in %s'' [dir]) else Inr paths)"

section \<open>Lemmas\<close>

lemma foldE_seen_Inr:
  assumes "\<And>x seen r. f x seen = Inr r \<longleftrightarrow> P x \<and> key x \<notin> set seen \<and> r = key x # seen"
  shows "foldE f xs seen = Inr r \<longleftrightarrow>
    (\<forall>x \<in> set xs. P x \<and> key x \<notin> set seen) \<and> distinct (map key xs) \<and> r = rev (map key xs) @ seen"
  by (induction xs arbitrary: seen) (auto simp: andThen_Inr assms image_iff)

lemma validateVersions_Inr:
  "validateVersions p field vs = Inr u \<longleftrightarrow>
     distinct vs \<and> (\<forall>s \<in> set vs. \<exists>v. ParseVersion s = Inr v \<and> Supports p v)"
  unfolding validateVersions_def andThen_Inr
  by (subst foldE_seen_Inr [where key = "\<lambda>x. x" and P = "\<lambda>s. \<exists>v. ParseVersion s = Inr v \<and> Supports p v"])
    (auto simp: andThen_Inr split: if_splits)

lemma validate_Inr:
  "validate p = Inr q \<longleftrightarrow>
     pr_schema p = SchemaVersion \<and> pr_id p \<in> set validProfileIDs
     \<and> vc_parser (pr_version p) = ''dell-four-part-with-optional-build-suffix''
     \<and> ParseVersion (vc_min (pr_version p)) = Inr (pr_min q)
     \<and> ParseVersion (vc_max (pr_version p)) = Inr (pr_max q)
     \<and> Suffix (pr_min q) = [] \<and> Suffix (pr_max q) = []
     \<and> Compare (pr_min q) (pr_max q) < 0 \<and> validateContents q = Inr ()
     \<and> q = p\<lparr>pr_min := pr_min q, pr_max := pr_max q\<rparr>" (is "_ \<longleftrightarrow> ?R")
proof
  assume "validate p = Inr q"
  then show ?R
    by (auto simp: validate_def andThen_Inr checks_Inr Let_def split: if_splits)
next
  assume r: ?R
  then have "p\<lparr>pr_min := pr_min q, pr_max := pr_max q\<rparr> = q" by metis
  with r show "validate p = Inr q"
    by (simp add: validate_def andThen_Inr checks_Inr not_le)
qed

lemma validateContents_versions:
  assumes "validateContents q = Inr ()"
    and "s \<in> set (vc_documented (pr_version q)) \<union> set (vc_tested (pr_version q))"
  shows "\<exists>v. ParseVersion s = Inr v \<and> Supports q v"
  using assms by (auto simp: validateContents_def checks_Inr validateVersions_Inr)

end
