(* ===== verification/Catalog.thy ===== *)
theory Catalog
  imports Profiles
begin

text \<open>
  internal/profile/catalog.go: the set of loaded profiles, the match of a version, and the
  resolution of a cluster's node versions to the capabilities its profiles share.
\<close>

section \<open>Model\<close>

record catalog =
  ct_profiles :: "profile list"

record resolution =
  rs_ids :: "string list"
  rs_mixed :: bool
  rs_capabilities :: capabilities

definition minCompare :: "profile \<Rightarrow> profile \<Rightarrow> int" where
  "minCompare left right = Compare (pr_min left) (pr_min right)"

fun checkOverlap :: "profile list \<Rightarrow> unit result" where
  "checkOverlap (p # q # ps) =
     (if Compare (pr_min q) (pr_max p) < 0
      then Inl (Errorf ''profile ranges overlap: %s and %s'' [pr_id p, pr_id q])
      else checkOverlap (q # ps))"
| "checkOverlap _ = Inr ()"

definition loadOne :: "(string \<Rightarrow> profile result) \<Rightarrow> string \<Rightarrow> profile list \<Rightarrow> profile list result" where
  "loadOne decode path profiles =
     andThen (wrap_error ''%s: %w'' [path] (loadProfile decode path)) (\<lambda>value.
       if pr_id value \<in> set (map pr_id profiles) then Inl (Errorf ''duplicate profile_id %q'' [pr_id value])
       else Inr (profiles @ [value]))"

definition LoadDir :: "(string \<Rightarrow> (string \<times> bool) list result) \<Rightarrow> (string \<Rightarrow> profile result) \<Rightarrow> string
    \<Rightarrow> catalog result" where
  "LoadDir readDir decode dir =
     andThen (profileFiles readDir dir) (\<lambda>paths.
     andThen (foldE (loadOne decode) paths []) (\<lambda>loaded.
       let profiles = sort_func minCompare loaded
       in andThen (checkOverlap profiles) (\<lambda>_. Inr \<lparr>ct_profiles = profiles\<rparr>)))"

definition cloneCapabilities :: "capabilities \<Rightarrow> capabilities" where
  "cloneCapabilities source = fold (\<lambda>(name, support) result. AList.update name support result) source []"

definition cloneProfile :: "profile \<Rightarrow> profile" where
  "cloneProfile source = source\<lparr>
     pr_version := (pr_version source)\<lparr>vc_documented := vc_documented (pr_version source),
       vc_tested := vc_tested (pr_version source)\<rparr>,
     pr_capabilities := cloneCapabilities (pr_capabilities source),
     pr_issues := pr_issues source,
     pr_evidence := (pr_evidence source)\<lparr>ev_sources := ev_sources (pr_evidence source),
       ev_shared := ev_shared (pr_evidence source)\<rparr>\<rparr>"

definition Profiles_copy :: "catalog \<Rightarrow> profile list" where
  "Profiles_copy c = map cloneProfile (ct_profiles c)"

definition Match :: "catalog \<Rightarrow> version \<Rightarrow> profile result" where
  "Match c v =
     (case find (\<lambda>candidate. Supports candidate v) (ct_profiles c) of
        Some candidate \<Rightarrow> Inr (cloneProfile candidate)
      | None \<Rightarrow> Inl (Errorf ''unsupported ECS version %q'' [version_string v]))"

definition intersectSupport :: "support \<Rightarrow> support \<Rightarrow> support" where
  "intersectSupport left right =
     (if left = right then left
      else if left = SupportUnavailable \<or> right = SupportUnavailable then SupportUnavailable
      else SupportConditional)"

text \<open>The loop over the node versions: the ids seen and the profiles selected, in order.\<close>

definition selectStep :: "catalog \<Rightarrow> nat \<times> string \<Rightarrow> string list \<times> profile list
    \<Rightarrow> (string list \<times> profile list) result" where
  "selectStep c node acc =
     (case node of (index, raw) \<Rightarrow> case acc of (seen, selected) \<Rightarrow>
        andThen (wrap_error ''node version %d: %w'' [dec_digits index] (ParseVersion raw)) (\<lambda>version.
        andThen (wrap_error ''node version %d: %w'' [dec_digits index] (Match c version)) (\<lambda>matched.
          if pr_id matched \<in> set seen then Inr (seen, selected)
          else Inr (seen @ [pr_id matched], selected @ [matched]))))"

definition intersectOne :: "profile \<Rightarrow> capabilities \<Rightarrow> capabilities" where
  "intersectOne current caps = map (\<lambda>(name, support).
     case map_of (pr_capabilities current) name of
       None \<Rightarrow> (name, SupportUnavailable)
     | Some other \<Rightarrow> (name, intersectSupport support other)) caps"

definition resolveSelected :: "profile list \<Rightarrow> resolution" where
  "resolveSelected selected =
     (let sorted = sort_func minCompare selected;
          shared = fold intersectOne (tl sorted) (cloneCapabilities (pr_capabilities (hd sorted)));
          mixed = 1 < length sorted;
          capabilities =
            (if mixed then AList.update ''flux_interval_rates'' SupportUnavailable shared else shared)
      in \<lparr>rs_ids = map pr_id sorted, rs_mixed = mixed, rs_capabilities = capabilities\<rparr>)"

definition Resolve :: "catalog \<Rightarrow> string list \<Rightarrow> resolution result" where
  "Resolve c nodeVersions =
     (if nodeVersions = [] then Inl (Msg ''node version list is empty'')
      else andThen (foldE (selectStep c) (zip [0..<length nodeVersions] nodeVersions) ([], []))
        (\<lambda>(seen, selected). Inr (resolveSelected selected)))"

definition Summary :: "catalog \<Rightarrow> string" where
  "Summary c = join_with '','' (map pr_id (ct_profiles c))"

section \<open>Support as a semilattice\<close>

text \<open>
  The order of how much a capability can be relied on: unavailable below conditional below every
  other value. \<open>intersectSupport\<close> is its infimum.
\<close>

instantiation support :: "{semilattice_inf, order_bot}"
begin

definition inf_support :: "support \<Rightarrow> support \<Rightarrow> support" where
  "inf_support = intersectSupport"

definition less_eq_support :: "support \<Rightarrow> support \<Rightarrow> bool" where
  "x \<le> y \<longleftrightarrow> x = y \<or> x = SupportUnavailable \<or> (x = SupportConditional \<and> y \<noteq> SupportUnavailable)"

definition less_support :: "support \<Rightarrow> support \<Rightarrow> bool" where
  "x < y \<longleftrightarrow> x \<le> y \<and> \<not> y \<le> (x :: support)"

definition bot_support :: support where
  "bot_support = SupportUnavailable"

instance
proof
  fix x y z :: support
  show "x < y \<longleftrightarrow> x \<le> y \<and> \<not> y \<le> x" by (rule less_support_def)
  show "x \<le> x" by (simp add: less_eq_support_def)
  show "x \<le> z" if "x \<le> y" "y \<le> z" using that by (auto simp: less_eq_support_def)
  show "x = y" if "x \<le> y" "y \<le> x" using that by (auto simp: less_eq_support_def)
  show "inf x y \<le> x" "inf x y \<le> y"
    by (simp_all add: less_eq_support_def inf_support_def intersectSupport_def)
  show "x \<le> inf y z" if "x \<le> y" "x \<le> z"
    using that by (auto simp: less_eq_support_def inf_support_def intersectSupport_def)
  show "bot \<le> x" by (simp add: less_eq_support_def bot_support_def)
qed

end

section \<open>Catalogs that load\<close>

definition profile_ok :: "profile \<Rightarrow> bool" where
  "profile_ok p \<longleftrightarrow>
     version_wf (pr_min p) \<and> version_wf (pr_max p) \<and> vr_parts (pr_min p) < vr_parts (pr_max p)
     \<and> validateContents p = Inr ()
     \<and> distinct (map fst (pr_capabilities p))"

text \<open>Ranges in ascending order that do not overlap, and distinct ids.\<close>

definition catalog_ok :: "catalog \<Rightarrow> bool" where
  "catalog_ok c \<longleftrightarrow>
     list_all profile_ok (ct_profiles c) \<and> distinct (map pr_id (ct_profiles c))
     \<and> sorted_wrt (\<lambda>p q. vr_parts (pr_max p) \<le> vr_parts (pr_min q)) (ct_profiles c)"

text \<open>A decoded JSON object becomes a Go map, which has one value per key.\<close>

definition decodes_maps :: "(string \<Rightarrow> profile result) \<Rightarrow> bool" where
  "decodes_maps decode \<longleftrightarrow> (\<forall>path p. decode path = Inr p \<longrightarrow> distinct (map fst (pr_capabilities p)))"

lemma cloneCapabilities_id:
  assumes "distinct (map fst caps)" shows "cloneCapabilities caps = caps"
proof -
  have u: "k \<notin> fst ` set ys \<Longrightarrow> AList.update k v ys = ys @ [(k, v)]" for k v and ys :: capabilities
    by (induction ys) auto
  have "distinct (map fst (ys @ xs)) \<Longrightarrow>
      fold (\<lambda>(name, support) result. AList.update name support result) xs ys = ys @ xs" for xs ys :: capabilities
    by (induction xs arbitrary: ys) (auto simp: u)
  from this [of "[]" caps] show ?thesis using assms by (simp add: cloneCapabilities_def)
qed

lemma cloneProfile_id: "distinct (map fst (pr_capabilities p)) \<Longrightarrow> cloneProfile p = p"
  by (simp add: cloneProfile_def cloneCapabilities_id)

lemma loadProfile_ok:
  assumes "loadProfile decode path = Inr p" "decodes_maps decode"
  shows "profile_ok p"
proof -
  obtain v where v: "decode path = Inr v" "validate v = Inr p"
    using assms(1) by (auto simp: loadProfile_def andThen_Inr)
  note ok = v(2) [unfolded validate_Inr]
  have wf: "version_wf (pr_min p)" "version_wf (pr_max p)"
    using ok by (blast intro: ParseVersion_wf)+
  have "pr_capabilities p = pr_capabilities v"
    using ok by (metis (no_types, lifting) profile.select_convs(6) profile.surjective profile.update_convs(9,10))
  moreover have "distinct (map fst (pr_capabilities v))"
    using v(1) assms(2) by (simp add: decodes_maps_def)
  moreover have "vr_parts (pr_min p) < vr_parts (pr_max p)"
    using ok Compare_iff(1) [OF wf] by blast
  ultimately show ?thesis
    using ok wf by (simp add: profile_ok_def)
qed

lemma loadOne_Inr:
  "loadOne decode path ps = Inr qs \<longleftrightarrow>
     (\<exists>p. loadProfile decode path = Inr p \<and> pr_id p \<notin> pr_id ` set ps \<and> qs = ps @ [p])"
  by (auto simp: loadOne_def andThen_Inr)

lemma load_all:
  assumes "foldE (loadOne decode) paths [] = Inr ps" "decodes_maps decode"
  shows "list_all profile_ok ps \<and> distinct (map pr_id ps)"
  using assms(1)
proof (induction rule: foldE_rule)
  case (step ys y u v)
  then show ?case
    using loadProfile_ok [OF _ assms(2)] by (auto simp: loadOne_Inr)
qed simp

lemma checkOverlap_Inr:
  assumes "list_all profile_ok ps" "checkOverlap ps = Inr ()"
  shows "sorted_wrt (\<lambda>p q. vr_parts (pr_max p) \<le> vr_parts (pr_min q)) ps"
  using assms
proof (induction ps rule: checkOverlap.induct)
  case (1 p q ps)
  have pq: "vr_parts (pr_max p) \<le> vr_parts (pr_min q)"
    using 1 Compare_ge_iff [of "pr_min q" "pr_max p"]
    by (auto simp: profile_ok_def not_less split: if_splits)
  have rest: "sorted_wrt (\<lambda>p q. vr_parts (pr_max p) \<le> vr_parts (pr_min q)) (q # ps)"
    using 1 by (auto split: if_splits)
  have "vr_parts (pr_min q) \<le> vr_parts (pr_min r)" if "r \<in> set ps" for r
    using rest that 1(2) by (auto simp: profile_ok_def)
  with pq rest show ?case by (auto intro: order_trans)
qed auto

lemma LoadDir_ok:
  assumes "LoadDir readDir decode dir = Inr c" "decodes_maps decode"
  shows "catalog_ok c"
proof -
  obtain paths where "andThen (foldE (loadOne decode) paths []) (\<lambda>loaded.
      let profiles = sort_func minCompare loaded
      in andThen (checkOverlap profiles) (\<lambda>_. Inr \<lparr>ct_profiles = profiles\<rparr>)) = Inr c"
    using assms(1) unfolding LoadDir_def andThen_Inr [of "profileFiles readDir dir"] by (elim exE conjE)
  then obtain ps where l: "foldE (loadOne decode) paths [] = Inr ps"
    and r: "andThen (checkOverlap (sort_func minCompare ps)) (\<lambda>_. Inr \<lparr>ct_profiles = sort_func minCompare ps\<rparr>) = Inr c"
    unfolding andThen_Inr [of "foldE (loadOne decode) paths []"] Let_def by (elim exE conjE)
  from r have o: "checkOverlap (sort_func minCompare ps) = Inr ()"
    and c: "c = \<lparr>ct_profiles = sort_func minCompare ps\<rparr>"
    by (cases "checkOverlap (sort_func minCompare ps)"; simp)+
  note ok = load_all [OF l assms(2)]
  have "list_all profile_ok (sort_func minCompare ps)"
    using ok by (simp add: list_all_iff)
  moreover have "distinct (map pr_id (sort_func minCompare ps))"
    using ok by (metis mset_eq_imp_distinct_iff mset_map mset_sort_func)
  ultimately show ?thesis
    using o by (simp add: catalog_ok_def c checkOverlap_Inr)
qed

section \<open>Matching\<close>

lemma Supports_iff:
  "profile_ok p \<Longrightarrow> version_wf v \<Longrightarrow>
    Supports p v \<longleftrightarrow> vr_parts (pr_min p) \<le> vr_parts v \<and> vr_parts v < vr_parts (pr_max p)"
  by (simp add: Supports_def profile_ok_def Compare_iff(1) Compare_ge_iff)

lemma disjoint_ranges:
  assumes "sorted_wrt (\<lambda>p q. vr_parts (pr_max p) \<le> vr_parts (pr_min q)) ps" "list_all profile_ok ps"
    "p \<in> set ps" "q \<in> set ps" "version_wf v" "Supports p v" "Supports q v"
  shows "p = q"
  using assms
proof (induction ps)
  case (Cons r rs)
  have "\<not> (Supports a v \<and> Supports r v)" if "a \<in> set rs" for a
  proof
    assume s: "Supports a v \<and> Supports r v"
    have "profile_ok a" "profile_ok r" "vr_parts (pr_max r) \<le> vr_parts (pr_min a)"
      using that Cons.prems by (auto simp: list_all_iff)
    then show False using s Cons.prems(5) by (auto simp: Supports_iff)
  qed
  with Cons show ?case by auto
qed simp

lemma Match_iff:
  assumes ok: "catalog_ok c" and v: "version_wf v"
  shows "Match c v = Inr p \<longleftrightarrow> p \<in> set (ct_profiles c) \<and> Supports p v"
proof -
  have clone: "cloneProfile q = q" if "q \<in> set (ct_profiles c)" for q
    using that ok by (auto simp: catalog_ok_def list_all_iff profile_ok_def intro: cloneProfile_id)
  have uniq: "q = r" if "q \<in> set (ct_profiles c)" "r \<in> set (ct_profiles c)" "Supports q v" "Supports r v" for q r
    using disjoint_ranges [of "ct_profiles c" q r v] that ok v by (simp add: catalog_ok_def)
  show ?thesis
  proof (cases "find (\<lambda>q. Supports q v) (ct_profiles c)")
    case None
    then show ?thesis by (simp add: Match_def) (simp add: find_None_iff)
  next
    case (Some q)
    then have "q \<in> set (ct_profiles c)" "Supports q v"
      by (auto simp: find_Some_iff)
    with Some clone uniq show ?thesis by (auto simp: Match_def)
  qed
qed

section \<open>Resolving\<close>

text \<open>The profile a node's version string selects.\<close>

definition selects :: "catalog \<Rightarrow> string \<Rightarrow> profile \<Rightarrow> bool" where
  "selects c raw p \<longleftrightarrow>
     p \<in> set (ct_profiles c) \<and> (\<exists>v. ParseVersion raw = Inr v \<and> Supports p v)"

text \<open>A capability a profile does not name is unavailable.\<close>

definition capability :: "capabilities \<Rightarrow> string \<Rightarrow> support" where
  "capability caps name = (case map_of caps name of None \<Rightarrow> SupportUnavailable | Some s \<Rightarrow> s)"

lemma selects_unique:
  assumes "catalog_ok c" "selects c raw p" "selects c raw q" shows "p = q"
proof -
  obtain v where "ParseVersion raw = Inr v" "Supports p v" "Supports q v"
    using assms(2,3) by (auto simp: selects_def)
  then show ?thesis
    using assms disjoint_ranges [of "ct_profiles c" p q v] ParseVersion_wf [of raw v]
    by (simp add: selects_def catalog_ok_def)
qed

lemma id_unique:
  assumes "catalog_ok c" "p \<in> set (ct_profiles c)" "q \<in> set (ct_profiles c)" "pr_id p = pr_id q"
  shows "p = q"
  using assms by (auto simp: catalog_ok_def distinct_map inj_on_def)

lemma selectStep_Inr:
  assumes "catalog_ok c"
  shows "selectStep c (i, raw) (seen, sel) = Inr y \<longleftrightarrow>
    (\<exists>p. selects c raw p \<and>
       y = (if pr_id p \<in> set seen then (seen, sel) else (seen @ [pr_id p], sel @ [p])))"
  using Match_iff [OF assms] ParseVersion_wf
  by (auto simp: selectStep_def andThen_Inr selects_def split: if_splits)

lemma select_loop:
  assumes c: "catalog_ok c" and r: "foldE (selectStep c) xs ([], []) = Inr (seen, sel)"
  shows "seen = map pr_id sel \<and> distinct (map pr_id sel)
    \<and> set sel = {p. \<exists>(i, raw) \<in> set xs. selects c raw p}
    \<and> (\<forall>(i, raw) \<in> set xs. \<exists>p. selects c raw p)"
proof -
  let ?P = "\<lambda>ys acc. fst acc = map pr_id (snd acc) \<and> distinct (map pr_id (snd acc))
    \<and> set (snd acc) = {p. \<exists>(i, raw) \<in> set ys. selects c raw p}
    \<and> (\<forall>(i, raw) \<in> set ys. \<exists>p. selects c raw p)"
  have "?P xs (seen, sel)"
    using r
  proof (induction rule: foldE_rule)
    case start
    then show ?case by simp
  next
    case (step ys y u v)
    obtain i raw where y: "y = (i, raw)" by fastforce
    obtain p where p: "selects c raw p"
      "v = (if pr_id p \<in> set (fst u) then u else (fst u @ [pr_id p], snd u @ [p]))"
      using step(3) selectStep_Inr [OF c, of i raw "fst u" "snd u" v] by (auto simp: y)
    have only: "selects c raw q \<longleftrightarrow> q = p" for q
      using selects_unique [OF c] p(1) by blast
    have new: "{q. \<exists>(i, raw) \<in> set (ys @ [y]). selects c raw q} = insert p (set (snd u))"
      using step(1) by (auto simp: y only)
    have all: "\<forall>(i, raw) \<in> set (ys @ [y]). \<exists>p. selects c raw p"
      using step(1) p(1) by (auto simp: y)
    have mem: "pr_id p \<in> set (map pr_id (snd u)) \<longleftrightarrow> p \<in> set (snd u)"
    proof
      assume "pr_id p \<in> set (map pr_id (snd u))"
      then obtain x where x: "x \<in> set (snd u)" "pr_id p = pr_id x" by auto
      then obtain i raw where "selects c raw x" using step(1) by auto
      then show "p \<in> set (snd u)"
        using x p(1) id_unique [OF c, of p x] by (simp add: selects_def)
    qed simp
    show ?case
      using step(1) p(2) new all mem by (auto simp: insert_absorb split: if_splits)
  qed
  then show ?thesis by simp
qed

lemma select_loop_total:
  assumes c: "catalog_ok c" and s: "\<forall>(i, raw) \<in> set xs. \<exists>p. selects c raw p"
  shows "\<exists>seen sel. foldE (selectStep c) xs ([], []) = Inr (seen, sel)"
proof -
  have "\<exists>t. foldE (selectStep c) xs ([], []) = Inr t \<and> True"
  proof (rule foldE_total)
    fix x and u :: "string list \<times> profile list" assume "x \<in> set xs"
    with s obtain p where p: "selects c (snd x) p" by fastforce
    have "selectStep c (fst x, snd x) (fst u, snd u) = Inr (if pr_id p \<in> set (fst u)
        then (fst u, snd u) else (fst u @ [pr_id p], snd u @ [p]))"
      using selectStep_Inr [OF c] p by blast
    then show "\<exists>v. selectStep c x u = Inr v \<and> True" by auto
  qed simp
  then show ?thesis by auto
qed

lemma min_parts_distinct:
  assumes "list_all profile_ok ps"
    "sorted_wrt (\<lambda>p q. vr_parts (pr_max p) \<le> vr_parts (pr_min q)) ps"
  shows "sorted_wrt (\<lambda>p q. vr_parts (pr_min p) < vr_parts (pr_min q)) ps"
  using assms
proof (induction ps)
  case (Cons p ps)
  then show ?case by (auto simp: profile_ok_def list_all_iff intro: less_le_trans)
qed simp

text \<open>Sorting a selection of a catalog's profiles puts them in catalog order.\<close>

lemma sort_selected:
  assumes c: "catalog_ok c" and d: "distinct sel" and s: "set sel \<subseteq> set (ct_profiles c)"
  shows "sort_func minCompare sel = filter (\<lambda>p. p \<in> set sel) (ct_profiles c)"
proof -
  let ?key = "\<lambda>p. vr_parts (pr_min p)"
  have ok: "list_all profile_ok (ct_profiles c)"
    and asc: "sorted_wrt (\<lambda>p q. ?key p < ?key q) (ct_profiles c)"
    using c min_parts_distinct by (auto simp: catalog_ok_def)
  have "minCompare p q \<le> 0 \<longleftrightarrow> ?key p \<le> ?key q" if "p \<in> set sel" "q \<in> set sel" for p q
  proof -
    have "version_wf (pr_min p)" "version_wf (pr_min q)"
      using that s ok by (auto simp: list_all_iff profile_ok_def)
    then show ?thesis by (simp add: minCompare_def Compare_iff(2))
  qed
  then have "sort_func minCompare sel = sort_key ?key sel"
    by (rule sort_func_key_on)
  also have "\<dots> = filter (\<lambda>p. p \<in> set sel) (ct_profiles c)"
  proof (rule stable.srt_determined)
    have dk: "sorted_wrt (<) (map ?key (filter (\<lambda>p. p \<in> set sel) (ct_profiles c)))"
      using asc by (simp add: sorted_wrt_map sorted_wrt_filter)
    then show "sorted (map ?key (filter (\<lambda>p. p \<in> set sel) (ct_profiles c)))"
      by (simp add: strict_sorted_iff)
    have dp: "distinct (ct_profiles c)" using c by (simp add: catalog_ok_def distinct_map)
    show m: "mset sel = mset (filter (\<lambda>p. p \<in> set sel) (ct_profiles c))"
      by (subst set_eq_iff_mset_eq_distinct [symmetric]) (use d s dp in auto)
    show "distinct (map ?key sel)"
      using dk m by (metis strict_sorted_iff mset_eq_imp_distinct_iff mset_map)
  qed
  finally show ?thesis .
qed

lemma capability_intersectOne:
  "capability (intersectOne p caps) name =
     inf (capability caps name) (capability (pr_capabilities p) name)"
proof -
  have "map_of (intersectOne p caps) name =
      map_option (\<lambda>s. case map_of (pr_capabilities p) name of
        None \<Rightarrow> SupportUnavailable | Some t \<Rightarrow> intersectSupport s t) (map_of caps name)"
    by (induction caps) (auto simp: intersectOne_def split: option.splits)
  then show ?thesis
    by (auto simp: capability_def inf_support_def intersectSupport_def split: option.splits)
qed

lemma capability_fold:
  "capability (fold intersectOne ps caps) name =
     fold inf (map (\<lambda>p. capability (pr_capabilities p) name) ps) (capability caps name)"
proof (induction ps arbitrary: caps)
  case (Cons p ps)
  then show ?case by (simp add: capability_intersectOne inf_commute)
qed simp

lemma resolveSelected_capability:
  assumes c: "catalog_ok c" and d: "distinct sel" and s: "set sel \<subseteq> set (ct_profiles c)" "sel \<noteq> []"
  shows "capability (rs_capabilities (resolveSelected sel)) name =
    (if 1 < length sel \<and> name = ''flux_interval_rates'' then bot
     else Inf_fin ((\<lambda>p. capability (pr_capabilities p) name) ` set sel))"
proof -
  let ?f = "\<lambda>p. capability (pr_capabilities p) name" and ?s = "sort_func minCompare sel"
  obtain q qs where q: "?s = q # qs"
    using s(2) by (metis list.exhaust sort_func_Nil_iff)
  have "q \<in> set sel" using q by (metis list.set_intros(1) set_sort_func)
  then have "profile_ok q" using s(1) c by (auto simp: catalog_ok_def list_all_iff)
  then have clone: "cloneCapabilities (pr_capabilities q) = pr_capabilities q"
    by (simp add: profile_ok_def cloneCapabilities_id)
  have "fold inf (map ?f qs) (?f q) = Inf_fin (set (map ?f (q # qs)))"
    by (simp only: list.map Inf_fin.set_eq_fold)
  also have "set (map ?f (q # qs)) = ?f ` set sel"
    unfolding q [symmetric] by simp
  finally have inf: "capability (fold intersectOne qs (pr_capabilities q)) name = Inf_fin (?f ` set sel)"
    by (simp add: capability_fold)
  have upd: "capability (AList.update k SupportUnavailable caps) n =
      (if n = k then bot else capability caps n)" for k caps n
    by (simp add: capability_def AList.update_conv' bot_support_def)
  have "1 < length ?s \<longleftrightarrow> 1 < length sel" by simp
  then show ?thesis
    using inf by (simp add: resolveSelected_def Let_def q clone upd del: length_sort_func)
qed

lemma Resolve_Inr:
  assumes c: "catalog_ok c"
  shows "Resolve c vs = Inr r \<longleftrightarrow>
    vs \<noteq> [] \<and> (\<forall>raw \<in> set vs. \<exists>p. selects c raw p)
    \<and> (\<exists>sel. distinct sel \<and> set sel = {p. \<exists>raw \<in> set vs. selects c raw p}
         \<and> r = resolveSelected sel)" (is "_ \<longleftrightarrow> ?R")
proof -
  let ?xs = "zip [0..<length vs] vs"
  have im: "set vs = snd ` set ?xs" by (simp flip: set_map)
  have members: "(\<exists>(i, raw) \<in> set ?xs. Q raw) \<longleftrightarrow> (\<exists>raw \<in> set vs. Q raw)" for Q
    unfolding im by (simp add: split_beta)
  have forall: "(\<forall>(i, raw) \<in> set ?xs. Q raw) \<longleftrightarrow> (\<forall>raw \<in> set vs. Q raw)" for Q
    unfolding im by (simp add: split_beta)
  show ?thesis
  proof
    assume "Resolve c vs = Inr r"
    then obtain seen sel where l: "foldE (selectStep c) ?xs ([], []) = Inr (seen, sel)"
        "vs \<noteq> []" "r = resolveSelected sel"
      by (auto simp: Resolve_def andThen_Inr split: if_splits)
    then show ?R
      using select_loop [OF c l(1)] by (auto simp: members forall distinct_map)
  next
    assume r: ?R
    then obtain sel where sel: "distinct sel" "set sel = {p. \<exists>raw \<in> set vs. selects c raw p}"
        "r = resolveSelected sel" by blast
    have "\<forall>(i, raw) \<in> set ?xs. \<exists>p. selects c raw p" using r by (simp add: forall)
    then obtain seen sel' where l: "foldE (selectStep c) ?xs ([], []) = Inr (seen, sel')"
      using select_loop_total [OF c] by blast
    note s = select_loop [OF c l]
    have sub: "set sel \<subseteq> set (ct_profiles c)" using sel(2) by (auto simp: selects_def)
    have eq: "set sel' = set sel" and d: "distinct sel'"
      using s sel(2) by (auto simp: members distinct_map)
    have "sort_func minCompare sel' = sort_func minCompare sel"
      using sort_selected [OF c sel(1) sub] sort_selected [OF c d] sub eq by simp
    then have "resolveSelected sel' = r" by (simp add: sel(3) resolveSelected_def)
    with l r show "Resolve c vs = Inr r" by (simp add: Resolve_def)
  qed
qed

section \<open>Properties\<close>

definition demo_profile :: "string \<Rightarrow> string \<Rightarrow> string \<Rightarrow> capabilities \<Rightarrow> profile" where
  "demo_profile i lo hi caps = \<lparr>pr_schema = ''1.0'', pr_id = i,
     pr_version = \<lparr>vc_min = lo, vc_max = hi, vc_parser = ''dell-four-part-with-optional-build-suffix'',
       vc_documented = [lo], vc_tested = [lo @ ''.7'']\<rparr>,
     pr_selection = \<lparr>sl_api = ''version-discovery'', sl_method = ''GET'', sl_path = ''/vdc/nodes'',
       sl_version_field = ''node[].version'',
       sl_mixed_policy = ''intersection-only-no-interval-derived-rates'', sl_unknown_policy = ''reject''\<rparr>,
     pr_transport = \<lparr>tc_scheme = ''https'', tc_port = 4443, tc_login = ''/login'',
       tc_token_header = ''X-SDS-AUTH-TOKEN'', tc_whoami = ''/user/whoami'', tc_logout = ''/logout'',
       tc_flux = ''/flux/api/external/v2/query'', tc_host_policy = ''legacy''\<rparr>,
     pr_capabilities = caps, pr_issues = [],
     pr_evidence = \<lparr>ev_status = ''documentation-verified'', ev_sources = [''https://dell.com/ecs''],
       ev_api_access = ''downloaded-and-reviewed'', ev_fixtures = ''synthetic-document-derived'',
       ev_policy = ''shared-live-any-target-version'', ev_shared = [''namespaces''], ev_certified = False\<rparr>,
     pr_min = zero_version, pr_max = zero_version\<rparr>"

definition demo_caps :: capabilities where
  "demo_caps = [(''namespaces'', SupportNative), (''flux_interval_rates'', SupportDerived)]"
definition demo_decode :: "string \<Rightarrow> profile result" where
  "demo_decode path =
    (if path = ''p/ecs-3.7.json'' then Inr (demo_profile ''ecs-3.7'' ''3.7.0.0'' ''3.8.0.0'' demo_caps)
     else Inr (demo_profile ''ecs-3.8.0'' ''3.8.0.0'' ''3.8.1.0''
        [(''flux_interval_rates'', SupportDerived), (''namespaces'', SupportConditional)]))"
definition demo_dir :: "string \<Rightarrow> (string \<times> bool) list result" where
 "demo_dir d = Inr [(''ecs-3.8.json'', False), (''README.md'', False), (''ecs-3.7.json'', False)]"

definition demo_catalog :: catalog where
  "demo_catalog = (case LoadDir demo_dir demo_decode ''p'' of Inr c \<Rightarrow> c | Inl _ \<Rightarrow> \<lparr>ct_profiles = []\<rparr>)"

lemma demo_loads: "LoadDir demo_dir demo_decode ''p'' = Inr demo_catalog"
proof -
  have "succeeds (LoadDir demo_dir demo_decode ''p'')" by code_simp
  then show ?thesis by (auto simp: demo_catalog_def succeeds_iff)
qed

lemma demo_decodes: "decodes_maps demo_decode"
  by (auto simp: decodes_maps_def demo_decode_def demo_profile_def demo_caps_def split: if_splits)

lemma demo_ok: "catalog_ok demo_catalog"
  by (rule LoadDir_ok [OF demo_loads demo_decodes])

text \<open>
  C8: in a catalog that loads, the ranges do not overlap, so a version
  matches at most one profile, the one whose range contains it; and every release and build that
  a profile lists as documented or tested matches that profile and no other.
\<close>

theorem catalog_matches_its_builds:
  assumes "LoadDir readDir decode dir = Inr c" "decodes_maps decode"
  shows "\<forall>p \<in> set (ct_profiles c).
      (\<forall>s v. ParseVersion s = Inr v \<longrightarrow> (Match c v = Inr p \<longleftrightarrow> Supports p v))
      \<and> (\<forall>s \<in> set (vc_documented (pr_version p)) \<union> set (vc_tested (pr_version p)).
           \<exists>v. ParseVersion s = Inr v \<and> Match c v = Inr p)"
proof
  fix p assume p: "p \<in> set (ct_profiles c)"
  note ok = LoadDir_ok [OF assms]
  have m: "Match c v = Inr p \<longleftrightarrow> Supports p v" if "ParseVersion s = Inr v" for s v
    using Match_iff [OF ok ParseVersion_wf [OF that]] p by simp
  have "validateContents p = Inr ()"
    using ok p by (auto simp: catalog_ok_def list_all_iff profile_ok_def)
  then show "(\<forall>s v. ParseVersion s = Inr v \<longrightarrow> (Match c v = Inr p \<longleftrightarrow> Supports p v))
      \<and> (\<forall>s \<in> set (vc_documented (pr_version p)) \<union> set (vc_tested (pr_version p)).
           \<exists>v. ParseVersion s = Inr v \<and> Match c v = Inr p)"
    using m validateContents_versions [of p] by blast
qed

theorem catalog_matches_its_builds_witness:
  "map pr_id (ct_profiles demo_catalog) = [''ecs-3.7'', ''ecs-3.8.0'']
   \<and> (\<exists>v. ParseVersion ''3.8.0.0.7'' = Inr v
        \<and> Match demo_catalog v = Inr (last (ct_profiles demo_catalog)))"
proof -
  have ids: "map pr_id (ct_profiles demo_catalog) = [''ecs-3.7'', ''ecs-3.8.0'']"
    and t: "''3.8.0.0.7'' \<in> set (vc_tested (pr_version (last (ct_profiles demo_catalog))))"
    by code_simp+
  have "last (ct_profiles demo_catalog) \<in> set (ct_profiles demo_catalog)"
    using ids by (intro last_in_set) auto
  then show ?thesis
    using catalog_matches_its_builds [OF demo_loads demo_decodes] ids t by blast
qed



text \<open>
  C10: the resolution depends on the set of node versions only: not on the order
  in which ECS lists the nodes, nor on how many nodes run a version.
\<close>

theorem resolve_order_free:
  assumes "catalog_ok c" "set vs = set ws"
  shows "Resolve c vs = Inr r \<longleftrightarrow> Resolve c ws = Inr r"
  unfolding Resolve_Inr [OF assms(1)] by (simp only: assms(2) set_empty [symmetric])

theorem resolve_order_free_witness:
  "succeeds (Resolve demo_catalog [''3.8.0.4'', ''3.7.0.9''])
   \<and> Resolve demo_catalog [''3.7.0.9'', ''3.8.0.4'', ''3.7.0.9''] = Resolve demo_catalog [''3.8.0.4'', ''3.7.0.9'']"
proof -
  have "succeeds (Resolve demo_catalog [''3.8.0.4'', ''3.7.0.9''])" by code_simp
  then obtain r where r: "Resolve demo_catalog [''3.8.0.4'', ''3.7.0.9''] = Inr r"
    by (auto simp: succeeds_iff)
  then have "Resolve demo_catalog [''3.7.0.9'', ''3.8.0.4'', ''3.7.0.9''] = Inr r"
    using resolve_order_free [OF demo_ok, of "[''3.8.0.4'', ''3.7.0.9'']" "[''3.7.0.9'', ''3.8.0.4'', ''3.7.0.9'']" r]
    by (simp add: insert_commute)
  with r show ?thesis by simp
qed

end
