(* ===== verification/Health.thy ===== *)
theory Health
  imports Model
begin

text \<open>
  internal/health/health.go: the status of each cluster and of the exporter, from a snapshot
  of the cache. Times are instants in nanoseconds and ages saturate as \<open>Time.Sub\<close> does.
\<close>

section \<open>Model\<close>

datatype health_status = UP | DEGRADED | DOWN

record cluster_status =
  hs_cluster :: string
  hs_status :: health_status
  hs_last_success :: time
  hs_reason :: string

record report =
  rt_status :: health_status
  rt_checked_at :: time
  rt_clusters :: "cluster_status list"

text \<open>The map of required collectors, and what the loop over the states accumulates.\<close>

definition requiredCollectors :: "string list" where
  "requiredCollectors = [''cluster'', ''node'', ''namespace'', ''bucket'']"

record scan =
  sc_present :: "string list"
  sc_newest :: time
  sc_oldest :: time
  sc_error :: bool

definition scanState :: "string \<Rightarrow> collector_state \<Rightarrow> scan \<Rightarrow> scan" where
  "scanState cluster state acc =
     (if cs_cluster state \<noteq> cluster then acc
      else
        let acc' =
          (if cs_collector state \<in> set requiredCollectors \<and> \<not> is_zero_time (cs_last_success state)
           then acc\<lparr>sc_present := cs_collector state # sc_present acc,
             sc_newest := (if is_zero_time (sc_newest acc) \<or> cs_last_success state > sc_newest acc
               then cs_last_success state else sc_newest acc),
             sc_oldest := (if is_zero_time (sc_oldest acc) \<or> cs_last_success state < sc_oldest acc
               then cs_last_success state else sc_oldest acc)\<rparr>
           else acc)
        in if cs_last_error state \<noteq> [] then acc'\<lparr>sc_error := True\<rparr> else acc')"

definition scanStates :: "string \<Rightarrow> collector_state list \<Rightarrow> scan" where
  "scanStates cluster states =
     fold (scanState cluster) states \<lparr>sc_present = [], sc_newest = 0, sc_oldest = 0, sc_error = False\<rparr>"

definition unhealthy :: "string \<Rightarrow> cluster \<Rightarrow> bool" where
  "unhealthy name v \<longleftrightarrow> cl_name v = name \<and> (case cl_health v of None \<Rightarrow> False | Some h \<Rightarrow> feq h fzero)"

definition evaluateCluster :: "string \<Rightarrow> snapshot \<Rightarrow> duration \<Rightarrow> duration \<Rightarrow> time \<Rightarrow> cluster_status" where
  "evaluateCluster cluster sn staleTolerance maxStale now =
     (let acc = scanStates cluster (sn_states sn);
          result = \<lambda>status reason. \<lparr>hs_cluster = cluster, hs_status = status,
            hs_last_success = sc_newest acc, hs_reason = reason\<rparr>;
          age = time_sub now (sc_oldest acc)
      in if \<not> list_all (\<lambda>c. c \<in> set (sc_present acc)) requiredCollectors
         then result DOWN ''cache_not_initialized''
         else if age > maxStale then result DOWN ''cache_too_old''
         else if age > staleTolerance then result DEGRADED ''cache_stale''
         else if list_ex (unhealthy cluster) (sn_clusters sn) then result DEGRADED ''ecs_unhealthy''
         else if sc_error acc then result DEGRADED ''collector_error''
         else result UP [])"

text \<open>The cluster names: those of the cached clusters, then the states' that are not among them.\<close>

definition addStateName :: "collector_state \<Rightarrow> string list \<Rightarrow> string list" where
  "addStateName state names =
     (if cs_cluster state \<in> set names then names else names @ [cs_cluster state])"

definition clusterNames :: "snapshot \<Rightarrow> string list" where
  "clusterNames sn =
     remdups_adj (sort (fold addStateName (sn_states sn) (map cl_name (sn_clusters sn))))"

text \<open>The loop over the names: the report so far and the number of clusters down.\<close>

definition addCluster :: "(string \<Rightarrow> cluster_status) \<Rightarrow> string \<Rightarrow> report \<times> nat \<Rightarrow> report \<times> nat" where
  "addCluster eval name acc =
     (case acc of (rep, downCount) \<Rightarrow>
        let status = eval name;
            rep1 = rep\<lparr>rt_clusters := rt_clusters rep @ [status]\<rparr>;
            rep2 = (if hs_status status = DEGRADED \<and> rt_status rep1 = UP
                    then rep1\<lparr>rt_status := DEGRADED\<rparr> else rep1)
        in if hs_status status = DOWN then (rep2\<lparr>rt_status := DEGRADED\<rparr>, downCount + 1)
           else (rep2, downCount))"

definition Evaluate :: "snapshot \<Rightarrow> duration \<Rightarrow> duration \<Rightarrow> time \<Rightarrow> report" where
  "Evaluate sn staleTolerance maxStale now =
     (let rep0 = \<lparr>rt_status = UP, rt_checked_at = now, rt_clusters = []\<rparr>;
          names = clusterNames sn
      in if names = [] then rep0\<lparr>rt_status := DOWN\<rparr>
         else case fold (addCluster (\<lambda>name. evaluateCluster name sn staleTolerance maxStale now))
                names (rep0, 0) of
             (rep, downCount) \<Rightarrow>
               if downCount = length names then rep\<lparr>rt_status := DOWN\<rparr> else rep)"

section \<open>Lemmas\<close>

definition successes :: "string \<Rightarrow> collector_state list \<Rightarrow> collector_state list" where
  "successes cluster states = filter (\<lambda>s. cs_cluster s = cluster
     \<and> cs_collector s \<in> set requiredCollectors \<and> cs_last_success s \<noteq> 0) states"

definition scan_inv :: "string \<Rightarrow> collector_state list \<Rightarrow> scan \<Rightarrow> bool" where
  "scan_inv cluster states acc \<longleftrightarrow>
     (let ts = cs_last_success ` set (successes cluster states)
      in set (sc_present acc) = cs_collector ` set (successes cluster states)
       \<and> (if ts = {} then sc_newest acc = 0 \<and> sc_oldest acc = 0
          else sc_newest acc = Max ts \<and> sc_oldest acc = Min ts)
       \<and> sc_error acc = (\<exists>s \<in> set states. cs_cluster s = cluster \<and> cs_last_error s \<noteq> []))"

lemma successes_snoc:
  "successes cluster (states @ [s]) =
     (if cs_cluster s = cluster \<and> cs_collector s \<in> set requiredCollectors \<and> cs_last_success s \<noteq> 0
      then successes cluster states @ [s] else successes cluster states)"
  by (simp add: successes_def)

lemma finite_successes [simp]: "finite (cs_last_success ` set (successes cluster states))"
  by simp

lemma successes_nonzero: "0 \<notin> cs_last_success ` set (successes cluster states)"
  by (auto simp: successes_def)

lemma scan_inv_step:
  assumes "scan_inv cluster states acc"
  shows "scan_inv cluster (states @ [s]) (scanState cluster s acc)"
proof (cases "cs_cluster s = cluster \<and> cs_collector s \<in> set requiredCollectors \<and> cs_last_success s \<noteq> 0")
  case False
  then show ?thesis
    using assms by (auto simp: scan_inv_def scanState_def successes_snoc is_zero_time_def Let_def)
next
  case True
  let ?ts = "cs_last_success ` set (successes cluster states)"
  have new: "cs_last_success ` set (successes cluster (states @ [s])) = insert (cs_last_success s) ?ts"
    using True by (simp add: successes_snoc)
  have mm: "sc_newest (scanState cluster s acc) = Max (insert (cs_last_success s) ?ts)
      \<and> sc_oldest (scanState cluster s acc) = Min (insert (cs_last_success s) ?ts)"
  proof (cases "?ts = {}")
    case True
    then show ?thesis
      using assms \<open>cs_cluster s = cluster \<and> _\<close>
      by (simp add: scan_inv_def scanState_def is_zero_time_def Let_def)
  next
    case False
    then have "sc_newest acc = Max ?ts" "sc_oldest acc = Min ?ts"
      using assms by (simp_all add: scan_inv_def Let_def)
    moreover have "Max ?ts \<noteq> 0" "Min ?ts \<noteq> 0"
      using False Max_in [of ?ts] Min_in [of ?ts] successes_nonzero by (metis finite_successes)+
    moreover have "sc_newest (scanState cluster s acc) =
        (if sc_newest acc = 0 \<or> cs_last_success s > sc_newest acc then cs_last_success s else sc_newest acc)"
      "sc_oldest (scanState cluster s acc) =
        (if sc_oldest acc = 0 \<or> cs_last_success s < sc_oldest acc then cs_last_success s else sc_oldest acc)"
      using \<open>cs_cluster s = cluster \<and> _\<close> by (simp_all add: scanState_def is_zero_time_def Let_def)
    moreover have "(if M < x then x else M) = max x M" "(if x < m then x else m) = min x m"
      for M m x :: int by auto
    ultimately show ?thesis
      by (simp only: Max_insert [OF finite_successes False] Min_insert [OF finite_successes False] simp_thms)
  qed
  moreover have "set (sc_present (scanState cluster s acc)) =
      cs_collector ` set (successes cluster (states @ [s]))"
    using assms True by (simp add: scan_inv_def scanState_def successes_snoc is_zero_time_def Let_def)
  moreover have "sc_error (scanState cluster s acc) =
      (\<exists>t \<in> set (states @ [s]). cs_cluster t = cluster \<and> cs_last_error t \<noteq> [])"
    using assms True by (auto simp: scan_inv_def scanState_def Let_def)
  ultimately show ?thesis by (simp add: scan_inv_def new)
qed

lemma scanStates_inv: "scan_inv cluster states (scanStates cluster states)"
proof (induction states rule: rev_induct)
  case Nil
  then show ?case by (simp add: scan_inv_def scanStates_def successes_def)
next
  case (snoc s states)
  then show ?case using scan_inv_step by (simp add: scanStates_def)
qed

section \<open>The status of the exporter\<close>

text \<open>Statuses in order of severity.\<close>

instantiation health_status :: linorder
begin

fun severity :: "health_status \<Rightarrow> nat" where
  "severity UP = 0" | "severity DEGRADED = 1" | "severity DOWN = 2"

definition less_eq_health_status :: "health_status \<Rightarrow> health_status \<Rightarrow> bool" where
  "x \<le> y \<longleftrightarrow> severity x \<le> severity y"

definition less_health_status :: "health_status \<Rightarrow> health_status \<Rightarrow> bool" where
  "x < y \<longleftrightarrow> severity x < severity y"

instance
proof
  fix x y :: health_status
  show "x = y" if "x \<le> y" "y \<le> x"
    using that by (cases x; cases y) (simp_all add: less_eq_health_status_def)
qed (auto simp: less_eq_health_status_def less_health_status_def)

end

lemma status_le_simps [simp]:
  "UP \<le> x" "x \<le> DOWN" "DEGRADED \<le> UP \<longleftrightarrow> False" "DOWN \<le> UP \<longleftrightarrow> False" "DOWN \<le> DEGRADED \<longleftrightarrow> False"
  by (cases x; simp add: less_eq_health_status_def)+

lemma DEGRADED_le: "DEGRADED \<le> x \<longleftrightarrow> x \<noteq> UP"
  by (cases x) (simp_all add: less_eq_health_status_def)

definition overall :: "cluster_status list \<Rightarrow> health_status" where
  "overall cs = (if list_all (\<lambda>c. hs_status c = DOWN) cs then DOWN
     else if list_all (\<lambda>c. hs_status c = UP) cs then UP else DEGRADED)"

lemma fold_addCluster:
  "fold (addCluster eval) names (\<lparr>rt_status = UP, rt_checked_at = now, rt_clusters = []\<rparr>, 0) =
     (\<lparr>rt_status = (if list_all (\<lambda>n. hs_status (eval n) = UP) names then UP else DEGRADED),
       rt_checked_at = now, rt_clusters = map eval names\<rparr>,
      length (filter (\<lambda>n. hs_status (eval n) = DOWN) names))"
proof (induction names rule: rev_induct)
  case (snoc n names)
  then show ?case by (cases "hs_status (eval n)") (auto simp: addCluster_def)
qed simp

lemma length_filter_all: "length (filter P xs) = length xs \<longleftrightarrow> list_all P xs"
  by (metis filter_True length_filter_less list_all_iff order_less_irrefl)

lemma Evaluate_alt:
  "Evaluate sn staleTolerance maxStale now =
     (let cs = map (\<lambda>name. evaluateCluster name sn staleTolerance maxStale now) (clusterNames sn)
      in \<lparr>rt_status = overall cs, rt_checked_at = now, rt_clusters = cs\<rparr>)"
  by (auto simp: Evaluate_def Let_def fold_addCluster length_filter_all overall_def list_all_iff
      split: if_splits)

lemma set_addStateNames:
  "set (fold addStateName states names) = set names \<union> cs_cluster ` set states"
  by (induction states arbitrary: names) (auto simp: addStateName_def)

lemma set_clusterNames:
  "set (clusterNames sn) = cl_name ` set (sn_clusters sn) \<union> cs_cluster ` set (sn_states sn)"
  by (simp add: clusterNames_def set_addStateNames)

lemma strict_if_sorted_adjacent: "sorted xs \<Longrightarrow> distinct_adj xs \<Longrightarrow> sorted_wrt (<) (xs :: 'a::linorder list)"
proof (induction xs rule: induct_list012)
  case (3 x y zs)
  then have "x < y" "sorted_wrt (<) (y # zs)" by auto
  then show ?case by (auto intro: less_trans)
qed auto

lemma clusterNames_sorted: "sorted_wrt (<) (clusterNames sn)"
  by (rule strict_if_sorted_adjacent) (simp_all add: clusterNames_def)

lemma evaluateCluster_alt:
  "evaluateCluster name sn staleTolerance maxStale now =
     (let ss = successes name (sn_states sn); ts = cs_last_success ` set ss;
          result = \<lambda>status reason. \<lparr>hs_cluster = name, hs_status = status,
            hs_last_success = (if ts = {} then 0 else Max ts), hs_reason = reason\<rparr>
      in if \<not> set requiredCollectors \<subseteq> cs_collector ` set ss then result DOWN ''cache_not_initialized''
         else if time_sub now (Min ts) > maxStale then result DOWN ''cache_too_old''
         else if time_sub now (Min ts) > staleTolerance then result DEGRADED ''cache_stale''
         else if \<exists>c \<in> set (sn_clusters sn). unhealthy name c then result DEGRADED ''ecs_unhealthy''
         else if \<exists>s \<in> set (sn_states sn). cs_cluster s = name \<and> cs_last_error s \<noteq> []
           then result DEGRADED ''collector_error''
         else result UP [])"
proof -
  define acc where "acc = scanStates name (sn_states sn)"
  define ts where "ts = cs_last_success ` set (successes name (sn_states sn))"
  have inv: "scan_inv name (sn_states sn) acc" unfolding acc_def by (rule scanStates_inv)
  have newest: "sc_newest acc = (if ts = {} then 0 else Max ts)"
    and err: "sc_error acc = (\<exists>s \<in> set (sn_states sn). cs_cluster s = name \<and> cs_last_error s \<noteq> [])"
    and present: "set (sc_present acc) = cs_collector ` set (successes name (sn_states sn))"
    using inv by (auto simp: scan_inv_def Let_def ts_def)
  have all: "list_all (\<lambda>c. c \<in> set (sc_present acc)) requiredCollectors \<longleftrightarrow>
      set requiredCollectors \<subseteq> cs_collector ` set (successes name (sn_states sn))"
    unfolding present by (auto simp: list_all_iff)
  have oldest: "sc_oldest acc = Min ts"
    if "set requiredCollectors \<subseteq> cs_collector ` set (successes name (sn_states sn))"
  proof -
    have "ts \<noteq> {}" using that by (auto simp: requiredCollectors_def ts_def)
    then show ?thesis using inv by (simp add: scan_inv_def Let_def ts_def)
  qed
  show ?thesis
    unfolding evaluateCluster_def acc_def [symmetric] Let_def newest err all ts_def [symmetric]
    by (simp add: oldest list_ex_iff)
qed

lemma evaluateCluster_mono:
  assumes "now \<le> later"
  shows "hs_status (evaluateCluster name sn st mx now) \<le> hs_status (evaluateCluster name sn st mx later)"
proof -
  have "time_sub now t \<le> time_sub later t" for t
    using assms by (simp add: time_sub_def sat64_mono)
  from this [of "Min (cs_last_success ` set (successes name (sn_states sn)))"] show ?thesis
    by (auto simp: evaluateCluster_alt Let_def DEGRADED_le)
qed

section \<open>Properties\<close>

text \<open>
  C15: a cluster is down when one of the four inventory collectors has never
  succeeded, or when the oldest of their last successes is older than maxStale; degraded when that
  age exceeds the tolerance, when ECS reports the cluster unhealthy, or when any of its collectors
  holds an error; up otherwise. The reported success is the newest one.
\<close>

theorem cluster_status_spec:
  "evaluateCluster name sn staleTolerance maxStale now =
     (let ss = successes name (sn_states sn); ts = cs_last_success ` set ss;
          result = \<lambda>status reason. \<lparr>hs_cluster = name, hs_status = status,
            hs_last_success = (if ts = {} then 0 else Max ts), hs_reason = reason\<rparr>
      in if \<not> set requiredCollectors \<subseteq> cs_collector ` set ss then result DOWN ''cache_not_initialized''
         else if time_sub now (Min ts) > maxStale then result DOWN ''cache_too_old''
         else if time_sub now (Min ts) > staleTolerance then result DEGRADED ''cache_stale''
         else if (\<exists>c. c \<in> set (sn_clusters sn) \<and> unhealthy name c) then result DEGRADED ''ecs_unhealthy''
         else if (\<exists>s. s \<in> set (sn_states sn) \<and> cs_cluster s = name \<and> cs_last_error s \<noteq> [])
           then result DEGRADED ''collector_error''
         else result UP [])"
  unfolding evaluateCluster_alt Bex_def by (rule refl)

text \<open>
  C14: a report has one entry for every cluster that is cached or has a collector state,
  in strictly ascending order of the names; the exporter is down exactly when all of them are (or
  there is none), up when all are up, and degraded otherwise.
\<close>

theorem report_spec:
  "let r = Evaluate sn staleTolerance maxStale now; cs = rt_clusters r
   in set (map hs_cluster cs) = cl_name ` set (sn_clusters sn) \<union> cs_cluster ` set (sn_states sn)
      \<and> sorted_wrt (<) (map hs_cluster cs)
      \<and> cs = map (\<lambda>n. evaluateCluster n sn staleTolerance maxStale now) (map hs_cluster cs)
      \<and> rt_status r = (if list_all (\<lambda>c. hs_status c = DOWN) cs then DOWN
          else if list_all (\<lambda>c. hs_status c = UP) cs then UP else DEGRADED)
      \<and> rt_checked_at r = now"
proof -
  have id: "hs_cluster (evaluateCluster n sn staleTolerance maxStale now) = n" for n
    by (simp add: evaluateCluster_alt Let_def)
  show ?thesis
    using clusterNames_sorted [of sn] set_clusterNames [of sn]
    by (simp add: Evaluate_alt Let_def id o_def overall_def image_image)
qed

text \<open>
  C16: with an unchanged cache, neither a cluster's status nor the
  exporter's ever becomes less severe as time passes.
\<close>

theorem health_never_improves_by_waiting:
  assumes "now \<le> later"
  shows "hs_status (evaluateCluster name sn st mx now) \<le> hs_status (evaluateCluster name sn st mx later)
    \<and> rt_status (Evaluate sn st mx now) \<le> rt_status (Evaluate sn st mx later)"
proof
  note m = evaluateCluster_mono [OF assms]
  show "hs_status (evaluateCluster name sn st mx now) \<le> hs_status (evaluateCluster name sn st mx later)"
    by (rule m)
  have d: "hs_status (evaluateCluster n sn st mx later) = DOWN"
    if "hs_status (evaluateCluster n sn st mx now) = DOWN" for n
    using m [of n sn st mx] that by (cases "hs_status (evaluateCluster n sn st mx later)") auto
  have u: "hs_status (evaluateCluster n sn st mx now) = UP"
    if "hs_status (evaluateCluster n sn st mx later) = UP" for n
    using m [of n sn st mx] that by (cases "hs_status (evaluateCluster n sn st mx now)") auto
  show "rt_status (Evaluate sn st mx now) \<le> rt_status (Evaluate sn st mx later)"
    using d u by (auto simp: Evaluate_alt Let_def overall_def list_all_iff DEGRADED_le)
qed

definition demo_state :: "string \<Rightarrow> time \<Rightarrow> collector_state" where
  "demo_state c t = \<lparr>cs_cluster = ''a'', cs_collector = c, cs_last_attempt = t, cs_last_success = t,
     cs_last_error = [], cs_running = False, cs_runs = 1, cs_errors = 0\<rparr>"

theorem health_never_improves_by_waiting_witness:
  "let sn = \<lparr>sn_clusters = [], sn_nodes = [], sn_namespaces = [], sn_buckets = [], sn_performances = [],
       sn_replications = [], sn_states = map (\<lambda>c. demo_state c 100) requiredCollectors\<rparr>
   in rt_status (Evaluate sn 5 10 101) = UP \<and> rt_status (Evaluate sn 5 10 107) = DEGRADED
      \<and> rt_status (Evaluate sn 5 10 101) \<le> rt_status (Evaluate sn 5 10 107)"
proof -
  let ?sn = "\<lparr>sn_clusters = [], sn_nodes = [], sn_namespaces = [], sn_buckets = [], sn_performances = [],
       sn_replications = [], sn_states = map (\<lambda>c. demo_state c 100) requiredCollectors\<rparr>"
  have "clusterNames ?sn = [''a'']"
    by (simp add: clusterNames_def addStateName_def requiredCollectors_def demo_state_def)
  moreover have "scanStates ''a'' (sn_states ?sn) =
      \<lparr>sc_present = rev requiredCollectors, sc_newest = 100, sc_oldest = 100, sc_error = False\<rparr>"
    by (simp add: scanStates_def scanState_def requiredCollectors_def demo_state_def is_zero_time_def)
  ultimately have "rt_status (Evaluate ?sn 5 10 101) = UP" "rt_status (Evaluate ?sn 5 10 107) = DEGRADED"
    by (simp_all add: Evaluate_alt overall_def evaluateCluster_def list_all_iff time_sub_def sat64_def
        min_int64_def max_int64_def)
  then show ?thesis
    using health_never_improves_by_waiting [of 101 107 "''a''" ?sn 5 10] by (simp add: Let_def)
qed

end
