(* ===== verification/Config.thy ===== *)
theory Config
  imports Go_Net Quantities
begin

text \<open>
  The configuration (\<open>internal/config/config.go\<close>): its structs and defaults, the expansion of
  environment references, the environment's overrides and the validation of a decoded value.

  What the code asks of the machine is the record \<open>machine\<close>: reading a file, whether a path is
  a regular file, the environment, and resolving a listen address. The YAML decoder
  (\<^verbatim>\<open>go.yaml.in/yaml/v3\<close>, not part of the repository) is its last field: the text and the
  defaults give the decoded value, and what a second call of \<^verbatim>\<open>Decode\<close> reports. An order in
  which Go ranges over a map is an argument.
\<close>

section \<open>The structs\<close>

record server_tls =
  st_cert :: string
  st_key :: string

record server_config =
  sv_listen :: string
  sv_tls :: server_tls

record prometheus_config =
  pm_path :: string
  pm_protected :: bool

record cache_config =
  ca_stale_tolerance :: duration
  ca_max_stale :: duration

record retry_config =
  rt_max_attempts :: int
  rt_initial :: duration
  rt_max :: duration

record rate_limit =
  rl_per_second :: f64
  rl_burst :: int

record interval_config =
  iv_cluster :: duration
  iv_node :: duration
  iv_performance :: duration
  iv_replication :: duration
  iv_recovery :: duration
  iv_namespace :: duration
  iv_bucket :: duration

record concurrency_config =
  cu_max_requests :: int
  cu_page_size :: int

record collector_config =
  co_timeout :: duration
  co_retry :: retry_config
  co_rate :: rate_limit
  co_intervals :: interval_config
  co_concurrency :: concurrency_config
  co_jitter :: f64

record inventory_security =
  is_enabled :: bool
  is_authentication :: string
  is_token_file :: string
  is_proxy_header :: string
  is_trusted :: "string list"
  is_max_page :: int

record node_resource_config =
  nr_filesystems :: "string list"
  nr_interfaces :: "string list"
  nr_max_interfaces :: int
  nr_prefer_bond :: "bool option"

record cluster_tls =
  ct_verify :: "bool option"
  ct_ca_file :: string

record interval_override =
  io_cluster :: "duration option"
  io_node :: "duration option"
  io_performance :: "duration option"
  io_replication :: "duration option"
  io_recovery :: "duration option"
  io_namespace :: "duration option"
  io_bucket :: "duration option"

record timeout_override =
  to_connect :: "duration option"
  to_read :: "duration option"
  to_overall :: "duration option"

record replication_targets =
  rg_groups :: "string list"
  rg_links :: "string list"

record cluster_config =
  cg_name :: string
  cg_site :: string
  cg_environment :: string
  cg_endpoint :: string
  cg_username :: string
  cg_username_file :: string
  cg_password :: string
  cg_password_file :: string
  cg_tls :: cluster_tls
  cg_timeouts :: timeout_override
  cg_intervals :: interval_override
  cg_conditional :: "string list"
  cg_resources :: node_resource_config
  cg_replication :: replication_targets

record config =
  cf_server :: server_config
  cf_prometheus :: prometheus_config
  cf_cache :: cache_config
  cf_collector :: collector_config
  cf_inventory :: inventory_security
  cf_clusters :: "cluster_config list"

datatype second_document = EndOfInput | AnotherDocument | BadDocument

record machine =
  he_read :: "string \<Rightarrow> string result"
  he_regular :: "string \<Rightarrow> bool result"
  he_env :: "string \<Rightarrow> string option"
  he_tcp :: "string \<Rightarrow> unit result"
  he_yaml :: "string \<Rightarrow> config \<Rightarrow> (config \<times> second_document) result"

section \<open>Methods of the structs\<close>

type_synonym intervals = "(string \<times> duration) list"

definition Values :: "interval_config \<Rightarrow> intervals" where
  "Values c =
     [(''cluster'', iv_cluster c), (''node'', iv_node c), (''performance'', iv_performance c),
      (''replication'', iv_replication c), (''recovery'', iv_recovery c),
      (''namespace'', iv_namespace c), (''bucket'', iv_bucket c)]"

definition EffectiveMaxNetworkInterfaces :: "node_resource_config \<Rightarrow> int" where
  "EffectiveMaxNetworkInterfaces c =
     (if nr_max_interfaces c = 0 then 16 else nr_max_interfaces c)"

definition BondPreferenceEnabled :: "node_resource_config \<Rightarrow> bool" where
  "BondPreferenceEnabled c = (case nr_prefer_bond c of None \<Rightarrow> True | Some b \<Rightarrow> b)"

definition VerificationEnabled :: "cluster_tls \<Rightarrow> bool" where
  "VerificationEnabled c = (case ct_verify c of None \<Rightarrow> True | Some b \<Rightarrow> b)"

definition resolveTimeouts :: "timeout_override \<Rightarrow> duration \<Rightarrow> duration \<times> duration \<times> duration" where
  "resolveTimeouts ov fallback =
     (let overall = (case to_overall ov of None \<Rightarrow> fallback | Some d \<Rightarrow> d);
          connect = (case to_connect ov of None \<Rightarrow> min overall (10 * second) | Some d \<Rightarrow> d);
          read = (case to_read ov of None \<Rightarrow> overall | Some d \<Rightarrow> d)
      in (connect, read, overall))"

definition overrideEntries :: "interval_override \<Rightarrow> (string \<times> duration option) list" where
  "overrideEntries ov =
     [(''cluster'', io_cluster ov), (''node'', io_node ov), (''performance'', io_performance ov),
      (''replication'', io_replication ov), (''recovery'', io_recovery ov),
      (''namespace'', io_namespace ov), (''bucket'', io_bucket ov)]"

text \<open>The overrides are assigned in some order to the map of the defaults.\<close>

definition resolveIntervals ::
  "((string \<times> duration option) list \<Rightarrow> (string \<times> duration option) list) \<Rightarrow>
   interval_override \<Rightarrow> interval_config \<Rightarrow> intervals" where
  "resolveIntervals ord ov defaults =
     fold (\<lambda>(name, value) result.
         case value of None \<Rightarrow> result | Some d \<Rightarrow> AList.update name d result)
       (ord (overrideEntries ov)) (Values defaults)"

definition minute :: duration where "minute = 60 * second"
definition hour :: duration where "hour = 60 * minute"

definition Defaults :: config where
  "Defaults =
     \<lparr>cf_server = \<lparr>sv_listen = '':8080'', sv_tls = \<lparr>st_cert = [], st_key = []\<rparr>\<rparr>,
      cf_prometheus = \<lparr>pm_path = ''/metrics'', pm_protected = False\<rparr>,
      cf_cache = \<lparr>ca_stale_tolerance = 15 * minute, ca_max_stale = hour\<rparr>,
      cf_collector =
        \<lparr>co_timeout = 30 * second,
         co_retry = \<lparr>rt_max_attempts = 3, rt_initial = second, rt_max = 10 * second\<rparr>,
         co_rate = \<lparr>rl_per_second = f64_nat 10, rl_burst = 4\<rparr>,
         co_intervals =
           \<lparr>iv_cluster = minute, iv_node = minute, iv_performance = minute,
            iv_replication = 2 * minute, iv_recovery = 2 * minute, iv_namespace = 5 * minute,
            iv_bucket = 5 * minute\<rparr>,
         co_concurrency = \<lparr>cu_max_requests = 4, cu_page_size = 500\<rparr>,
         co_jitter = Fin False (rnd (1 / 10))\<rparr>,
      cf_inventory =
        \<lparr>is_enabled = True, is_authentication = ''token'', is_token_file = [],
         is_proxy_header = ''X-Remote-User'', is_trusted = [], is_max_page = 500\<rparr>,
      cf_clusters = []\<rparr>"

section \<open>Environment references\<close>

text \<open>
  The pattern \<open>${NAME}\<close>: \<open>reference_at\<close> is a match at the start of a text, its name and what
  follows; \<open>expand\<close> replaces the matches from left to right and collects the unset names.
\<close>

definition name_start :: "char \<Rightarrow> bool" where
  "name_start c \<longleftrightarrow> is_alnum c \<and> \<not> is_digit c \<or> c = CHR ''_''"

definition name_char :: "char \<Rightarrow> bool" where
  "name_char c \<longleftrightarrow> is_alnum c \<or> c = CHR ''_''"

definition reference_at :: "string \<Rightarrow> (string \<times> string) option" where
  "reference_at s =
     (let body = drop 2 s; name = takeWhile name_char body; rest = dropWhile name_char body
      in if has_prefix s ''${'' \<and> name \<noteq> [] \<and> name_start (hd name) \<and> has_prefix rest ''}''
         then Some (name, drop 1 rest) else None)"

lemma reference_at_shorter:
  assumes "reference_at s = Some (n, r)"
  shows "length r < length s"
proof -
  have p: "has_prefix s ''${''" and r: "r = drop 1 (dropWhile name_char (drop 2 s))"
    using assms by (simp_all add: reference_at_def Let_def split: if_splits)
  from p obtain t where "s = ''${'' @ t" unfolding has_prefix_iff by (rule exE)
  moreover have "length (dropWhile name_char t) \<le> length t" by (rule length_dropWhile_le)
  ultimately show ?thesis using r by simp
qed

function expand :: "(string \<Rightarrow> string option) \<Rightarrow> string \<Rightarrow> string \<times> string list" where
  "expand lookup s =
     (case reference_at s of
        Some (name, rest) \<Rightarrow>
          (let (text, missing) = expand lookup rest
           in case lookup name of
                Some v \<Rightarrow> (v @ text, missing)
              | None \<Rightarrow> (text, name # missing))
      | None \<Rightarrow>
          (case s of
             [] \<Rightarrow> ([], [])
           | c # cs \<Rightarrow> (let (text, missing) = expand lookup cs in (c # text, missing))))"
  by pat_completeness auto
termination
  by (relation "measure (\<lambda>(_, s). length s)") (auto dest: reference_at_shorter)

declare expand.simps [simp del]

definition expandEnvironment :: "(string \<Rightarrow> string option) \<Rightarrow> string \<Rightarrow> string result" where
  "expandEnvironment lookup input =
     (let (text, missing) = expand lookup input
      in if missing \<noteq> [] then
           Inl (Errorf ''configuration references unset environment variables: %s''
             [join_with '', '' missing])
         else Inr text)"

section \<open>Validation\<close>

definition problem :: "bool \<Rightarrow> go_error \<Rightarrow> go_error list" where
  "problem b e = (if b then [e] else [])"

text \<open>The error of a call, when it has one.\<close>

definition failure :: "(go_error \<Rightarrow> go_error) \<Rightarrow> 'a result \<Rightarrow> go_error list" where
  "failure f m = (case m of Inl e \<Rightarrow> [f e] | Inr _ \<Rightarrow> [])"

definition trimLineEndings :: "string \<Rightarrow> string" where
  "trimLineEndings value = trim_right value [CHR 0x0D, CHR 0x0A]"

text \<open>\<open>utf8.ValidString\<close>.\<close>

fun ValidString :: "string \<Rightarrow> bool" where
  "ValidString [] = True"
| "ValidString (c # cs) =
     (utf8_len (c # cs) \<noteq> 0 \<and> ValidString (drop (utf8_len (c # cs) - 1) cs))"

definition containsControl :: "string \<Rightarrow> bool" where
  "containsControl value = contains_control value"

definition validIdentifier :: "string \<Rightarrow> nat \<Rightarrow> bool" where
  "validIdentifier value maxBytes \<longleftrightarrow>
     value \<noteq> [] \<and> value = trim_space value \<and> length value \<le> maxBytes \<and> ValidString value
     \<and> \<not> containsControl value"

definition validHTTPPath :: "string \<Rightarrow> bool" where
  "validHTTPPath value \<longleftrightarrow>
     has_prefix value ''/'' \<and> \<not> contains_any value ''?#'' \<and> value \<noteq> ''/''"

definition validateReadableFile :: "machine \<Rightarrow> string \<Rightarrow> string \<Rightarrow> go_error list" where
  "validateReadableFile m path description =
     (case he_regular m (path_Clean path) of
        Inl e \<Rightarrow> [Wrap ''%s: %w'' [description] e]
      | Inr regular \<Rightarrow> problem (\<not> regular) (Errorf ''%s must be a regular file'' [description]))"

definition resolveSecret :: "machine \<Rightarrow> string \<Rightarrow> string \<Rightarrow> string result" where
  "resolveSecret m value path =
     (if path = [] then (if value = [] then Inl (Msg ''secret is empty'') else Inr value)
      else andThen (wrap_error ''read secret file: %w'' [] (he_read m (path_Clean path))) (\<lambda>content.
        let resolved = trimLineEndings content
        in if resolved = [] then Inl (Msg ''secret file is empty'') else Inr resolved))"

definition Credentials :: "machine \<Rightarrow> cluster_config \<Rightarrow> (string \<times> string) result" where
  "Credentials m c =
     andThen (wrap_error ''cluster %q username: %w'' [cg_name c]
       (resolveSecret m (cg_username c) (cg_username_file c))) (\<lambda>username.
     andThen (wrap_error ''cluster %q password: %w'' [cg_name c]
       (resolveSecret m (cg_password c) (cg_password_file c))) (\<lambda>password.
     if \<not> validIdentifier username 256 then
       Inl (Errorf ''cluster %q username must be a trimmed, printable value of 1 to 256 bytes'' [cg_name c])
     else if CHR '':'' \<in> set username \<or> containsControl username then
       Inl (Errorf ''cluster %q username cannot contain a colon or control characters'' [cg_name c])
     else if password = [] \<or> length password > 4096 then
       Inl (Errorf ''cluster %q password must contain 1 to 4096 characters'' [cg_name c])
     else Inr (username, password)))"

text \<open>A loop over a list of names that reports the ones that are not valid or not new.\<close>

primrec uniqueValues ::
  "(string \<Rightarrow> bool) \<Rightarrow> (string \<Rightarrow> go_error) \<Rightarrow> (string \<Rightarrow> go_error) \<Rightarrow> string set \<Rightarrow> string list \<Rightarrow> go_error list" where
  "uniqueValues valid invalid duplicate seen [] = []"
| "uniqueValues valid invalid duplicate seen (v # vs) =
     (if \<not> valid v then invalid v # uniqueValues valid invalid duplicate seen vs
      else problem (v \<in> seen) (duplicate v)
        @ uniqueValues valid invalid duplicate (insert v seen) vs)"

definition allowedConditional :: "string list" where
  "allowedConditional =
     [''namespace_performance'', ''node_disk_capacity'', ''node_service_process'',
      ''recovery_progress'', ''vdc_performance'']"

primrec conditionalProblems :: "string \<Rightarrow> string set \<Rightarrow> string list \<Rightarrow> go_error list" where
  "conditionalProblems name seen [] = []"
| "conditionalProblems name seen (v # vs) =
     problem (v \<notin> set allowedConditional)
       (Errorf ''cluster %q conditional capability %q is unsupported'' [name, v])
     @ problem (v \<in> seen) (Errorf ''cluster %q conditional capability %q is duplicated'' [name, v])
     @ conditionalProblems name (insert v seen) vs"

type_synonym name_lists = "(string \<times> string list) list"

definition originOnly :: "string \<Rightarrow> bool" where
  "originOnly endpoint =
     (case url_Parse endpoint of
        None \<Rightarrow> False
      | Some u \<Rightarrow>
          \<not> (url_scheme u \<noteq> ''https'' \<or> Hostname u = [] \<or> url_user u \<or> url_query u \<noteq> []
             \<or> url_fragment u \<noteq> [] \<or> (url_path u \<noteq> [] \<and> url_path u \<noteq> ''/'')))"

definition resourceProblems :: "string \<Rightarrow> string \<times> string list \<Rightarrow> go_error list" where
  "resourceProblems name = (\<lambda>(field, vs).
     uniqueValues (\<lambda>v. validIdentifier v 128)
       (\<lambda>v. Errorf ''cluster %q node resource %s is invalid'' [name, field])
       (\<lambda>v. Errorf ''cluster %q node resource %s %q is duplicated'' [name, field, v]) {} vs)"

definition replicationProblems :: "string \<Rightarrow> string \<times> string list \<Rightarrow> go_error list" where
  "replicationProblems name = (\<lambda>(kind, vs).
     uniqueValues (\<lambda>v. validIdentifier v 512)
       (\<lambda>v. Errorf ''cluster %q %s id is invalid'' [name, kind])
       (\<lambda>v. Errorf ''cluster %q %s id %q is duplicated'' [name, kind, v]) {} vs)"

definition validateCluster :: "machine \<Rightarrow> (name_lists \<Rightarrow> name_lists) \<Rightarrow> cluster_config \<Rightarrow> go_error list" where
  "validateCluster m ord c =
     (let name = cg_name c; resources = cg_resources c; targets = cg_replication c in concat
      [problem (\<not> validIdentifier name 128)
         (Msg ''ecs cluster name must be a trimmed, printable value of 1 to 128 bytes''),
       problem (\<not> validIdentifier (cg_site c) 128)
         (Errorf ''cluster %q site must be a trimmed, printable value of 1 to 128 bytes'' [name]),
       problem (\<not> validIdentifier (cg_environment c) 64)
         (Errorf ''cluster %q environment must be a trimmed, printable value of 1 to 64 bytes'' [name]),
       problem (\<not> originOnly (cg_endpoint c))
         (Errorf ''cluster %q endpoint must be an origin-only HTTPS URL'' [name]),
       problem ((cg_username c = []) = (cg_username_file c = []))
         (Errorf ''cluster %q requires exactly one of username or usernameFile'' [name]),
       problem ((cg_password c = []) = (cg_password_file c = []))
         (Errorf ''cluster %q requires exactly one of password or passwordFile'' [name]),
       if ct_ca_file (cg_tls c) \<noteq> [] then
         validateReadableFile m (ct_ca_file (cg_tls c)) ''cluster CA file'' else [],
       conditionalProblems name {} (cg_conditional c),
       problem (nr_max_interfaces resources < 0 \<or> nr_max_interfaces resources > 128)
         (Errorf ''cluster %q nodeResources.maxNetworkInterfaces must be 0/default or between 1 and 128''
            [name]),
       concat (map (resourceProblems name)
         (ord [(''filesystem'', nr_filesystems resources),
               (''network interface'', nr_interfaces resources)])),
       problem (''node_disk_capacity'' \<in> set (cg_conditional c) \<and> nr_filesystems resources = [])
         (Errorf ''cluster %q conditional node_disk_capacity requires nodeResources.filesystems'' [name]),
       concat (map (replicationProblems name)
         (ord [(''replication group'', rg_groups targets), (''replication link'', rg_links targets)])),
       concat (map (\<lambda>v. problem (v \<in> set (rg_groups targets))
         (Errorf ''cluster %q replication id %q is duplicated across groups and links'' [name, v]))
           (rg_links targets))])"

definition CIDR_error :: "string \<Rightarrow> go_error list" where
  "CIDR_error value =
     (case ParseCIDR value of
        None \<Rightarrow> [Wrap ''trusted proxy CIDR %q: %w'' [value] (DecodeError ''invalid CIDR address'')]
      | Some _ \<Rightarrow> [])"

definition tokenFileProblems :: "machine \<Rightarrow> string \<Rightarrow> go_error list" where
  "tokenFileProblems m file =
     (if file = [] then [Msg ''inventory token authentication requires tokenFile'']
      else case he_read m (path_Clean file) of
          Inl e \<Rightarrow> [Wrap ''read inventory token file: %w'' [] e]
        | Inr content \<Rightarrow>
            (let token = trimLineEndings content
             in problem (length token < 16 \<or> length token > 4096 \<or> contains_space token)
                  (Msg ''inventory token file must contain 16 to 4096 non-whitespace characters'')))"

definition validateInventory :: "machine \<Rightarrow> inventory_security \<Rightarrow> go_error list" where
  "validateInventory m s =
     problem (is_max_page s < 1 \<or> is_max_page s > 10000)
       (Msg ''security.inventoryApi.maxPageSize must be between 1 and 10000'')
     @ (if \<not> is_enabled s then []
        else if is_authentication s = ''token'' then tokenFileProblems m (is_token_file s)
        else if is_authentication s = ''proxy'' then
          problem (is_proxy_header s = [] \<or> is_trusted s = [])
            (Msg ''proxy authentication requires proxyHeader and trustedProxyCIDRs'')
          @ concat (map CIDR_error (is_trusted s))
        else [Msg ''inventory authentication must be token or proxy''])"

text \<open>The orders of the loops over maps in \<^verbatim>\<open>Validate\<close> and the functions it calls.\<close>

record map_orders =
  mo_intervals :: "intervals \<Rightarrow> intervals"
  mo_overrides :: "(string \<times> duration option) list \<Rightarrow> (string \<times> duration option) list"
  mo_names :: "name_lists \<Rightarrow> name_lists"

definition serverProblems :: "machine \<Rightarrow> server_config \<Rightarrow> go_error list" where
  "serverProblems m sv =
     (if sv_listen sv = [] then [Msg ''server.listenAddress is required'']
      else failure (Wrap ''server.listenAddress: %w'' []) (he_tcp m (sv_listen sv)))
     @ (let cert = st_cert (sv_tls sv); key = st_key (sv_tls sv)
        in if (cert = []) \<noteq> (key = []) then
             [Msg ''server TLS certFile and keyFile must be set together'']
           else if cert \<noteq> [] then
             validateReadableFile m cert ''server TLS certificate''
             @ validateReadableFile m key ''server TLS key''
           else [])"

definition prometheusProblems :: "prometheus_config \<Rightarrow> bool \<Rightarrow> go_error list" where
  "prometheusProblems pm inventoryEnabled =
     (if \<not> validHTTPPath (pm_path pm) then [Msg ''prometheus.path must be an absolute path'']
      else problem (pm_path pm = ''/health'' \<or> pm_path pm = ''/api/v1'' \<or> has_prefix (pm_path pm) ''/api/v1/'')
        (Msg ''prometheus.path conflicts with a reserved API path''))
     @ problem (pm_protected pm \<and> \<not> inventoryEnabled)
         (Msg ''protected Prometheus endpoint requires inventory API authentication'')"

definition collectorProblems :: "(intervals \<Rightarrow> intervals) \<Rightarrow> collector_config \<Rightarrow> go_error list" where
  "collectorProblems ord co = concat
     [problem (co_timeout co \<le> 0) (Msg ''collector.defaultTimeout must be positive''),
      problem (rt_max_attempts (co_retry co) < 1 \<or> rt_max_attempts (co_retry co) > 10)
        (Msg ''collector.retry.maxAttempts must be between 1 and 10''),
      problem (rt_initial (co_retry co) \<le> 0 \<or> rt_max (co_retry co) < rt_initial (co_retry co))
        (Msg ''collector retry backoff range is invalid''),
      problem (fle (rl_per_second (co_rate co)) fzero \<or> flt (f64_nat 10000) (rl_per_second (co_rate co)))
        (Msg ''collector.rateLimit.requestsPerSecond must be greater than 0 and at most 10000''),
      problem (rl_burst (co_rate co) < 1 \<or> rl_burst (co_rate co) > 10000)
        (Msg ''collector.rateLimit.burst must be between 1 and 10000''),
      problem (flt (co_jitter co) fzero \<or> flt (Fin False (1 / 2)) (co_jitter co))
        (Msg ''collector.jitterRatio must be between 0 and 0.5''),
      concat (map (\<lambda>(name, interval). problem (interval \<le> 0)
        (Errorf ''collector.intervals.%s must be positive'' [name])) (ord (Values (co_intervals co)))),
      problem (cu_max_requests (co_concurrency co) < 1 \<or> cu_max_requests (co_concurrency co) > 64)
        (Msg ''collector concurrency must be between 1 and 64''),
      problem (cu_page_size (co_concurrency co) < 1 \<or> cu_page_size (co_concurrency co) > 10000)
        (Msg ''collector bucketPageSize must be between 1 and 10000'')]"

definition timeoutsValid :: "duration \<times> duration \<times> duration \<Rightarrow> bool" where
  "timeoutsValid = (\<lambda>(connect, read, overall).
     \<not> (connect \<le> 0 \<or> read \<le> 0 \<or> overall \<le> 0 \<or> connect > overall \<or> read > overall))"

definition clusterProblems :: "machine \<Rightarrow> map_orders \<Rightarrow> collector_config \<Rightarrow> cluster_config \<Rightarrow> go_error list" where
  "clusterProblems m ord co c =
     validateCluster m (mo_names ord) c
     @ failure (\<lambda>e. e) (Credentials m c)
     @ concat (map (\<lambda>(name, interval). problem (interval \<le> 0)
         (Errorf ''cluster %q interval %s must be positive'' [cg_name c, name]))
           (mo_intervals ord (resolveIntervals (mo_overrides ord) (cg_intervals c) (co_intervals co))))
     @ problem (\<not> timeoutsValid (resolveTimeouts (cg_timeouts c) (co_timeout co)))
         (Errorf ''cluster %q timeouts must be positive and connect/read cannot exceed overall'' [cg_name c])"

primrec clustersProblems ::
  "machine \<Rightarrow> map_orders \<Rightarrow> collector_config \<Rightarrow> string set \<Rightarrow> cluster_config list \<Rightarrow> go_error list" where
  "clustersProblems m ord co seen [] = []"
| "clustersProblems m ord co seen (c # cs) =
     problem (cg_name c \<in> seen) (Errorf ''ecs cluster name %q is duplicated'' [cg_name c])
     @ clusterProblems m ord co c
     @ clustersProblems m ord co (insert (cg_name c) seen) cs"

definition problems :: "machine \<Rightarrow> map_orders \<Rightarrow> config \<Rightarrow> go_error list" where
  "problems m ord c = concat
     [serverProblems m (cf_server c),
      prometheusProblems (cf_prometheus c) (is_enabled (cf_inventory c)),
      problem (ca_stale_tolerance (cf_cache c) \<le> 0
          \<or> ca_max_stale (cf_cache c) < ca_stale_tolerance (cf_cache c))
        (Msg ''cache maxStale must be at least staleTolerance and both must be positive''),
      collectorProblems (mo_intervals ord) (cf_collector c),
      validateInventory m (cf_inventory c),
      problem (cf_clusters c = []) (Msg ''ecs.clusters must contain at least one cluster''),
      clustersProblems m ord (cf_collector c) {} (cf_clusters c)]"

definition Validate :: "machine \<Rightarrow> map_orders \<Rightarrow> config \<Rightarrow> unit result" where
  "Validate m ord c = (let ps = problems m ord c in if ps = [] then Inr () else Inl (Joined ps))"

section \<open>Loading\<close>

definition getenv :: "machine \<Rightarrow> string \<Rightarrow> string" where
  "getenv m name = (case he_env m name of None \<Rightarrow> [] | Some v \<Rightarrow> v)"

definition ApplyEnvironment :: "machine \<Rightarrow> config \<Rightarrow> config result" where
  "ApplyEnvironment m c =
     (let listen = getenv m ''ECS_EXPORTER_LISTEN_ADDRESS'';
          file = getenv m ''ECS_EXPORTER_INVENTORY_TOKEN_FILE'';
          pages = getenv m ''ECS_EXPORTER_MAX_PAGE_SIZE'';
          c1 = (if listen \<noteq> [] then c\<lparr>cf_server := (cf_server c)\<lparr>sv_listen := listen\<rparr>\<rparr> else c);
          c2 = (if file \<noteq> [] then c1\<lparr>cf_inventory := (cf_inventory c1)\<lparr>is_token_file := file\<rparr>\<rparr> else c1)
      in if pages \<noteq> [] then
           (case Atoi pages of
              None \<Rightarrow> Inl (Wrap ''ECS_EXPORTER_MAX_PAGE_SIZE: %w'' [] (DecodeError ''invalid syntax''))
            | Some k \<Rightarrow> Inr (c2\<lparr>cf_inventory := (cf_inventory c2)\<lparr>is_max_page := k\<rparr>\<rparr>))
         else Inr c2)"

definition Load :: "machine \<Rightarrow> map_orders \<Rightarrow> string \<Rightarrow> config result" where
  "Load m ord path =
     andThen (wrap_error ''read config: %w'' [] (he_read m path)) (\<lambda>content.
     andThen (expandEnvironment (he_env m) content) (\<lambda>expanded.
     andThen (wrap_error ''decode config: %w'' [] (he_yaml m expanded Defaults)) (\<lambda>(value, next).
     case next of
       AnotherDocument \<Rightarrow> Inl (Msg ''configuration contains multiple YAML documents'')
     | BadDocument \<Rightarrow> Inl (Wrap ''decode trailing configuration: %w'' [] (DecodeError ''yaml''))
     | EndOfInput \<Rightarrow>
         andThen (ApplyEnvironment m value) (\<lambda>value.
         andThen (Validate m ord value) (\<lambda>_. Inr value)))))"

section \<open>Durations\<close>

text \<open>
  \<^verbatim>\<open>time.ParseDuration\<close>: a sign and a sequence of decimal numbers with units. The whole
  part is exact; a fraction is scaled in float64 arithmetic and truncated.
\<close>

definition duration_unit :: "string \<Rightarrow> nat option" where
  "duration_unit u =
     map_of [(''ns'', 1), (''us'', 1000), ([CHR 0xC2, CHR 0xB5, CHR ''s''], 1000),
       ([CHR 0xCE, CHR 0xBC, CHR ''s''], 1000), (''ms'', 1000000), (''s'', 1000000000),
       (''m'', 60000000000), (''h'', 3600000000000)] u"

text \<open>The digits of a fraction: their value, the power of ten, and whether digits were dropped.\<close>

definition fraction_digit :: "char \<Rightarrow> nat \<times> f64 \<times> bool \<Rightarrow> nat \<times> f64 \<times> bool" where
  "fraction_digit c = (\<lambda>(x, scale, full).
     let y = 10 * x + digit_val c
     in if full \<or> x > (2 ^ 63 - 1) div 10 \<or> y > 2 ^ 63 then (x, scale, True)
        else (y, fmul scale (f64_nat 10), False))"

definition truncated :: "f64 \<Rightarrow> nat" where
  "truncated v = (case v of Fin s r \<Rightarrow> nat \<lfloor>r\<rfloor> | _ \<Rightarrow> 0)"

text \<open>One number with its unit, and what follows.\<close>

definition duration_part :: "string \<Rightarrow> (nat \<times> string) option" where
  "duration_part s =
     (let ints = takeWhile is_digit s; s1 = dropWhile is_digit s;
          dotted = has_prefix s1 ''.'';
          fracs = (if dotted then takeWhile is_digit (drop 1 s1) else []);
          s2 = (if dotted then dropWhile is_digit (drop 1 s1) else s1);
          name = takeWhile (\<lambda>c. \<not> is_digit c \<and> c \<noteq> CHR ''.'') s2;
          s3 = dropWhile (\<lambda>c. \<not> is_digit c \<and> c \<noteq> CHR ''.'') s2;
          v = dec_value ints;
          (f, scale, _) = fold fraction_digit fracs (0, f64_nat 1, False)
      in if ints = [] \<and> fracs = [] then None
         else if v > 2 ^ 63 then None
         else case duration_unit name of
             None \<Rightarrow> None
           | Some unit \<Rightarrow>
               if v > 2 ^ 63 div unit then None
               else
                 let total = v * unit
                   + (if f > 0 then truncated (fmul (f64_of_int (int f)) (fdiv (f64_of_int (int unit)) scale)) else 0)
                 in if total > 2 ^ 63 then None else Some (total, s3))"

lemma duration_part_shorter:
  assumes "duration_part s = Some (k, r)" shows "length r < length s"
proof -
  define ints where "ints = takeWhile is_digit s"
  define s1 where "s1 = dropWhile is_digit s"
  define s2 where "s2 = (if has_prefix s1 ''.'' then dropWhile is_digit (drop 1 s1) else s1)"
  have r: "r = dropWhile (\<lambda>c. \<not> is_digit c \<and> c \<noteq> CHR ''.'') s2"
    using assms by (auto simp: duration_part_def Let_def s2_def s1_def split: if_splits prod.splits option.splits)
  have l1: "length ints + length s1 = length s"
    unfolding ints_def s1_def by (metis length_append takeWhile_dropWhile_id)
  have l2: "length s2 \<le> length s1"
    using length_dropWhile_le [of is_digit "drop 1 s1"] by (auto simp: s2_def)
  have l3: "length r \<le> length s2" unfolding r by (rule length_dropWhile_le)
  show ?thesis
  proof (cases "has_prefix s1 ''.''")
    case True
    then have "length s2 < length s1"
      using length_dropWhile_le [of is_digit "drop 1 s1"] by (cases s1) (auto simp: s2_def has_prefix_def)
    then show ?thesis using l1 l3 by simp
  next
    case False
    then have "ints \<noteq> []"
      using assms by (auto simp: duration_part_def Let_def ints_def s1_def split: if_splits prod.splits option.splits)
    then show ?thesis using l1 l2 l3 by (cases ints) auto
  qed
qed

function duration_parts :: "nat \<Rightarrow> string \<Rightarrow> nat option" where
  "duration_parts d s =
     (if s = [] then Some d
      else case duration_part s of
          None \<Rightarrow> None
        | Some (v, rest) \<Rightarrow> if d + v > 2 ^ 63 then None else duration_parts (d + v) rest)"
  by pat_completeness auto
termination
  by (relation "measure (\<lambda>(_, s). length s)") (auto dest: duration_part_shorter)

declare duration_parts.simps [simp del]

definition ParseDuration :: "string \<Rightarrow> duration option" where
  "ParseDuration text =
     (let negative = has_prefix text ''-'';
          s = (if negative \<or> has_prefix text ''+'' then drop 1 text else text)
      in if s = ''0'' then Some 0
         else if s = [] then None
         else case duration_parts 0 s of
             None \<Rightarrow> None
           | Some d \<Rightarrow>
               if negative then Some (- int d)
               else if d > 2 ^ 63 - 1 then None else Some (int d))"

text \<open>\<^verbatim>\<open>Duration.UnmarshalText\<close>, which the YAML decoder calls.\<close>

definition UnmarshalText :: "string \<Rightarrow> duration result" where
  "UnmarshalText value =
     (case ParseDuration value of
        None \<Rightarrow> Inl (DecodeError ''invalid duration'')
      | Some parsed \<Rightarrow> Inr parsed)"

end
