(* ===== verification/Host.thy ===== *)
theory Host
  imports Config "HOL-Library.Monad_Syntax"
begin

text \<open>
  What the ECS client asks of its surroundings. The record \<open>host\<close> gathers them over a type
  \<open>'w\<close> of worlds: the clock, a timer raced against the context of the call, the random source,
  the semaphore, the HTTP round trip, and Go's implementation-defined conversion of a float64
  outside the range of int64. A world evolves with every question.

  The helpers of \<open>internal/ecs/client.go\<close> that neither wait nor send are here as well.
\<close>

record http_request =
  rq_method :: string
  rq_url :: string
  rq_headers :: "(string \<times> string) list"
  rq_basic :: "(string \<times> string) option"
  rq_body :: string

text \<open>
  A response: its status, \<^verbatim>\<open>Header.Get\<close>, the cookies it sets, and its body with whether reading
  it fails. A transport error as \<^verbatim>\<open>errors.Is\<close> and \<^verbatim>\<open>errors.As\<close> see it.
\<close>

record http_response =
  rs_status :: int
  rs_header :: "string \<Rightarrow> string"
  rs_cookies :: "(string \<times> string) list"
  rs_body :: string
  rs_broken :: bool

record transport_error =
  te_canceled :: bool
  te_deadline :: bool
  te_network :: bool

record 'w host =
  ho_now :: "'w \<Rightarrow> time \<times> 'w"
  ho_sleep :: "duration \<Rightarrow> 'w \<Rightarrow> bool \<times> 'w"
  ho_random :: "int \<Rightarrow> 'w \<Rightarrow> int \<times> 'w"
  ho_acquire :: "'w \<Rightarrow> bool \<times> 'w"
  ho_release :: "'w \<Rightarrow> 'w"
  ho_do :: "http_request \<Rightarrow> 'w \<Rightarrow> (transport_error + http_response) \<times> 'w"
  ho_http_date :: "string \<Rightarrow> time option"
  ho_convert :: "f64 \<Rightarrow> int"

text \<open>What the observer is told.\<close>

datatype observation =
    ObserveAPI (obs_cluster: string) (obs_logical: string) (obs_result: string) (obs_kind: string)
      (obs_correlation: string) (obs_status: int) (obs_attempt: int) (obs_duration: duration)
  | ObserveAPIResponseSize (obs_cluster: string) (obs_logical: string) (obs_result: string)
      (obs_bytes: int)

section \<open>Errors of the API\<close>

definition api_failure :: "string \<Rightarrow> string \<Rightarrow> go_error" where
  "api_failure logical kind =
     Api \<lparr>ae_logical = logical, ae_status = 0, ae_code = 0, ae_kind = kind, ae_retryable = False\<rparr>"

definition api_status :: "string \<Rightarrow> int \<Rightarrow> string \<Rightarrow> bool \<Rightarrow> go_error" where
  "api_status logical status kind retryable =
     Api \<lparr>ae_logical = logical, ae_status = status, ae_code = 0, ae_kind = kind,
          ae_retryable = retryable\<rparr>"

text \<open>\<^verbatim>\<open>errors.As(err, &apiError)\<close>: the first API error of the chain.\<close>

fun as_api :: "go_error \<Rightarrow> api_error option" where
  "as_api (Api e) = Some e"
| "as_api (Wrap f ops e) = as_api e"
| "as_api (Joined es) = (case List.map_filter id (map as_api es) of [] \<Rightarrow> None | a # _ \<Rightarrow> Some a)"
| "as_api (Errorf f ops) = None"
| "as_api (DecodeError m) = None"

definition retryable_error :: "go_error \<Rightarrow> bool" where
  "retryable_error e = (case as_api e of None \<Rightarrow> False | Some a \<Rightarrow> ae_retryable a)"

definition retryableStatus :: "int \<Rightarrow> bool" where
  "retryableStatus status \<longleftrightarrow> status = 429 \<or> status = 500 \<or> status = 502 \<or> status = 503 \<or> status = 504"

definition isRetryableTransport :: "transport_error \<Rightarrow> bool" where
  "isRetryableTransport e =
     (if te_canceled e then False else if te_deadline e then True else te_network e)"

text \<open>\<^verbatim>\<open>strconv.Itoa\<close>.\<close>

definition Itoa :: "int \<Rightarrow> string" where
  "Itoa k = (if k < 0 then CHR ''-'' # dec_digits (nat (- k)) else dec_digits (nat k))"

definition status_kind :: "int \<Rightarrow> string" where
  "status_kind status = ''http_'' @ Itoa status"

section \<open>Correlation ids\<close>

definition fragment_char :: "char \<Rightarrow> bool" where
  "fragment_char c \<longleftrightarrow>
     97 \<le> byte c \<and> byte c \<le> 122 \<or> 65 \<le> byte c \<and> byte c \<le> 90 \<or> 48 \<le> byte c \<and> byte c \<le> 57
     \<or> c = CHR ''-'' \<or> c = CHR ''_''"

text \<open>
  The loop over the characters of a name: the bytes of the others are skipped like the
  characters they belong to.
\<close>

primrec fragmentLoop :: "string \<Rightarrow> string \<Rightarrow> string" where
  "fragmentLoop result [] = result"
| "fragmentLoop result (c # cs) =
     (let result = (if fragment_char c then result @ [c] else result)
      in if length result \<ge> 32 then result else fragmentLoop result cs)"

definition labelFragment :: "string \<Rightarrow> string" where
  "labelFragment value =
     (let value = trim_space value
      in if value = [] then ''ecs''
         else let result = fragmentLoop [] value
              in if result = [] then ''ecs'' else result)"

text \<open>The context carries its correlation id, the empty text when it has none.\<close>

definition WithCorrelationID :: "string \<Rightarrow> string \<Rightarrow> 64 word \<Rightarrow> string \<times> 64 word" where
  "WithCorrelationID ctx cluster sequence =
     (if ctx \<noteq> [] then (ctx, sequence)
      else (labelFragment cluster @ ''-'' @ dec_digits (unat (sequence + 1)), sequence + 1))"

definition CorrelationID :: "string \<Rightarrow> string" where
  "CorrelationID ctx = ctx"

section \<open>Addresses and bodies\<close>

definition JoinHostPort :: "string \<Rightarrow> string \<Rightarrow> string" where
  "JoinHostPort host port =
     (if CHR '':'' \<in> set host then ''['' @ host @ '']:'' @ port else host @ '':'' @ port)"

definition managementURL :: "string \<Rightarrow> url result" where
  "managementURL value =
     (case url_Parse value of
        None \<Rightarrow> Inl (Msg ''invalid HTTPS endpoint'')
      | Some parsed \<Rightarrow>
          if url_scheme parsed \<noteq> ''https'' \<or> Hostname parsed = [] \<or> url_user parsed
             \<or> url_query parsed \<noteq> [] \<or> url_fragment parsed \<noteq> []
             \<or> (url_path parsed \<noteq> [] \<and> url_path parsed \<noteq> ''/'')
          then Inl (Msg ''invalid HTTPS endpoint'')
          else
            let parsed = (if Port parsed = []
                          then parsed\<lparr>url_host := JoinHostPort (Hostname parsed) ''4443''\<rparr> else parsed)
            in Inr (parsed\<lparr>url_path := [], url_query := [], url_fragment := []\<rparr>))"

definition validRelativePath :: "string \<Rightarrow> bool" where
  "validRelativePath value \<longleftrightarrow>
     has_prefix value ''/'' \<and> \<not> has_prefix value ''//'' \<and> \<not> contains_any value ''?#''"

definition maxResponseSize :: int where "maxResponseSize = 32 * 2 ^ 20"

text \<open>The reader yields the body, or an error when it breaks before the limit.\<close>

definition readBounded :: "http_response \<Rightarrow> int \<Rightarrow> string result" where
  "readBounded response limit =
     (let data = take (nat (limit + 1)) (rs_body response)
      in if rs_broken response \<and> int (length (rs_body response)) < limit + 1 then Inl (Msg ''read'')
         else if int (length data) > limit then Inl (Msg ''response exceeds limit'')
         else Inr data)"

text \<open>The redirect policy: the requests already made, the oldest first, and the next one.\<close>

definition checkRedirect :: "url \<Rightarrow> url list \<Rightarrow> unit result" where
  "checkRedirect request via =
     (case via of
        [] \<Rightarrow> Inr ()
      | origin # _ \<Rightarrow>
          if url_scheme request \<noteq> url_scheme origin \<or> url_host request \<noteq> url_host origin
          then Inl (Msg ''cross-origin redirect rejected'') else Inr ())"

definition parseRetryAfter :: "'w host \<Rightarrow> string \<Rightarrow> time \<Rightarrow> duration" where
  "parseRetryAfter h value now =
     (if value = [] then 0
      else case Atoi (trim_space value) of
          Some seconds \<Rightarrow>
            if seconds \<le> 0 \<or> seconds > max_int64 div second then 0 else wrap64 (seconds * second)
        | None \<Rightarrow>
            (case ho_http_date h value of
               None \<Rightarrow> 0
             | Some timestamp \<Rightarrow> if timestamp > now then time_sub timestamp now else 0))"

text \<open>The code of an error body: a positive integer, as a JSON number or as a string.\<close>

definition positive_code :: "string \<Rightarrow> int option" where
  "positive_code text = (case Atoi text of Some k \<Rightarrow> if k > 0 then Some k else None | None \<Rightarrow> None)"

text \<open>Decoding into a \<^verbatim>\<open>json.Number\<close>, and into a string that starts out empty.\<close>

definition json_number_text :: "json \<Rightarrow> string option" where
  "json_number_text j =
     (case j of
        JNum t \<Rightarrow> Some t
      | JStr t \<Rightarrow> (case parse_number t of Some (_, []) \<Rightarrow> Some t | _ \<Rightarrow> None)
      | JNull \<Rightarrow> Some []
      | _ \<Rightarrow> None)"

definition json_string_text :: "json \<Rightarrow> string option" where
  "json_string_text j = (case j of JStr t \<Rightarrow> Some t | JNull \<Rightarrow> Some [] | _ \<Rightarrow> None)"

definition parseAPIErrorCode :: "string \<Rightarrow> int" where
  "parseAPIErrorCode data =
     (case decode_only data of
        None \<Rightarrow> 0
      | Some envelope \<Rightarrow>
          (case dec_struct [(''code'', \<lambda>j _. Inr (Some j))] envelope None of
             Inr (Some code) \<Rightarrow>
               (case Option.bind (json_number_text code) positive_code of
                  Some value \<Rightarrow> value
                | None \<Rightarrow>
                    (case Option.bind (json_string_text code) positive_code of
                       Some value \<Rightarrow> value
                     | None \<Rightarrow> 0))
           | _ \<Rightarrow> 0))"

text \<open>\<^verbatim>\<open>json.Marshal\<close>, which also escapes what HTML would interpret, U+2028 and U+2029.\<close>

definition hex_lower :: "nat \<Rightarrow> char" where
  "hex_lower n = char_of (if n < 10 then 48 + n else 87 + n)"

definition u00 :: "nat \<Rightarrow> string" where
  "u00 n = [CHR 0x5C] @ ''u00'' @ [hex_lower (n div 16), hex_lower (n mod 16)]"

definition marshal_ascii :: "char \<Rightarrow> string" where
  "marshal_ascii c =
     (if c = CHR 0x22 \<or> c = CHR 0x5C then [CHR 0x5C, c]
      else if byte c = 8 then [CHR 0x5C, CHR ''b'']
      else if byte c = 12 then [CHR 0x5C, CHR ''f'']
      else if byte c = 10 then [CHR 0x5C, CHR ''n'']
      else if byte c = 13 then [CHR 0x5C, CHR ''r'']
      else if byte c = 9 then [CHR 0x5C, CHR ''t'']
      else if byte c < 32 \<or> c = CHR ''<'' \<or> c = CHR ''>'' \<or> c = CHR ''&'' then u00 (byte c)
      else [c])"

fun marshal_chars :: "string \<Rightarrow> string" where
  "marshal_chars [] = []"
| "marshal_chars (c # cs) =
     (let n = utf8_len (c # cs); w = take n (c # cs) in
      if n = 0 then [CHR 0x5C] @ ''ufffd'' @ marshal_chars cs
      else if n = 1 then marshal_ascii c @ marshal_chars cs
      else (if map byte w = [0xE2, 0x80, 0xA8] then [CHR 0x5C] @ ''u2028''
            else if map byte w = [0xE2, 0x80, 0xA9] then [CHR 0x5C] @ ''u2029'' else w)
           @ marshal_chars (drop (n - 1) cs))"

definition marshal_string :: "string \<Rightarrow> string" where
  "marshal_string s = [CHR 0x22] @ marshal_chars s @ [CHR 0x22]"

fun json_Marshal :: "json \<Rightarrow> string" where
  "json_Marshal JNull = ''null''"
| "json_Marshal (JBool b) = (if b then ''true'' else ''false'')"
| "json_Marshal (JNum t) = t"
| "json_Marshal (JStr s) = marshal_string s"
| "json_Marshal (JArr js) = ''['' @ join_with '','' (map json_Marshal js) @ '']''"
| "json_Marshal (JObj ms) =
     ''{'' @ join_with '','' (map (\<lambda>(k, v). marshal_string k @ '':'' @ json_Marshal v) ms) @ ''}''"

text \<open>A request without a body is not the same as one with an empty body.\<close>

definition marshalRequestBody :: "json option \<Rightarrow> string option" where
  "marshalRequestBody value = map_option json_Marshal value"

text \<open>
  \<^verbatim>\<open>url.Values.Encode\<close>, \<^verbatim>\<open>URL.String\<close> for an address with a host whose path is
  also given in escaped form, and what \<^verbatim>\<open>http.NewRequest\<close> refuses.
\<close>

definition percent :: "char \<Rightarrow> string" where
  "percent c = [CHR ''%'', hex_upper (byte c div 16), hex_upper (byte c mod 16)]"

definition QueryEscape :: "string \<Rightarrow> string" where
  "QueryEscape s = concat (map (\<lambda>c.
     if c = CHR '' '' then ''+'' else if is_alnum c \<or> c \<in> set ''-_.~'' then [c] else percent c) s)"

type_synonym query = "(string \<times> string list) list"

definition Encode :: "query \<Rightarrow> string" where
  "Encode vs = join_with ''&'' (concat (map (\<lambda>k.
     map (\<lambda>v. QueryEscape k @ ''='' @ QueryEscape v) (case map_of vs k of None \<Rightarrow> [] | Some xs \<Rightarrow> xs))
     (sort (remdups (map fst vs)))))"

definition valid_encoded :: "string \<Rightarrow> bool" where
  "valid_encoded s = list_all (\<lambda>c. c \<in> set (CHR 0x27 # ''!$&()*+,;=:@[]%'') \<or> \<not> should_escape c EncodePath) s"

definition EscapedPath :: "string \<Rightarrow> string \<Rightarrow> string" where
  "EscapedPath path raw =
     (if raw \<noteq> [] \<and> valid_encoded raw \<and> unescape EncodePath raw = Some path then raw
      else if path = ''*'' then ''*''
      else concat (map (\<lambda>c. if should_escape c EncodePath then percent c else [c]) path))"

definition url_String :: "url \<Rightarrow> string \<Rightarrow> string" where
  "url_String u raw =
     (let path = EscapedPath (url_path u) raw;
          host = concat (map (\<lambda>c. if should_escape c EncodeHost then percent c else [c]) (url_host u))
      in url_scheme u @ ''://'' @ host
         @ (if path \<noteq> [] \<and> \<not> has_prefix path ''/'' then ''/'' else []) @ path
         @ (if url_query u \<noteq> [] then ''?'' @ url_query u else []))"

definition token_char :: "char \<Rightarrow> bool" where
  "token_char c \<longleftrightarrow> is_alnum c \<or> c \<in> set (CHR 0x27 # ''!#$%&*+-.^_`|~'')"

definition valid_request :: "string \<Rightarrow> string \<Rightarrow> bool" where
  "valid_request verb address \<longleftrightarrow>
     verb \<noteq> [] \<and> list_all token_char verb \<and> url_Parse address \<noteq> None"

end
