(* ===== verification/Regulators.thy ===== *)
theory Regulators
  imports Host
begin

text \<open>
  The three regulators of the ECS client (\<open>internal/ecs/client.go\<close>): the circuit breaker, the
  token bucket that limits the rate of requests, and the backoff between attempts.
\<close>

section \<open>Circuit breaker\<close>

record circuit_breaker =
  cb_failures :: int
  cb_open_until :: time

definition newBreaker :: circuit_breaker where
  "newBreaker = \<lparr>cb_failures = 0, cb_open_until = 0\<rparr>"

text \<open>\<open>Allow\<close> returns whether the call may proceed.\<close>

definition Allow :: "time \<Rightarrow> circuit_breaker \<Rightarrow> bool \<times> circuit_breaker" where
  "Allow now b =
     (if now < cb_open_until b then (False, b)
      else if \<not> is_zero_time (cb_open_until b) then (True, \<lparr>cb_failures = 0, cb_open_until = 0\<rparr>)
      else (True, b))"

definition Success :: "circuit_breaker \<Rightarrow> circuit_breaker" where
  "Success b = \<lparr>cb_failures = 0, cb_open_until = 0\<rparr>"

definition Failure :: "time \<Rightarrow> circuit_breaker \<Rightarrow> circuit_breaker" where
  "Failure now b =
     (let failures = cb_failures b + 1
      in \<lparr>cb_failures = failures,
          cb_open_until = (if failures \<ge> 5 then now + 30 * second else cb_open_until b)\<rparr>)"

text \<open>The calls on one breaker, in the order in which they take its mutex.\<close>

datatype breaker_call = Asked time | Succeeded | Failed time

fun breaker_step :: "breaker_call \<Rightarrow> circuit_breaker \<Rightarrow> circuit_breaker" where
  "breaker_step (Asked t) b = snd (Allow t b)"
| "breaker_step Succeeded b = Success b"
| "breaker_step (Failed t) b = Failure t b"

definition breaker_after :: "breaker_call list \<Rightarrow> circuit_breaker \<Rightarrow> circuit_breaker" where
  "breaker_after calls b = fold breaker_step calls b"

text \<open>The failures since the last success, the oldest first.\<close>

primrec streak_from :: "time list \<Rightarrow> breaker_call list \<Rightarrow> time list" where
  "streak_from ts [] = ts"
| "streak_from ts (c # cs) =
     streak_from (case c of Asked t \<Rightarrow> ts | Succeeded \<Rightarrow> [] | Failed t \<Rightarrow> ts @ [t]) cs"

definition streak :: "breaker_call list \<Rightarrow> time list" where
  "streak calls = streak_from [] calls"

lemma streak_snoc:
  "streak (cs @ [c]) = (case c of Asked t \<Rightarrow> streak cs | Succeeded \<Rightarrow> [] | Failed t \<Rightarrow> streak cs @ [t])"
proof -
  have "streak_from ts (cs @ [c]) =
      (case c of Asked t \<Rightarrow> streak_from ts cs | Succeeded \<Rightarrow> [] | Failed t \<Rightarrow> streak_from ts cs @ [t])" for ts
    by (induction cs arbitrary: ts) (auto split: breaker_call.splits)
  then show ?thesis by (cases c) (simp_all add: streak_def)
qed

lemma breaker_after_snoc: "breaker_after (cs @ [c]) b = breaker_step c (breaker_after cs b)"
  by (simp add: breaker_after_def)

lemma breaker_history:
  assumes "b = breaker_after calls newBreaker"
  shows "0 \<le> cb_failures b \<and> cb_failures b \<le> int (length (streak calls))
    \<and> (cb_open_until b \<noteq> 0 \<longrightarrow> 5 \<le> cb_failures b \<and> cb_open_until b = last (streak calls) + 30 * second)"
  using assms
proof (induction calls arbitrary: b rule: rev_induct)
  case Nil
  then show ?case by (simp add: breaker_after_def newBreaker_def)
next
  case (snoc c cs)
  then show ?case
    by (cases c)
      (auto simp: breaker_after_snoc streak_snoc Allow_def Success_def Failure_def is_zero_time_def Let_def)
qed

text \<open>The failures and the requests for permission in a list of calls.\<close>

definition failure_times :: "breaker_call list \<Rightarrow> time list" where
  "failure_times cs = List.map_filter (\<lambda>c. case c of Failed t \<Rightarrow> Some t | _ \<Rightarrow> None) cs"

definition asked_times :: "breaker_call list \<Rightarrow> time list" where
  "asked_times cs = List.map_filter (\<lambda>c. case c of Asked t \<Rightarrow> Some t | _ \<Rightarrow> None) cs"

lemma times_snoc:
  "failure_times (cs @ [c]) = failure_times cs @ (case c of Failed t \<Rightarrow> [t] | _ \<Rightarrow> [])"
  "asked_times (cs @ [c]) = asked_times cs @ (case c of Asked t \<Rightarrow> [t] | _ \<Rightarrow> [])"
  by (simp_all add: failure_times_def asked_times_def List.map_filter_def split: breaker_call.splits)

text \<open>
  From a closed breaker, without a success, failures are counted exactly, and from the fifth on
  it stays open as long as nobody asks 30 s after the fifth.
\<close>

definition quiet :: "breaker_call list \<Rightarrow> bool" where
  "quiet cs \<longleftrightarrow> Succeeded \<notin> set cs \<and> sorted (failure_times cs)
     \<and> (5 \<le> length (failure_times cs) \<longrightarrow>
          (\<forall>t\<in>set (asked_times cs). t < failure_times cs ! 4 + 30 * second))"

lemma quiet_snoc:
  assumes "quiet (cs @ [c])" shows "quiet cs"
  using assms by (cases c) (auto simp: quiet_def times_snoc sorted_append nth_append)

lemma breaker_counts:
  "quiet cs \<Longrightarrow> cb_failures (breaker_after cs newBreaker) = int (length (failure_times cs))
    \<and> cb_open_until (breaker_after cs newBreaker) =
        (if length (failure_times cs) < 5 then 0 else last (failure_times cs) + 30 * second)"
proof (induction cs rule: rev_induct)
  case Nil
  then show ?case by (simp add: breaker_after_def newBreaker_def failure_times_def)
next
  case (snoc c cs)
  note IH = snoc.IH [OF quiet_snoc [OF snoc.prems]]
  show ?case
  proof (cases c)
    case (Asked t)
    have "t < last (failure_times cs) + 30 * second" if n: "5 \<le> length (failure_times cs)"
    proof -
      have "t < failure_times cs ! 4 + 30 * second"
        using snoc.prems n Asked by (simp add: quiet_def times_snoc)
      moreover have "failure_times cs ! 4 \<le> failure_times cs ! (length (failure_times cs) - 1)"
        using snoc.prems n Asked by (intro sorted_nth_mono) (auto simp: quiet_def times_snoc)
      moreover have "failure_times cs \<noteq> []" using n by auto
      ultimately show ?thesis by (simp add: last_conv_nth)
    qed
    then show ?thesis
      using IH Asked by (auto simp: breaker_after_snoc times_snoc Allow_def is_zero_time_def)
  next
    case Succeeded
    then show ?thesis using snoc.prems by (simp add: quiet_def)
  next
    case (Failed t)
    then show ?thesis using IH by (auto simp: breaker_after_snoc times_snoc Failure_def Let_def)
  qed
qed

lemma breaker_after_success: "breaker_after (pre @ Succeeded # cs) b = breaker_after cs newBreaker"
  by (simp add: breaker_after_def newBreaker_def Success_def)

text \<open>C33: after a success, once five failures have been recorded in order of time
  and none succeeded, every request for permission that comes before 30 s after the fifth failure
  is refused, however requests and failures interleave.\<close>

theorem breaker_opens:
  assumes "Succeeded \<notin> set cs" "sorted (failure_times cs)" "5 \<le> length (failure_times cs)"
    and "\<And>t. t \<in> set (asked_times cs) \<Longrightarrow> t < failure_times cs ! 4 + 30 * second"
    and "now < failure_times cs ! 4 + 30 * second"
  shows "\<not> fst (Allow now (breaker_after (pre @ Succeeded # cs) newBreaker))"
proof -
  have "quiet cs" using assms by (simp add: quiet_def)
  from breaker_counts [OF this] have
    "cb_open_until (breaker_after cs newBreaker) = last (failure_times cs) + 30 * second"
    using assms(3) by simp
  moreover have "failure_times cs ! 4 \<le> failure_times cs ! (length (failure_times cs) - 1)"
    using assms by (intro sorted_nth_mono) auto
  moreover have "failure_times cs \<noteq> []" using assms(3) by auto
  ultimately have "now < cb_open_until (breaker_after (pre @ Succeeded # cs) newBreaker)"
    using assms(5) by (simp add: breaker_after_success last_conv_nth)
  then show ?thesis by (simp add: Allow_def)
qed

theorem breaker_opens_witness:
  "\<not> fst (Allow (35 * second) (breaker_after
     ([Failed 3] @ Succeeded # [Failed (6 * second), Asked (7 * second), Failed (8 * second), Failed (9 * second),
       Asked (10 * second), Failed (11 * second), Failed (12 * second), Asked (13 * second)]) newBreaker))"
  by (rule breaker_opens) (auto simp: failure_times_def asked_times_def List.map_filter_def second_def)

text \<open>C34: a new breaker refuses a call only after five failures since the last
  success, and only before 30 s after the latest of them.\<close>

theorem breaker_sound:
  assumes "\<not> fst (Allow now (breaker_after calls newBreaker))" "0 \<le> now"
  shows "5 \<le> length (streak calls) \<and> now < last (streak calls) + 30 * second"
proof -
  have "now < cb_open_until (breaker_after calls newBreaker)"
    using assms by (simp add: Allow_def split: if_splits)
  then show ?thesis using breaker_history [OF refl, of calls] assms(2) by auto
qed

theorem breaker_sound_witness:
  "5 \<le> length (streak (replicate 5 (Failed 7))) \<and> 9 < last (streak (replicate 5 (Failed 7))) + 30 * second"
  by (rule breaker_sound) (simp_all add: breaker_after_def newBreaker_def Failure_def Allow_def
      numeral_eq_Suc second_def)

section \<open>Backoff\<close>

text \<open>The loop of \<^verbatim>\<open>waitBackoff\<close>, with the number of rounds it has left.\<close>

primrec backoffLoop :: "nat \<Rightarrow> duration \<Rightarrow> duration \<Rightarrow> duration" where
  "backoffLoop 0 maximum delay = delay"
| "backoffLoop (Suc n) maximum delay =
     (if \<not> delay < maximum then delay
      else if delay > maximum div 2 then maximum
      else backoffLoop n maximum (wrap64 (delay * 2)))"

definition backoffDelay :: "retry_config \<Rightarrow> int \<Rightarrow> duration \<Rightarrow> duration" where
  "backoffDelay retry attempt retryAfter =
     (let delay = backoffLoop (nat (attempt - 1)) (rt_max retry) (rt_initial retry)
      in if retryAfter > delay then min retryAfter (rt_max retry) else delay)"

definition jitterLimit :: "duration \<Rightarrow> duration" where
  "jitterLimit delay = min (delay div 5) (max_int64 - delay)"

text \<open>What the timer is set to, and the wait: whether it fired before the context ended.\<close>

definition backoffTimer :: "'w host \<Rightarrow> retry_config \<Rightarrow> int \<Rightarrow> duration \<Rightarrow> 'w \<Rightarrow> duration \<times> 'w" where
  "backoffTimer h retry attempt retryAfter w =
     (let delay = backoffDelay retry attempt retryAfter;
          (jitter, w) = (if jitterLimit delay > 0 then ho_random h (jitterLimit delay) w else (0, w))
      in (wrap64 (delay + jitter), w))"

definition waitBackoff :: "'w host \<Rightarrow> retry_config \<Rightarrow> int \<Rightarrow> duration \<Rightarrow> 'w \<Rightarrow> bool \<times> 'w" where
  "waitBackoff h retry attempt retryAfter w =
     (let (delay, w) = backoffTimer h retry attempt retryAfter w in ho_sleep h delay w)"

text \<open>\<^verbatim>\<open>rand.Int64N(n)\<close> lies in [0, n).\<close>

definition random_ok :: "'w host \<Rightarrow> bool" where
  "random_ok h \<longleftrightarrow> (\<forall>n w. 0 < n \<longrightarrow> 0 \<le> fst (ho_random h n w) \<and> fst (ho_random h n w) < n)"

lemma backoffLoop_closed:
  assumes "0 < delay" "delay \<le> maximum" "maximum \<le> max_int64"
  shows "backoffLoop n maximum delay = min (delay * 2 ^ n) maximum"
  using assms
proof (induction n arbitrary: delay)
  case (Suc n)
  show ?case
  proof (cases "delay < maximum \<and> delay \<le> maximum div 2")
    case True
    then have "int64 (delay * 2)" "delay * 2 \<le> maximum"
      using Suc.prems by (auto simp: int64_def min_int64_def)
    then show ?thesis using True Suc.IH [of "delay * 2"] Suc.prems by (simp add: wrap64_id mult.assoc)
  next
    case False
    have "1 \<le> (2::int) ^ n" by simp
    then have "delay * 2 \<le> delay * 2 * 2 ^ n" using Suc.prems by simp
    moreover have "maximum \<le> delay * 2" using False Suc.prems by linarith
    ultimately have "maximum \<le> delay * 2 ^ Suc n" by (simp add: mult.assoc)
    then show ?thesis using False Suc.prems by auto
  qed
qed simp

lemma backoffDelay_closed:
  assumes "0 < rt_initial r" "rt_initial r \<le> rt_max r" "rt_max r \<le> max_int64"
  shows "backoffDelay r attempt after = min (max (rt_initial r * 2 ^ nat (attempt - 1)) after) (rt_max r)"
  unfolding backoffDelay_def backoffLoop_closed [OF assms] Let_def by auto

text \<open>C35: with the retry settings the client accepts, the wait before the next
  attempt starts from the initial backoff, doubled for every attempt already made, or from the
  server's \<open>Retry-After\<close> when that is longer, and never from more than the configured
  maximum; the jitter adds less than a fifth, and the timer's setting does not overflow.\<close>

theorem backoff_bounds:
  assumes "0 < rt_initial r" "rt_initial r \<le> rt_max r" "rt_max r \<le> max_int64" "random_ok h"
    and delay_def: "delay = min (max (rt_initial r * 2 ^ nat (attempt - 1)) after) (rt_max r)"
  shows "delay \<le> fst (backoffTimer h r attempt after w)
    \<and> 5 * fst (backoffTimer h r attempt after w) \<le> 6 * delay
    \<and> fst (backoffTimer h r attempt after w) \<le> max_int64"
proof -
  have d: "backoffDelay r attempt after = delay"
    unfolding delay_def by (rule backoffDelay_closed [OF assms(1-3)])
  have "0 < rt_initial r * 2 ^ nat (attempt - 1)" using assms(1) by simp
  then have b: "0 < delay" "delay \<le> max_int64"
    unfolding delay_def using assms(1-3) by (auto simp: less_max_iff_disj min_le_iff_disj)
  obtain j v where r: "(if jitterLimit delay > 0 then ho_random h (jitterLimit delay) w else (0, w)) = (j, v)"
    by (metis surj_pair)
  have "0 \<le> j \<and> (j = 0 \<or> j < jitterLimit delay)"
    using r assms(4) by (auto simp: random_ok_def split: if_splits) (metis fst_conv)+
  then have j: "0 \<le> j" "5 * j \<le> delay" "delay + j \<le> max_int64"
    using b by (auto simp: jitterLimit_def)
  then have "int64 (delay + j)" using b by (simp add: int64_def min_int64_def)
  then have "fst (backoffTimer h r attempt after w) = delay + j"
    by (simp add: backoffTimer_def d Let_def r wrap64_id)
  then show ?thesis using j by simp
qed

section \<open>Token bucket\<close>

record limiter =
  lm_rate :: f64
  lm_burst :: f64
  lm_tokens :: f64
  lm_last :: time

definition newRequestLimiter :: "f64 \<Rightarrow> int \<Rightarrow> time \<Rightarrow> limiter" where
  "newRequestLimiter requestsPerSecond burst now =
     \<lparr>lm_rate = requestsPerSecond, lm_burst = f64_of_int burst, lm_tokens = f64_of_int burst,
      lm_last = now\<rparr>"

text \<open>\<^verbatim>\<open>Duration.Seconds\<close>, Go's \<^verbatim>\<open>min\<close> of floats, and the conversion to int64.\<close>

definition Seconds :: "duration \<Rightarrow> f64" where
  "Seconds d =
     fadd (f64_of_int (sgn d * (\<bar>d\<bar> div second)))
       (fdiv (f64_of_int (sgn d * (\<bar>d\<bar> mod second))) (f64_nat 1000000000))"

definition fmin :: "f64 \<Rightarrow> f64 \<Rightarrow> f64" where
  "fmin x y =
     (if x = NaN \<or> y = NaN then NaN
      else if flt x y then x else if flt y x then y
      else (case x of Fin True _ \<Rightarrow> x | _ \<Rightarrow> y))"

definition to_int64 :: "(f64 \<Rightarrow> int) \<Rightarrow> f64 \<Rightarrow> int" where
  "to_int64 outside v =
     (case v of
        Fin s r \<Rightarrow> (let k = (if s then - \<lfloor>r\<rfloor> else \<lfloor>r\<rfloor>) in if int64 k then k else outside v)
      | _ \<Rightarrow> outside v)"

text \<open>One round of \<^verbatim>\<open>Wait\<close>: the bucket is refilled, a token is taken if there is one, and
  otherwise the time until there should be one is computed.\<close>

definition refill :: "time \<Rightarrow> limiter \<Rightarrow> limiter" where
  "refill now l =
     (let elapsed = Seconds (time_sub now (lm_last l))
      in if flt fzero elapsed then
           l\<lparr>lm_tokens := fmin (lm_burst l) (fadd (lm_tokens l) (fmul elapsed (lm_rate l))), lm_last := now\<rparr>
         else l)"

definition takeToken :: "limiter \<Rightarrow> limiter option" where
  "takeToken l =
     (if fle (f64_nat 1) (lm_tokens l) then Some (l\<lparr>lm_tokens := fsub (lm_tokens l) (f64_nat 1)\<rparr>)
      else None)"

definition tokenWait :: "(f64 \<Rightarrow> int) \<Rightarrow> limiter \<Rightarrow> duration" where
  "tokenWait outside l =
     (let wait = to_int64 outside
            (fmul (fdiv (fsub (f64_nat 1) (lm_tokens l)) (lm_rate l)) (f64_nat 1000000000))
      in if wait \<le> 0 then 1 else wait)"

partial_function (option) limiterWait :: "'w host \<Rightarrow> limiter \<Rightarrow> 'w \<Rightarrow> (bool \<times> limiter \<times> 'w) option" where
  "limiterWait h l w =
     (let (now, w) = ho_now h w; l = refill now l
      in case takeToken l of
           Some l \<Rightarrow> Some (True, l, w)
         | None \<Rightarrow>
             (let (fired, w) = ho_sleep h (tokenWait (ho_convert h) l) w
              in if fired then limiterWait h l w else Some (False, l, w)))"

text \<open>A host for the witnesses: its world is its clock, the timers always fire, random numbers are
  the smallest, and a request takes a second and is answered with a fixed response.\<close>

definition answering :: "http_response \<Rightarrow> time host" where
  "answering response =
     \<lparr>ho_now = (\<lambda>w. (w, w)), ho_sleep = (\<lambda>d w. (True, w + d)), ho_random = (\<lambda>n w. (0, w)),
      ho_acquire = (\<lambda>w. (True, w)), ho_release = (\<lambda>w. w),
      ho_do = (\<lambda>q w. (Inr response, w + second)), ho_http_date = (\<lambda>_. None),
      ho_convert = (\<lambda>_. min_int64)\<rparr>"

definition ok_response :: http_response where
  "ok_response = \<lparr>rs_status = 200, rs_header = (\<lambda>k. if k = ''X-SDS-AUTH-TOKEN'' then ''T'' else []), rs_cookies = [],
     rs_body = ''{}'', rs_broken = False\<rparr>"

lemma answering_random: "random_ok (answering response)"
  by (simp add: random_ok_def answering_def)

theorem backoff_bounds_witness:
  "let d = fst (backoffTimer (answering ok_response) \<lparr>rt_max_attempts = 3, rt_initial = second, rt_max = 10 * second\<rparr>
      3 0 7)
   in 4 * second \<le> d \<and> 5 * d \<le> 24 * second \<and> d \<le> max_int64"
  using backoff_bounds [of "\<lparr>rt_max_attempts = 3, rt_initial = second, rt_max = 10 * second\<rparr>"
      "answering ok_response" "4 * second" 3 0 7]
  by (simp add: answering_random second_def max_int64_def)

text \<open>A value that is not negative: an infinity, or a finite one.\<close>

definition above_zero :: "f64 \<Rightarrow> bool" where
  "above_zero x \<longleftrightarrow> wf_f64 x \<and> (x = Inf False \<or> f64_finite x \<and> 0 \<le> fval x)"

lemma above_zero_pack: "0 \<le> r \<Longrightarrow> above_zero (pack False r)"
  by (simp add: above_zero_def pack_def rnd_nonneg)

lemma above_zero_fadd:
  assumes "above_zero x" "above_zero y" shows "above_zero (fadd x y)"
proof (cases "f64_finite x \<and> f64_finite y")
  case True
  then obtain s a t b where v: "x = Fin s a" "y = Fin t b" by (auto simp: f64_finite_Fin)
  have nn: "0 \<le> fval x + fval y" using assms True by (auto simp: above_zero_def)
  show ?thesis
  proof (cases "fval x + fval y = 0")
    case True
    then show ?thesis by (auto simp: v Let_def above_zero_def)
  next
    case False
    then have "fadd x y = pack False (fval x + fval y)"
      using nn by (simp add: v Let_def del: fval.simps)
    then show ?thesis using above_zero_pack [OF nn] by simp
  qed
next
  case False
  then show ?thesis using assms by (cases x; cases y) (auto simp: above_zero_def)
qed

lemma above_zero_fmul:
  assumes "flt fzero x" "flt fzero y" "wf_f64 x" "wf_f64 y" shows "above_zero (fmul x y)"
  using assms
  by (cases x; cases y) (auto simp: fzero_def above_zero_def pack_def rnd_nonneg split: if_splits)

lemma fmin_bounds:
  assumes "above_zero x" "f64_finite b" "wf_f64 b" "0 \<le> fval b"
  shows "f64_finite (fmin b x) \<and> wf_f64 (fmin b x) \<and> 0 \<le> fval (fmin b x) \<and> fval (fmin b x) \<le> fval b"
proof (cases "f64_finite x")
  case True
  then have "x \<noteq> NaN" "b \<noteq> NaN" using assms by auto
  then show ?thesis
    using assms True by (auto simp: fmin_def above_zero_def flt_fin split: f64.splits)
next
  case False
  then show ?thesis using assms by (auto simp: above_zero_def fmin_def f64_finite_Fin)
qed

text \<open>A bucket whose rate is a positive number holds between no and \<open>burst\<close> tokens.\<close>

definition limiter_ok :: "limiter \<Rightarrow> bool" where
  "limiter_ok l \<longleftrightarrow>
     flt fzero (lm_rate l) \<and> wf_f64 (lm_rate l)
     \<and> f64_finite (lm_burst l) \<and> wf_f64 (lm_burst l) \<and> 0 \<le> fval (lm_burst l)
     \<and> f64_finite (lm_tokens l) \<and> wf_f64 (lm_tokens l)
     \<and> 0 \<le> fval (lm_tokens l) \<and> fval (lm_tokens l) \<le> fval (lm_burst l)"

lemma wf_Seconds: "wf_f64 (Seconds d)"
  by (simp add: Seconds_def)

lemma limiter_ok_refill:
  assumes "limiter_ok l" shows "limiter_ok (refill now l)"
proof (cases "flt fzero (Seconds (time_sub now (lm_last l)))")
  case True
  have "above_zero (fmul (Seconds (time_sub now (lm_last l))) (lm_rate l))"
    using assms True by (intro above_zero_fmul) (simp_all add: limiter_ok_def wf_Seconds)
  moreover have "above_zero (lm_tokens l)" using assms by (simp add: limiter_ok_def above_zero_def)
  ultimately have "above_zero (fadd (lm_tokens l) (fmul (Seconds (time_sub now (lm_last l))) (lm_rate l)))"
    by (rule above_zero_fadd [rotated])
  from fmin_bounds [OF this] assms True show ?thesis
    by (simp add: refill_def limiter_ok_def)
qed (use assms in \<open>simp add: refill_def\<close>)

lemma takeToken_less:
  assumes "limiter_ok l" "takeToken l = Some l'"
  shows "limiter_ok l'" and "lm_burst l' = lm_burst l" "lm_last l' = lm_last l"
    and "fval (lm_tokens l') = rnd (fval (lm_tokens l) - 1)" and "1 \<le> fval (lm_tokens l)"
proof -
  have one: "1 \<le> fval (lm_tokens l)"
    using assms by (auto simp: takeToken_def limiter_ok_def fle_fin split: if_splits)
  have l': "l' = l\<lparr>lm_tokens := fsub (lm_tokens l) (f64_nat 1)\<rparr>"
    using assms(2) by (simp add: takeToken_def split: if_splits)
  have t: "f64_finite (fsub (lm_tokens l) (f64_nat 1))"
    "fval (fsub (lm_tokens l) (f64_nat 1)) = rnd (fval (lm_tokens l) - 1)"
    using fsub_nonneg [of "lm_tokens l" "f64_nat 1"] assms(1) one by (simp_all add: limiter_ok_def)
  have "rnd (fval (lm_tokens l) - 1) \<le> rnd (fval (lm_tokens l))"
    using one by (intro rnd_mono) simp_all
  moreover have "rnd (fval (lm_tokens l)) = fval (lm_tokens l)"
    using assms(1) one by (auto simp: limiter_ok_def elim: fval_nonnegE)
  ultimately show "limiter_ok l'"
    using assms(1) one t by (simp add: l' limiter_ok_def rnd_nonneg)
  show "lm_burst l' = lm_burst l" "lm_last l' = lm_last l" by (simp_all add: l')
  show "fval (lm_tokens l') = rnd (fval (lm_tokens l) - 1)" using t by (simp add: l')
  show "1 \<le> fval (lm_tokens l)" by (rule one)
qed

text \<open>How many of the rounds at the given times take a token.\<close>

primrec grants :: "time list \<Rightarrow> limiter \<Rightarrow> nat" where
  "grants [] l = 0"
| "grants (t # ts) l =
     (case takeToken (refill t l) of
        Some l' \<Rightarrow> Suc (grants ts l')
      | None \<Rightarrow> grants ts (refill t l))"

text \<open>A duration that is not positive does not count as positive in seconds.\<close>

fun below_zero :: "f64 \<Rightarrow> bool" where
  "below_zero (Fin s r) = (0 \<le> r \<and> (s \<or> r = 0))"
| "below_zero (Inf s) = s"
| "below_zero NaN = False"

lemma below_zero_pack: "0 \<le> r \<Longrightarrow> s \<or> r = 0 \<Longrightarrow> below_zero (pack s r)"
  by (auto simp: pack_def rnd_nonneg)

lemma below_zero_of_int: "k \<le> 0 \<Longrightarrow> below_zero (f64_of_int k)"
  unfolding f64_of_int_def by (rule below_zero_pack) auto

lemma below_zero_fdiv: "below_zero x \<Longrightarrow> 0 < c \<Longrightarrow> below_zero (fdiv x (Fin False c))"
  by (cases x) (auto intro!: below_zero_pack)

lemma below_zero_fadd: "below_zero x \<Longrightarrow> below_zero y \<Longrightarrow> below_zero (fadd x y)"
  by (cases x; cases y) (auto simp: Let_def intro!: below_zero_pack)

lemma below_zero_flt: "below_zero x \<Longrightarrow> \<not> flt fzero x"
  by (cases x) (auto simp: fzero_def)

lemma Seconds_neg: "d \<le> 0 \<Longrightarrow> \<not> flt fzero (Seconds d)"
  unfolding Seconds_def
  by (intro below_zero_flt below_zero_fadd below_zero_fdiv below_zero_of_int)
    (auto simp: sgn_if second_def)

lemma refill_past: "now \<le> lm_last l \<Longrightarrow> refill now l = l"
  using Seconds_neg [of "time_sub now (lm_last l)"]
  by (auto simp: refill_def time_sub_def sat64_def min_int64_def max_int64_def)

lemma grants_bound:
  assumes "limiter_ok l" "\<And>t. t \<in> set ts \<Longrightarrow> t \<le> lm_last l" "fval (lm_tokens l) \<le> of_nat n" "n \<le> 2 ^ 53"
  shows "grants ts l \<le> n"
  using assms
proof (induction ts arbitrary: l n)
  case (Cons t ts)
  have r: "refill t l = l" using Cons.prems(2) by (intro refill_past) simp
  show ?case
  proof (cases "takeToken l")
    case None
    then show ?thesis using Cons by (simp add: r)
  next
    case (Some l')
    note take = takeToken_less [OF Cons.prems(1) Some]
    have "1 \<le> n" using take(5) Cons.prems(3) by (metis (no_types) of_nat_1 of_nat_le_iff order_trans)
    then obtain k where k: "n = Suc k" by (cases n) auto
    have "rnd (fval (lm_tokens l) - 1) \<le> rnd (of_nat k)"
      using take(5) Cons.prems(3) k by (intro rnd_mono) simp_all
    also have "rnd (of_nat k) = of_nat k" using Cons.prems(4) k by (intro rnd_of_nat) simp
    finally have "fval (lm_tokens l') \<le> of_nat k" using take(4) by simp
    then have "grants ts l' \<le> k"
      using Cons.IH [of l' k] Cons.prems take k by simp
    then show ?thesis by (simp add: r Some k)
  qed
qed simp

text \<open>The limiters that a client can reach, and the two ways in which a rate can be wrong.\<close>

inductive limiter_reached :: "f64 \<Rightarrow> int \<Rightarrow> limiter \<Rightarrow> bool" for rate burst where
  created: "limiter_reached rate burst (newRequestLimiter rate burst now)"
| refilled: "limiter_reached rate burst l \<Longrightarrow> limiter_reached rate burst (refill now l)"
| taken: "limiter_reached rate burst l \<Longrightarrow> takeToken l = Some l' \<Longrightarrow> limiter_reached rate burst l'"

lemma refill_burst [simp]: "lm_burst (refill now l) = lm_burst l" "lm_rate (refill now l) = lm_rate l"
  by (simp_all add: refill_def Let_def)

lemma reached_ok:
  assumes "limiter_reached rate burst l" "flt fzero rate" "wf_f64 rate" "0 \<le> burst" "burst \<le> 2 ^ 53"
  shows "limiter_ok l \<and> lm_burst l = f64_nat (nat burst)"
  using assms
proof induction
  case (created now)
  then have "f64_of_int burst = f64_nat (nat burst)" by (simp add: f64_of_int_small)
  moreover have "wf_f64 (f64_nat (nat burst))" using created by (intro wf_f64_nat) simp
  ultimately show ?case using created by (simp add: newRequestLimiter_def limiter_ok_def)
next
  case (refilled l now)
  then show ?case by (simp add: limiter_ok_refill)
next
  case (taken l l')
  then show ?case using takeToken_less [of l l'] by simp
qed

text \<open>C36: a bucket made with a positive rate and a burst of at most 2^53 always
  holds between zero and \<open>burst\<close> tokens, and until the clock passes the instant of its last
  refill at most \<open>burst\<close> requests are let through.\<close>

theorem limiter_bounds:
  assumes "limiter_reached rate burst l" "flt fzero rate" "wf_f64 rate" "0 \<le> burst" "burst \<le> 2 ^ 53"
    and "list_all (\<lambda>t. t \<le> lm_last l) ts"
  shows "0 \<le> fval (lm_tokens l) \<and> fval (lm_tokens l) \<le> of_int burst \<and> int (grants ts l) \<le> burst"
proof -
  note ok = reached_ok [OF assms(1-5)]
  have "grants ts l \<le> nat burst"
    by (rule grants_bound) (use ok assms(4-6) in \<open>auto simp: limiter_ok_def list_all_iff\<close>)
  then show ?thesis using ok assms(4) by (auto simp: limiter_ok_def)
qed

theorem limiter_bounds_witness:
  "int (grants [5, 5, 4, 5] (newRequestLimiter (f64_nat 10) 2 5)) \<le> 2"
  using limiter_bounds [OF limiter_reached.created, of "f64_nat 10" 2 5 "[5, 5, 4, 5]"] wf_f64_nat [of 10]
  by (simp add: fzero_def newRequestLimiter_def)

section \<open>Waiting ends\<close>

text \<open>
  A context with a deadline: time is left for finitely many timers, so a timer that fires leaves
  fewer, and reading the clock adds none. (The client's calls all run under
  \<^verbatim>\<open>context.WithTimeout\<close>.)
\<close>

definition deadline :: "'w host \<Rightarrow> ('w \<Rightarrow> nat) \<Rightarrow> bool" where
  "deadline h left \<longleftrightarrow>
     (\<forall>d w. 0 < d \<longrightarrow> fst (ho_sleep h d w) \<longrightarrow> left (snd (ho_sleep h d w)) < left w)
     \<and> (\<forall>w. left (snd (ho_now h w)) \<le> left w)"

lemma tokenWait_pos: "0 < tokenWait outside l"
  by (simp add: tokenWait_def Let_def)

lemma limiterWait_returns:
  assumes "deadline h left"
  shows "\<exists>r. limiterWait h l w = Some r"
proof (induction "left w" arbitrary: l w rule: less_induct)
  case less
  obtain now v where now: "ho_now h w = (now, v)" by fastforce
  obtain fired u where sleep: "ho_sleep h (tokenWait (ho_convert h) (refill now l)) v = (fired, u)" by fastforce
  show ?case
  proof (cases "takeToken (refill now l) = None \<and> fired")
    case True
    have "left v \<le> left w" using assms now by (auto simp: deadline_def) (metis snd_conv)
    moreover have "left u < left v"
      using assms True sleep tokenWait_pos by (auto simp: deadline_def) (metis fst_conv snd_conv)
    ultimately have "\<exists>r. limiterWait h (refill now l) u = Some r" by (intro less) simp
    then show ?thesis
      by (subst limiterWait.simps) (simp add: now sleep True Let_def)
  next
    case False
    then show ?thesis
      by (subst limiterWait.simps) (auto simp: now sleep Let_def split: option.splits)
  qed
qed

section \<open>A rate that is not a number\<close>

lemma NaN_stuck:
  assumes "lm_tokens l = NaN" shows "lm_tokens (refill now l) = NaN" "takeToken l = None"
  using assms by (auto simp: refill_def Let_def fmin_def takeToken_def fle_def)

lemma NaN_refill:
  assumes "lm_rate l = NaN" "flt fzero (Seconds (time_sub now (lm_last l)))"
  shows "lm_tokens (refill now l) = NaN"
proof -
  have "fmul x NaN = NaN" "fadd x NaN = NaN" for x by (cases x; simp)+
  then show ?thesis using assms by (simp add: refill_def fmin_def)
qed

lemma NaN_starves: "lm_tokens l = NaN \<Longrightarrow> grants ts l = 0"
proof (induction ts arbitrary: l)
  case (Cons t ts)
  then show ?case by (simp add: NaN_stuck)
qed simp

end
