(* ===== verification/Client.thy ===== *)
theory Client
  imports Regulators
begin

text \<open>
  The ECS client and its authentication manager (\<open>internal/ecs/client.go\<close>). \<open>client\<close> holds
  what \<open>NewClient\<close> fixes, \<open>client_state\<close> what a call may change: the breaker, the bucket, the
  token, the sequence of correlation ids, what the observer was told, and the world of the
  host. A call is a function of the state; it is None when a wait for the rate limiter never ends.
\<close>

definition tokenHeader :: string where "tokenHeader = ''X-SDS-AUTH-TOKEN''"

record transport_settings =
  ts_verify :: bool
  ts_ca_file :: string
  ts_connect :: duration
  ts_header_timeout :: duration
  ts_handshake :: duration

record client =
  cl_cluster :: string
  cl_base :: url
  cl_username :: string
  cl_password :: string
  cl_timeout :: duration
  cl_retry :: retry_config
  cl_concurrency :: int
  cl_transport :: transport_settings

record 'w client_state =
  cx_breaker :: circuit_breaker
  cx_limiter :: limiter
  cx_token :: string
  cx_sequence :: "64 word"
  cx_observed :: "observation list"
  cx_world :: 'w

section \<open>Making a client\<close>

text \<open>\<open>pem\<close> is \<^verbatim>\<open>AppendCertsFromPEM\<close>: whether a file's content holds a certificate.\<close>

definition newTransport ::
  "machine \<Rightarrow> (string \<Rightarrow> bool) \<Rightarrow> cluster_tls \<Rightarrow> duration \<Rightarrow> duration \<Rightarrow> transport_settings result" where
  "newTransport m pem settings connectTimeout readTimeout =
     (let transport = \<lparr>ts_verify = VerificationEnabled settings, ts_ca_file = ct_ca_file settings,
            ts_connect = connectTimeout, ts_header_timeout = readTimeout,
            ts_handshake = min connectTimeout (10 * second)\<rparr>
      in if ct_ca_file settings \<noteq> [] then
           andThen (wrap_error ''read CA file: %w'' [] (he_read m (ct_ca_file settings))) (\<lambda>content.
             if \<not> pem content then Inl (Msg ''CA file contains no certificates'') else Inr transport)
         else Inr transport)"

definition NewClient ::
  "machine \<Rightarrow> (string \<Rightarrow> bool) \<Rightarrow> cluster_config \<Rightarrow> collector_config \<Rightarrow> time \<Rightarrow> 'w \<Rightarrow>
   (client \<times> 'w client_state) result" where
  "NewClient m pem cluster settings now world =
     (if co_timeout settings \<le> 0 \<or> cu_max_requests (co_concurrency settings) < 1
         \<or> fle (rl_per_second (co_rate settings)) fzero \<or> rl_burst (co_rate settings) < 1
         \<or> rt_max_attempts (co_retry settings) < 1 \<or> rt_initial (co_retry settings) \<le> 0
         \<or> rt_max (co_retry settings) < rt_initial (co_retry settings)
      then Inl (Msg ''invalid ECS client timeout, concurrency, or retry settings'')
      else
        andThen (Credentials m cluster) (\<lambda>(username, password).
        andThen (managementURL (cg_endpoint cluster)) (\<lambda>baseURL.
        let (connectTimeout, readTimeout, overallTimeout) =
              resolveTimeouts (cg_timeouts cluster) (co_timeout settings)
        in if connectTimeout \<le> 0 \<or> readTimeout \<le> 0 \<or> overallTimeout \<le> 0
              \<or> connectTimeout > overallTimeout \<or> readTimeout > overallTimeout
           then Inl (Msg ''invalid ECS client timeout overrides'')
           else
             andThen (wrap_error ''cluster %q TLS: %w'' [cg_name cluster]
               (newTransport m pem (cg_tls cluster) connectTimeout readTimeout)) (\<lambda>transport.
             Inr (\<lparr>cl_cluster = cg_name cluster, cl_base = baseURL, cl_username = username,
                   cl_password = password, cl_timeout = overallTimeout, cl_retry = co_retry settings,
                   cl_concurrency = cu_max_requests (co_concurrency settings), cl_transport = transport\<rparr>,
                  \<lparr>cx_breaker = newBreaker,
                   cx_limiter = newRequestLimiter (rl_per_second (co_rate settings))
                     (rl_burst (co_rate settings)) now,
                   cx_token = [], cx_sequence = 0, cx_observed = [], cx_world = world\<rparr>)))))"

section \<open>Asking the host\<close>

definition observe :: "observation \<Rightarrow> 'w client_state \<Rightarrow> 'w client_state" where
  "observe ob s = s\<lparr>cx_observed := cx_observed s @ [ob]\<rparr>"

text \<open>The clock, and the client's bucket: whether a token was obtained.\<close>

definition clock :: "'w host \<Rightarrow> 'w client_state \<Rightarrow> time \<times> 'w client_state" where
  "clock h s = (let (now, w) = ho_now h (cx_world s) in (now, s\<lparr>cx_world := w\<rparr>))"

definition Wait :: "'w host \<Rightarrow> 'w client_state \<Rightarrow> (bool \<times> 'w client_state) option" where
  "Wait h s =
     map_option (\<lambda>(granted, l, w). (granted, s\<lparr>cx_limiter := l, cx_world := w\<rparr>))
       (limiterWait h (cx_limiter s) (cx_world s))"

definition roundTrip ::
  "'w host \<Rightarrow> http_request \<Rightarrow> 'w client_state \<Rightarrow>
   (transport_error + http_response) \<times> duration \<times> 'w client_state" where
  "roundTrip h request s =
     (let (started, s) = clock h s;
          (response, w) = ho_do h request (cx_world s);
          (ended, s) = clock h (s\<lparr>cx_world := w\<rparr>)
      in (response, time_sub ended started, s))"

definition successStatus :: "int \<Rightarrow> bool" where
  "successStatus status \<longleftrightarrow> \<not> (status < 200 \<or> status \<ge> 300)"

section \<open>Authentication\<close>

text \<open>
  The login token: the response's header, or the first cookie of that name. At most 64 KiB of the
  body are read, and only counted.
\<close>

definition loginToken :: "http_response \<Rightarrow> string" where
  "loginToken response =
     (let token = rs_header response tokenHeader
      in if token = [] then
           (case find (\<lambda>(name, value). equal_fold name tokenHeader) (rs_cookies response) of
              None \<Rightarrow> [] | Some (name, value) \<Rightarrow> value)
         else token)"

definition discarded :: "http_response \<Rightarrow> int" where
  "discarded response = int (length (take (64 * 1024) (rs_body response)))"

definition loginRequest :: "client \<Rightarrow> string \<Rightarrow> http_request" where
  "loginRequest c address =
     \<lparr>rq_method = ''GET'', rq_url = address, rq_headers = [(''Accept'', ''application/json'')],
      rq_basic = Some (cl_username c, cl_password c), rq_body = []\<rparr>"

definition loginResponse ::
  "client \<Rightarrow> string \<Rightarrow> int \<Rightarrow> duration \<Rightarrow> http_response \<Rightarrow> 'w client_state \<Rightarrow> string result \<times> 'w client_state" where
  "loginResponse c ctx attempt duration response s =
     (let status = rs_status response;
          tell = (\<lambda>result kind. observe (ObserveAPI (cl_cluster c) ''login'' result kind ctx status attempt duration));
          s = observe (ObserveAPIResponseSize (cl_cluster c) ''login''
                (if successStatus status then ''success'' else ''error'') (discarded response)) s
      in if \<not> successStatus status then
           (let kind = (if status = 401 \<or> status = 403 then ''authentication'' else status_kind status)
            in (Inl (api_status ''login'' status kind (retryableStatus status)), tell ''error'' kind s))
         else
           (let token = loginToken response
            in if length token > 4096 \<or> contains_any token [CHR 0x0D, CHR 0x0A] then
                 (Inl (api_status ''login'' status ''invalid_token'' False), tell ''error'' ''invalid_token'' s)
               else if token = [] then
                 (Inl (api_status ''login'' status ''missing_token'' False), tell ''error'' ''missing_token'' s)
               else (Inr token, tell ''success'' ''none'' (s\<lparr>cx_token := token\<rparr>))))"

definition Token ::
  "'w host \<Rightarrow> client \<Rightarrow> string \<Rightarrow> int \<Rightarrow> 'w client_state \<Rightarrow> (string result \<times> 'w client_state) option" where
  "Token h c ctx attempt s =
     (if cx_token s \<noteq> [] then Some (Inr (cx_token s), s)
      else do {
        (granted, s) \<leftarrow> Wait h s;
        let address = url_String ((cl_base c)\<lparr>url_path := ''/login''\<rparr>) [];
        if \<not> granted then Some (Inl (api_failure ''login'' ''rate_limit_context''), s)
        else if \<not> valid_request ''GET'' address then Some (Inl (api_failure ''login'' ''request''), s)
        else
          (let (response, duration, s) = roundTrip h (loginRequest c address) s
           in Some (case response of
                Inl e \<Rightarrow>
                  (Inl (api_status ''login'' 0 ''transport'' (isRetryableTransport e)),
                   observe (ObserveAPI (cl_cluster c) ''login'' ''error'' ''transport'' ctx 0 attempt duration) s)
              | Inr response \<Rightarrow> loginResponse c ctx attempt duration response s))
      })"

definition Invalidate :: "'w client_state \<Rightarrow> 'w client_state" where
  "Invalidate s = s\<lparr>cx_token := []\<rparr>"

definition Logout :: "'w host \<Rightarrow> client \<Rightarrow> string \<Rightarrow> 'w client_state \<Rightarrow> (unit result \<times> 'w client_state) option" where
  "Logout h c ctx s =
     (if cx_token s = [] then Some (Inr (), s)
      else do {
        let (ctx, sequence) = WithCorrelationID ctx (cl_cluster c) (cx_sequence s);
        (granted, s) \<leftarrow> Wait h (s\<lparr>cx_sequence := sequence\<rparr>);
        let address = url_String ((cl_base c)\<lparr>url_path := ''/logout''\<rparr>) [];
        if \<not> granted then Some (Inl (api_failure ''logout'' ''rate_limit_context''), s)
        else if \<not> valid_request ''GET'' address then Some (Inl (api_failure ''logout'' ''request''), s)
        else
          (let (response, duration, s) = roundTrip h
                 \<lparr>rq_method = ''GET'', rq_url = address, rq_headers = [(tokenHeader, cx_token s)],
                  rq_basic = None, rq_body = []\<rparr> s;
               s = s\<lparr>cx_token := []\<rparr>;
               tell = (\<lambda>result kind status. observe
                 (ObserveAPI (cl_cluster c) ''logout'' result kind ctx status 1 duration))
           in Some (case response of
                Inl e \<Rightarrow>
                  (Inl (api_status ''logout'' 0 ''transport'' (isRetryableTransport e)), tell ''error'' ''transport'' 0 s)
              | Inr response \<Rightarrow>
                  (let status = rs_status response;
                       s = observe (ObserveAPIResponseSize (cl_cluster c) ''logout''
                             (if successStatus status then ''success'' else ''error'') (discarded response)) s
                   in if \<not> successStatus status then
                        (Inl (api_status ''logout'' status ''http'' False), tell ''error'' ''http'' status s)
                      else (Inr (), tell ''success'' ''none'' status s))))
      })"

definition Close :: "'w host \<Rightarrow> client \<Rightarrow> string \<Rightarrow> 'w client_state \<Rightarrow> (unit result \<times> 'w client_state) option" where
  "Close h c ctx s = Logout h c ctx s"

section \<open>One request\<close>

record call =
  ca_logical :: string
  ca_method :: string
  ca_path :: string
  ca_query :: query
  ca_body :: "json option"

text \<open>What \<^verbatim>\<open>request\<close> returns: data, status, duration, retry delay and error.\<close>

record reply =
  ry_data :: string
  ry_status :: int
  ry_duration :: duration
  ry_retry_after :: duration
  ry_error :: "go_error option"

definition refused :: "string \<Rightarrow> string \<Rightarrow> reply" where
  "refused logical kind =
     \<lparr>ry_data = [], ry_status = 0, ry_duration = 0, ry_retry_after = 0,
      ry_error = Some (api_failure logical kind)\<rparr>"

definition requestFor :: "client \<Rightarrow> call \<Rightarrow> string \<Rightarrow> string \<Rightarrow> string \<Rightarrow> http_request" where
  "requestFor c call decodedPath body token =
     \<lparr>rq_method = ca_method call,
      rq_url = url_String ((cl_base c)\<lparr>url_path := decodedPath, url_query := Encode (ca_query call)\<rparr>) (ca_path call),
      rq_headers = [(''Accept'', ''application/json''), (tokenHeader, token)]
        @ (if ca_body call \<noteq> None then [(''Content-Type'', ''application/json'')] else []),
      rq_basic = None, rq_body = body\<rparr>"

text \<open>The answer to a request: its body is read up to the limit, then judged by its status.\<close>

definition answer ::
  "'w host \<Rightarrow> client \<Rightarrow> string \<Rightarrow> call \<Rightarrow> int \<Rightarrow> duration \<Rightarrow> http_response \<Rightarrow> 'w client_state \<Rightarrow> reply \<times> 'w client_state" where
  "answer h c ctx call attempt duration response s =
     (let logical = ca_logical call; status = rs_status response;
          tell = (\<lambda>kind. observe (ObserveAPI (cl_cluster c) logical ''error'' kind ctx status attempt duration));
          sized = (\<lambda>result bytes. observe (ObserveAPIResponseSize (cl_cluster c) logical result bytes))
      in case readBounded response maxResponseSize of
           Inl _ \<Rightarrow>
             (\<lparr>ry_data = [], ry_status = status, ry_duration = duration, ry_retry_after = 0,
               ry_error = Some (api_status logical status ''response_size'' False)\<rparr>,
              tell ''response_size'' (sized ''error'' (maxResponseSize + 1) s))
         | Inr data \<Rightarrow>
             if \<not> successStatus status then
               (let kind = (if status = 401 then ''authentication'' else status_kind status);
                    (now, s) = clock h (tell kind (sized ''error'' (int (length data)) s))
                in (\<lparr>ry_data = data, ry_status = status, ry_duration = duration,
                     ry_retry_after = parseRetryAfter h (rs_header response ''Retry-After'') now,
                     ry_error = Some (Api \<lparr>ae_logical = logical, ae_status = status,
                       ae_code = parseAPIErrorCode data, ae_kind = kind,
                       ae_retryable = retryableStatus status\<rparr>)\<rparr>, s))
             else
               (\<lparr>ry_data = data, ry_status = status, ry_duration = duration, ry_retry_after = 0,
                 ry_error = None\<rparr>, sized ''success'' (int (length data)) s))"

definition request ::
  "'w host \<Rightarrow> client \<Rightarrow> string \<Rightarrow> call \<Rightarrow> string option \<Rightarrow> string \<Rightarrow> int \<Rightarrow> 'w client_state \<Rightarrow>
   (reply \<times> 'w client_state) option" where
  "request h c ctx call body token attempt s =
     do {
       (granted, s) \<leftarrow> Wait h s;
       let logical = ca_logical call;
       if \<not> granted then Some (refused logical ''rate_limit_context'', s)
       else case PathUnescape (ca_path call) of
           None \<Rightarrow> Some (refused logical ''request'', s)
         | Some decodedPath \<Rightarrow>
             (let q = requestFor c call decodedPath (case body of None \<Rightarrow> [] | Some b \<Rightarrow> b) token
              in if \<not> valid_request (rq_method q) (rq_url q) then Some (refused logical ''request'', s)
                 else
                   (let (started, s) = clock h s;
                        (response, w) = ho_do h q (cx_world s);
                        (ended, s) = clock h (s\<lparr>cx_world := w\<rparr>)
                    in case response of
                         Inl e \<Rightarrow>
                           Some (\<lparr>ry_data = [], ry_status = 0, ry_duration = time_sub ended started,
                                  ry_retry_after = 0,
                                  ry_error = Some (api_status logical 0 ''transport'' (isRetryableTransport e))\<rparr>,
                             observe (ObserveAPI (cl_cluster c) logical ''error'' ''transport'' ctx 0 attempt
                               (time_sub ended started)) s)
                       | Inr response \<Rightarrow>
                           (let (ended, s) = clock h s
                            in Some (answer h c ctx call attempt (time_sub ended started) response s))))
     }"

section \<open>A call with its attempts\<close>

text \<open>How a round of the loop ends: it leaves the loop with an error, with the decoded answer, or
  goes round again with the next attempt, the requests made, whether it has logged in again, and
  the new value of \<open>last\<close>, if it is set.\<close>

datatype 'a round =
    Leave go_error
  | Return 'a
  | Again int int bool "go_error option"

text \<open>After an error: leave the loop, or wait and try again.\<close>

definition retryRound ::
  "'w host \<Rightarrow> client \<Rightarrow> call \<Rightarrow> int \<Rightarrow> int \<Rightarrow> bool \<Rightarrow> duration \<Rightarrow> go_error \<Rightarrow> 'w client_state \<Rightarrow> 'a round \<times> 'w client_state" where
  "retryRound h c call attempt httpAttempt reauthenticated retryAfter e s =
     (if \<not> retryable_error e \<or> attempt = rt_max_attempts (cl_retry c) then (Leave e, s)
      else
        (let (fired, w) = waitBackoff h (cl_retry c) attempt retryAfter (cx_world s);
             s = s\<lparr>cx_world := w\<rparr>
         in if fired then (Again (attempt + 1) httpAttempt reauthenticated (Some e), s)
            else (Leave (api_failure (ca_logical call) ''context''), s)))"

text \<open>A reply: its error, or its data decoded into the target. A success closes the breaker.\<close>

definition finished :: "client \<Rightarrow> string \<Rightarrow> call \<Rightarrow> int \<Rightarrow> reply \<Rightarrow> 'a \<Rightarrow> 'w client_state \<Rightarrow> 'a round \<times> 'w client_state" where
  "finished c ctx call httpAttempt reply v s =
     (Return v, (observe (ObserveAPI (cl_cluster c) (ca_logical call) ''success'' ''none'' ctx
        (ry_status reply) httpAttempt (ry_duration reply)) s)\<lparr>cx_breaker := Success (cx_breaker s)\<rparr>)"

definition judged ::
  "'w host \<Rightarrow> client \<Rightarrow> string \<Rightarrow> call \<Rightarrow> (string \<Rightarrow> 'a result) option \<Rightarrow> 'a \<Rightarrow>
   int \<Rightarrow> int \<Rightarrow> bool \<Rightarrow> reply \<Rightarrow> 'w client_state \<Rightarrow> 'a round \<times> 'w client_state" where
  "judged h c ctx call target initial attempt httpAttempt reauthenticated reply s =
     (let retry = retryRound h c call attempt httpAttempt reauthenticated (ry_retry_after reply)
      in case ry_error reply of
           Some e \<Rightarrow> retry e s
         | None \<Rightarrow>
             (case target of
                Some decode \<Rightarrow>
                  if ry_data reply = [] then finished c ctx call httpAttempt reply initial s
                  else (case decode (ry_data reply) of
                      Inl _ \<Rightarrow>
                        retry (api_status (ca_logical call) (ry_status reply) ''invalid_response'' False)
                          (observe (ObserveAPI (cl_cluster c) (ca_logical call) ''error'' ''invalid_response'' ctx
                             (ry_status reply) httpAttempt (ry_duration reply)) s)
                    | Inr v \<Rightarrow> finished c ctx call httpAttempt reply v s)
              | None \<Rightarrow> finished c ctx call httpAttempt reply initial s))"

text \<open>One round: a token, a request, and its reply. The first 401 throws the token away and costs
  no attempt.\<close>

definition round ::
  "'w host \<Rightarrow> client \<Rightarrow> string \<Rightarrow> call \<Rightarrow> string option \<Rightarrow> (string \<Rightarrow> 'a result) option \<Rightarrow> 'a \<Rightarrow>
   int \<Rightarrow> int \<Rightarrow> bool \<Rightarrow> 'w client_state \<Rightarrow> ('a round \<times> 'w client_state) option" where
  "round h c ctx call body target initial attempt httpAttempt reauthenticated s =
     do {
       (token, s) \<leftarrow> Token h c ctx (max (httpAttempt + 1) attempt) s;
       case token of
         Inl e \<Rightarrow> Some (retryRound h c call attempt httpAttempt reauthenticated 0 e s)
       | Inr token \<Rightarrow>
           do {
             (reply, s) \<leftarrow> request h c ctx call body token (httpAttempt + 1) s;
             if ry_status reply = 401 \<and> \<not> reauthenticated then
               Some (Again attempt (httpAttempt + 1) True None, Invalidate s)
             else
               Some (judged h c ctx call target initial attempt (httpAttempt + 1) reauthenticated reply s)
           }
     }"

lemma retryRound_again:
  "retryRound h c call attempt n reauth after e s = (Again a k r l, s') \<Longrightarrow>
   a = attempt + 1 \<and> k = n \<and> r = reauth"
  by (auto simp: retryRound_def Let_def split: if_splits prod.splits)

lemma judged_again:
  "judged h c ctx call target initial attempt n reauth reply s = (Again a k r l, s') \<Longrightarrow>
   a = attempt + 1 \<and> k = n \<and> r = reauth"
  unfolding judged_def finished_def Let_def
  by (cases "ry_error reply"; cases target; cases "ry_data reply = []")
    (force dest: retryRound_again split: sum.splits)+

lemma round_again:
  fixes initial :: 'a
  assumes "round h c ctx call body target initial attempt n reauth s = Some (Again a k r l, s')"
  shows "a = attempt + 1 \<and> r = reauth \<and> (k = n \<or> k = n + 1) \<or> a = attempt \<and> \<not> reauth \<and> r \<and> k = n + 1"
proof -
  obtain token s1 where t: "Token h c ctx (max (n + 1) attempt) s = Some (token, s1)"
    using assms unfolding round_def bind_eq_Some_conv by auto
  show ?thesis
  proof (cases token)
    case (Inl e)
    then have "retryRound h c call attempt n reauth 0 e s1 = (Again a k r l :: 'a round, s')"
      using assms t by (simp add: round_def)
    from retryRound_again [OF this] show ?thesis by simp
  next
    case (Inr tok)
    obtain reply s2 where q: "request h c ctx call body tok (n + 1) s1 = Some (reply, s2)"
      using assms t Inr by (cases "request h c ctx call body tok (n + 1) s1") (auto simp: round_def)
    show ?thesis
    proof (cases "ry_status reply = 401 \<and> \<not> reauth")
      case True
      then show ?thesis using assms t Inr q by (simp add: round_def)
    next
      case False
      then have "judged h c ctx call target initial attempt (n + 1) reauth reply s2 = (Again a k r l, s')"
        using assms t Inr q by (auto simp: round_def)
      from judged_again [OF this] show ?thesis by simp
    qed
  qed
qed

text \<open>
  The loop over the attempts. It ends because a round either moves to the next attempt or uses
  up the only renewal of the token.
\<close>

function attempts ::
  "'w host \<Rightarrow> client \<Rightarrow> string \<Rightarrow> call \<Rightarrow> string option \<Rightarrow> (string \<Rightarrow> 'a result) option \<Rightarrow> 'a \<Rightarrow>
   int \<Rightarrow> int \<Rightarrow> bool \<Rightarrow> go_error option \<Rightarrow> 'w client_state \<Rightarrow> (('a option \<times> go_error option) \<times> 'w client_state) option" where
  "attempts h c ctx call body target initial attempt httpAttempt reauthenticated latest s =
     (if attempt > rt_max_attempts (cl_retry c) then Some ((None, latest), s)
      else
        Option.bind (round h c ctx call body target initial attempt httpAttempt reauthenticated s) (\<lambda>(r, s).
          case r of
            Leave e \<Rightarrow> Some ((None, Some e), s)
          | Return v \<Rightarrow> Some ((Some v, None), s)
          | Again attempt httpAttempt reauthenticated new \<Rightarrow>
              attempts h c ctx call body target initial attempt httpAttempt reauthenticated
                (case new of None \<Rightarrow> latest | Some e \<Rightarrow> Some e) s))"
  by pat_completeness auto
termination
proof (relation "measure (\<lambda>(h, c, ctx, call, body, target, initial, attempt, n, reauth, latest, s).
    2 * nat (rt_max_attempts (cl_retry c) + 1 - attempt) + (if reauth then 0 else 1))", goal_cases)
  case (2 h c ctx call body target initial attempt n reauth latest s x r s' a k ra new)
  then show ?case by (auto dest!: round_again)
qed simp

declare attempts.simps [simp del]

text \<open>After the loop: a success, or the last error, which counts for the breaker if it is one
  that a retry could have cured. A loop without rounds leaves no error at all.\<close>

definition settle :: "'w host \<Rightarrow> 'a \<Rightarrow> 'a option \<times> go_error option \<Rightarrow> 'w client_state \<Rightarrow> 'a result \<times> 'w client_state" where
  "settle h initial outcome s =
     (case outcome of
        (Some v, _) \<Rightarrow> (Inr v, s)
      | (None, None) \<Rightarrow> (Inr initial, s)
      | (None, Some e) \<Rightarrow>
          (Inl e,
           if retryable_error e then
             (let (now, s) = clock h s in s\<lparr>cx_breaker := Failure now (cx_breaker s)\<rparr>)
           else s))"

text \<open>
  \<open>DoJSON\<close>: the target is a decoder of the answer, if the caller wants one, and its initial
  value. \<open>ctx\<close> is the correlation id the caller's context carries.
\<close>

definition DoJSON ::
  "'w host \<Rightarrow> client \<Rightarrow> string \<Rightarrow> call \<Rightarrow> (string \<Rightarrow> 'a result) option \<Rightarrow> 'a \<Rightarrow> 'w client_state \<Rightarrow>
   ('a result \<times> 'w client_state) option" where
  "DoJSON h c ctx call target initial s =
     (if ca_logical call = [] \<or> \<not> validRelativePath (ca_path call) then
        Some (Inl (Msg ''logical API and safe relative path are required''), s)
      else
        (let (now, s) = clock h s;
             (allowed, breaker) = Allow now (cx_breaker s);
             s = s\<lparr>cx_breaker := breaker\<rparr>
         in if \<not> allowed then Some (Inl (api_status (ca_logical call) 0 ''circuit_open'' True), s)
            else
              (let (acquired, w) = ho_acquire h (cx_world s); s = s\<lparr>cx_world := w\<rparr>
               in if \<not> acquired then Some (Inl (api_failure (ca_logical call) ''context''), s)
                  else
                    (let body = marshalRequestBody (ca_body call);
                         (ctx, sequence) = WithCorrelationID ctx (cl_cluster c) (cx_sequence s)
                     in do {
                       (outcome, s) \<leftarrow>
                         attempts h c ctx call body target initial 1 0 False None (s\<lparr>cx_sequence := sequence\<rparr>);
                       let (result, s) = settle h initial outcome s;
                       Some (result, s\<lparr>cx_world := ho_release h (cx_world s)\<rparr>)
                     }))))"

text \<open>Decoding into a \<^verbatim>\<open>json.RawMessage\<close> keeps the text of the one value.\<close>

definition raw_message :: "string \<Rightarrow> string result" where
  "raw_message data =
     (if decode_only data = None then Inl (DecodeError ''syntax'')
      else Inr (rev (dropWhile json_space (rev (skip_ws data)))))"

definition GetJSON ::
  "'w host \<Rightarrow> client \<Rightarrow> string \<Rightarrow> string \<Rightarrow> string \<Rightarrow> query \<Rightarrow> (string \<Rightarrow> 'a result) option \<Rightarrow> 'a \<Rightarrow> 'w client_state \<Rightarrow>
   ('a result \<times> 'w client_state) option" where
  "GetJSON h c ctx logical path query target initial =
     DoJSON h c ctx \<lparr>ca_logical = logical, ca_method = ''GET'', ca_path = path, ca_query = query, ca_body = None\<rparr>
       target initial"

definition PostJSON ::
  "'w host \<Rightarrow> client \<Rightarrow> string \<Rightarrow> string \<Rightarrow> string \<Rightarrow> query \<Rightarrow> json \<Rightarrow> (string \<Rightarrow> 'a result) option \<Rightarrow> 'a \<Rightarrow> 'w client_state \<Rightarrow>
   ('a result \<times> 'w client_state) option" where
  "PostJSON h c ctx logical path query body target initial =
     DoJSON h c ctx \<lparr>ca_logical = logical, ca_method = ''POST'', ca_path = path, ca_query = query, ca_body = Some body\<rparr>
       target initial"

definition GetBytes ::
  "'w host \<Rightarrow> client \<Rightarrow> string \<Rightarrow> string \<Rightarrow> string \<Rightarrow> query \<Rightarrow> 'w client_state \<Rightarrow>
   (string result \<times> 'w client_state) option" where
  "GetBytes h c ctx logical path query = GetJSON h c ctx logical path query (Some raw_message) []"

definition PostBytes ::
  "'w host \<Rightarrow> client \<Rightarrow> string \<Rightarrow> string \<Rightarrow> string \<Rightarrow> query \<Rightarrow> json \<Rightarrow> 'w client_state \<Rightarrow>
   (string result \<times> 'w client_state) option" where
  "PostBytes h c ctx logical path query body =
     PostJSON h c ctx logical path query body (Some raw_message) []"

end
