(* ===== verification/Config_Facts.thy ===== *)
theory Config_Facts
  imports Config
begin

text \<open>
  What a configuration that loads guarantees: the expansion of references as a substitution on
  pieces of text, the resolution of overrides, and the validation as a declarative predicate
  that does not depend on the order in which Go ranges over its maps.
\<close>

section \<open>References\<close>

text \<open>A text as pieces: text without a dollar sign, and references.\<close>

datatype piece = Literal string | Reference string

fun piece_ok :: "piece \<Rightarrow> bool" where
  "piece_ok (Literal s) = (CHR ''$'' \<notin> set s)"
| "piece_ok (Reference n) = (n \<noteq> [] \<and> name_start (hd n) \<and> list_all name_char n)"

fun render_piece :: "piece \<Rightarrow> string" where
  "render_piece (Literal s) = s"
| "render_piece (Reference n) = ''${'' @ n @ ''}''"

definition render :: "piece list \<Rightarrow> string" where
  "render ps = concat (map render_piece ps)"

fun piece_value :: "(string \<Rightarrow> string option) \<Rightarrow> piece \<Rightarrow> string" where
  "piece_value lookup (Literal s) = s"
| "piece_value lookup (Reference n) = (case lookup n of None \<Rightarrow> [] | Some v \<Rightarrow> v)"

fun unset :: "(string \<Rightarrow> string option) \<Rightarrow> piece \<Rightarrow> string list" where
  "unset lookup (Literal s) = []"
| "unset lookup (Reference n) = (if lookup n = None then [n] else [])"

lemma reference_at_literal: "c \<noteq> CHR ''$'' \<Longrightarrow> reference_at (c # cs) = None"
  by (simp add: reference_at_def has_prefix_def)

lemma reference_at_reference:
  assumes "piece_ok (Reference n)"
  shows "reference_at (''${'' @ n @ ''}'' @ t) = Some (n, t)"
proof -
  have "\<not> name_char (CHR ''}'')" by (simp add: name_char_def is_alnum_def is_digit_def)
  then have "takeWhile name_char (n @ ''}'' @ t) = n" "dropWhile name_char (n @ ''}'' @ t) = ''}'' @ t"
    using assms by (simp_all add: takeWhile_append dropWhile_append list_all_iff)
  then show ?thesis
    using assms by (simp add: reference_at_def has_prefix_def Let_def)
qed

lemma expand_literal:
  "CHR ''$'' \<notin> set s \<Longrightarrow> expand lookup (s @ t) = (s @ fst (expand lookup t), snd (expand lookup t))"
proof (induction s)
  case (Cons c s)
  then have "c \<noteq> CHR ''$''" by auto
  from reference_at_literal [OF this] Cons show ?case
    by (simp add: expand.simps [of lookup "c # s @ t"])
qed simp

lemma expand_reference:
  assumes "piece_ok (Reference n)"
  shows "expand lookup (''${'' @ n @ ''}'' @ t) =
    (piece_value lookup (Reference n) @ fst (expand lookup t),
     unset lookup (Reference n) @ snd (expand lookup t))"
  by (subst expand.simps, unfold reference_at_reference [OF assms])
    (simp add: case_prod_beta split: option.splits)

lemma expand_render:
  "list_all piece_ok ps \<Longrightarrow>
   expand lookup (render ps) = (concat (map (piece_value lookup) ps), concat (map (unset lookup) ps))"
proof (induction ps)
  case Nil
  have "expand lookup [] = ([], [])"
    by (subst expand.simps) (simp add: reference_at_def has_prefix_def)
  then show ?case by (simp add: render_def)
next
  case (Cons p ps)
  have r: "render (p # ps) = render_piece p @ render ps" by (simp add: render_def)
  show ?case
  proof (cases p)
    case (Literal s)
    then show ?thesis using Cons r by (simp add: expand_literal)
  next
    case (Reference n)
    then have ok: "piece_ok (Reference n)" using Cons.prems by simp
    have "render (p # ps) = ''${'' @ n @ ''}'' @ render ps" using r Reference by simp
    then show ?thesis
      using Cons expand_reference [OF ok, of lookup "render ps"] Reference by simp
  qed
qed

text \<open>C31: on a text made of pieces without dollar signs and of references
  \<open>${NAME}\<close>, the expansion substitutes every reference by its variable once, without expanding
  the substituted values again, when all of them are set; otherwise it fails and names exactly
  the unset ones, in their order.\<close>

theorem environment_expansion:
  assumes "list_all piece_ok ps"
  shows "expandEnvironment lookup (render ps) =
    (if list_all (\<lambda>p. unset lookup p = []) ps
     then Inr (concat (map (piece_value lookup) ps))
     else Inl (Errorf ''configuration references unset environment variables: %s''
       [join_with '', '' (concat (map (unset lookup) ps))]))"
proof -
  have "concat (map (unset lookup) ps) = [] \<longleftrightarrow> list_all (\<lambda>p. unset lookup p = []) ps"
    by (auto simp: list_all_iff)
  then show ?thesis
    by (simp add: expandEnvironment_def expand_render [OF assms])
qed

theorem environment_expansion_witness:
  "expandEnvironment [''P'' \<mapsto> ''${X}''] (render [Literal ''a: '', Reference ''P'', Literal ''.'']) = Inr ''a: ${X}.''
   \<and> expandEnvironment [''P'' \<mapsto> ''x''] (render [Reference ''Q'', Literal ''-'', Reference ''P''])
       = Inl (Errorf ''configuration references unset environment variables: %s'' [''Q''])"
  using environment_expansion [of "[Literal ''a: '', Reference ''P'', Literal ''.'']" "[''P'' \<mapsto> ''${X}'']"]
    environment_expansion [of "[Reference ''Q'', Literal ''-'', Reference ''P'']" "[''P'' \<mapsto> ''x'']"]
  by (simp add: name_start_def name_char_def is_alnum_def is_digit_def)

section \<open>Overrides\<close>

definition overridden :: "duration option \<Rightarrow> duration \<Rightarrow> duration" where
  "overridden ov d = (case ov of None \<Rightarrow> d | Some x \<Rightarrow> x)"

definition effectiveIntervals :: "interval_override \<Rightarrow> interval_config \<Rightarrow> intervals" where
  "effectiveIntervals ov d =
     [(''cluster'', overridden (io_cluster ov) (iv_cluster d)),
      (''node'', overridden (io_node ov) (iv_node d)),
      (''performance'', overridden (io_performance ov) (iv_performance d)),
      (''replication'', overridden (io_replication ov) (iv_replication d)),
      (''recovery'', overridden (io_recovery ov) (iv_recovery d)),
      (''namespace'', overridden (io_namespace ov) (iv_namespace d)),
      (''bucket'', overridden (io_bucket ov) (iv_bucket d))]"

definition assign :: "string \<times> duration option \<Rightarrow> (string \<rightharpoonup> duration) \<Rightarrow> (string \<rightharpoonup> duration)" where
  "assign kv m = (case snd kv of None \<Rightarrow> m | Some d \<Rightarrow> m(fst kv \<mapsto> d))"

definition store_override :: "string \<times> duration option \<Rightarrow> intervals \<Rightarrow> intervals" where
  "store_override kv r = (case snd kv of None \<Rightarrow> r | Some d \<Rightarrow> AList.update (fst kv) d r)"

lemma fold_override_map:
  "map_of (fold store_override xs r) = fold assign xs (map_of r)"
  by (induction xs arbitrary: r)
    (simp_all add: store_override_def assign_def update_conv' split: option.splits)

lemma fold_override_keys:
  "fst ` set xs \<subseteq> fst ` set r \<Longrightarrow> map fst (fold store_override xs r) = map fst r"
proof (induction xs arbitrary: r)
  case (Cons x xs)
  then have "map fst (store_override x r) = map fst r"
    by (auto simp: store_override_def update_keys split: option.splits)
  moreover from this have "fst ` set (store_override x r) = fst ` set r"
    by (metis set_map)
  ultimately show ?case using Cons by simp
qed simp

lemma fold_assign_order:
  assumes "mset xs = mset ys" and "distinct (map fst ys)"
  shows "fold assign xs = fold assign ys"
proof (rule fold_multiset_equiv)
  fix x y assume "x \<in> set xs" "y \<in> set xs"
  then have "x \<in> set ys" "y \<in> set ys" using assms(1) by (metis set_mset_mset)+
  then have "x = y \<or> fst x \<noteq> fst y"
    using assms(2) by (metis distinct_map inj_on_def)
  then show "assign x \<circ> assign y = assign y \<circ> assign x"
    by (auto simp: assign_def fun_eq_iff split: option.splits)
qed (use assms in simp)

lemma map_of_determines:
  "map fst xs = map fst ys \<Longrightarrow> distinct (map fst xs) \<Longrightarrow> map_of xs = map_of ys \<Longrightarrow> xs = ys"
proof (rule nth_equalityI)
  assume a: "map fst xs = map fst ys" "distinct (map fst xs)" "map_of xs = map_of ys"
  show l: "length xs = length ys" using a(1) by (metis length_map)
  fix i assume i: "i < length xs"
  have "map_of xs (fst (xs ! i)) = Some (snd (xs ! i))"
    using a(2) i by (metis map_of_eq_Some_iff nth_mem prod.collapse)
  moreover have "map_of ys (fst (ys ! i)) = Some (snd (ys ! i))"
    using a(1,2) i l by (metis map_of_eq_Some_iff nth_mem prod.collapse)
  moreover have "fst (xs ! i) = fst (ys ! i)" using a(1) i l by (metis nth_map)
  ultimately show "xs ! i = ys ! i" using a(3) by (metis option.inject prod_eqI)
qed

lemma Values_keys:
  "map fst (Values d) = [''cluster'', ''node'', ''performance'', ''replication'', ''recovery'', ''namespace'', ''bucket'']"
  "map fst (overrideEntries ov) = map fst (Values d)" "distinct (map fst (Values d))"
  by (simp_all add: Values_def overrideEntries_def)

lemma resolveIntervals_alt: "resolveIntervals ord ov d = fold store_override (ord (overrideEntries ov)) (Values d)"
  by (simp add: resolveIntervals_def store_override_def [abs_def] case_prod_beta')

lemma resolveIntervals_order:
  assumes "iterates ord"
  shows "resolveIntervals ord ov d = effectiveIntervals ov d"
proof -
  have keys: "map fst (fold store_override xs (Values d)) = map fst (Values d)"
    if "mset xs = mset (overrideEntries ov)" for xs
  proof (rule fold_override_keys)
    have "set xs = set (overrideEntries ov)" using that by (metis set_mset_mset)
    then show "fst ` set xs \<subseteq> fst ` set (Values d)"
      by (metis Values_keys(2) order_refl set_map)
  qed
  have m: "mset (ord (overrideEntries ov)) = mset (overrideEntries ov)"
    using assms by (rule iterates_mset)
  have "fold store_override (ord (overrideEntries ov)) (Values d)
      = fold store_override (overrideEntries ov) (Values d)"
  proof (rule map_of_determines)
    show "map fst (fold store_override (ord (overrideEntries ov)) (Values d))
        = map fst (fold store_override (overrideEntries ov) (Values d))"
      using keys [OF m] keys [OF refl] by simp
    show "distinct (map fst (fold store_override (ord (overrideEntries ov)) (Values d)))"
      using keys [OF m] Values_keys(3) by simp
    show "map_of (fold store_override (ord (overrideEntries ov)) (Values d))
        = map_of (fold store_override (overrideEntries ov) (Values d))"
      unfolding fold_override_map
      by (subst fold_assign_order [OF m]) (simp_all add: Values_keys(2) [of ov d] Values_keys(3))
  qed
  also have "\<dots> = effectiveIntervals ov d"
    by (simp add: Values_def overrideEntries_def effectiveIntervals_def store_override_def overridden_def
        split: option.splits)
  finally show ?thesis by (simp add: resolveIntervals_alt)
qed

section \<open>Validation\<close>

definition names_ok :: "nat \<Rightarrow> string list \<Rightarrow> bool" where
  "names_ok maxBytes vs \<longleftrightarrow> list_all (\<lambda>v. validIdentifier v maxBytes) vs \<and> distinct vs"

definition file_ok :: "machine \<Rightarrow> string \<Rightarrow> bool" where
  "file_ok m path \<longleftrightarrow> he_regular m (path_Clean path) = Inr True"

definition cluster_ok :: "machine \<Rightarrow> collector_config \<Rightarrow> cluster_config \<Rightarrow> bool" where
  "cluster_ok m co c \<longleftrightarrow>
     validIdentifier (cg_name c) 128 \<and> validIdentifier (cg_site c) 128
     \<and> validIdentifier (cg_environment c) 64
     \<and> originOnly (cg_endpoint c)
     \<and> (cg_username c = []) \<noteq> (cg_username_file c = [])
     \<and> (cg_password c = []) \<noteq> (cg_password_file c = [])
     \<and> succeeds (Credentials m c)
     \<and> (ct_ca_file (cg_tls c) = [] \<or> file_ok m (ct_ca_file (cg_tls c)))
     \<and> set (cg_conditional c) \<subseteq> set allowedConditional \<and> distinct (cg_conditional c)
     \<and> EffectiveMaxNetworkInterfaces (cg_resources c) \<in> {1..128}
     \<and> names_ok 128 (nr_filesystems (cg_resources c)) \<and> names_ok 128 (nr_interfaces (cg_resources c))
     \<and> (''node_disk_capacity'' \<in> set (cg_conditional c) \<longrightarrow> nr_filesystems (cg_resources c) \<noteq> [])
     \<and> names_ok 512 (rg_groups (cg_replication c) @ rg_links (cg_replication c))
     \<and> list_all (\<lambda>(_, d). 0 < d) (effectiveIntervals (cg_intervals c) (co_intervals co))
     \<and> timeoutsValid (resolveTimeouts (cg_timeouts c) (co_timeout co))"

definition collector_ok :: "collector_config \<Rightarrow> bool" where
  "collector_ok co \<longleftrightarrow>
     0 < co_timeout co \<and> rt_max_attempts (co_retry co) \<in> {1..10}
     \<and> 0 < rt_initial (co_retry co) \<and> rt_initial (co_retry co) \<le> rt_max (co_retry co)
     \<and> \<not> fle (rl_per_second (co_rate co)) fzero \<and> \<not> flt (f64_nat 10000) (rl_per_second (co_rate co))
     \<and> rl_burst (co_rate co) \<in> {1..10000}
     \<and> \<not> flt (co_jitter co) fzero \<and> \<not> flt (Fin False (1 / 2)) (co_jitter co)
     \<and> list_all (\<lambda>(_, d). 0 < d) (Values (co_intervals co))
     \<and> cu_max_requests (co_concurrency co) \<in> {1..64} \<and> cu_page_size (co_concurrency co) \<in> {1..10000}"

definition token_file_ok :: "machine \<Rightarrow> string \<Rightarrow> bool" where
  "token_file_ok m file \<longleftrightarrow>
     file \<noteq> [] \<and> (case he_read m (path_Clean file) of
        Inl _ \<Rightarrow> False
      | Inr content \<Rightarrow> length (trimLineEndings content) \<in> {16..4096}
          \<and> \<not> contains_space (trimLineEndings content))"

definition inventory_ok :: "machine \<Rightarrow> inventory_security \<Rightarrow> bool" where
  "inventory_ok m s \<longleftrightarrow>
     is_max_page s \<in> {1..10000}
     \<and> (is_enabled s \<longrightarrow>
          is_authentication s = ''token'' \<and> token_file_ok m (is_token_file s)
          \<or> is_authentication s = ''proxy'' \<and> is_proxy_header s \<noteq> [] \<and> is_trusted s \<noteq> []
            \<and> list_all (\<lambda>v. ParseCIDR v \<noteq> None) (is_trusted s))"

definition server_ok :: "machine \<Rightarrow> server_config \<Rightarrow> bool" where
  "server_ok m sv \<longleftrightarrow>
     sv_listen sv \<noteq> [] \<and> succeeds (he_tcp m (sv_listen sv))
     \<and> (st_cert (sv_tls sv) = [] \<and> st_key (sv_tls sv) = []
        \<or> st_cert (sv_tls sv) \<noteq> [] \<and> st_key (sv_tls sv) \<noteq> []
          \<and> file_ok m (st_cert (sv_tls sv)) \<and> file_ok m (st_key (sv_tls sv)))"

definition prometheus_ok :: "prometheus_config \<Rightarrow> bool \<Rightarrow> bool" where
  "prometheus_ok pm inventory \<longleftrightarrow>
     validHTTPPath (pm_path pm) \<and> pm_path pm \<notin> {''/health'', ''/api/v1''}
     \<and> \<not> has_prefix (pm_path pm) ''/api/v1/'' \<and> (pm_protected pm \<longrightarrow> inventory)"

definition valid_config :: "machine \<Rightarrow> config \<Rightarrow> bool" where
  "valid_config m c \<longleftrightarrow>
     server_ok m (cf_server c) \<and> prometheus_ok (cf_prometheus c) (is_enabled (cf_inventory c))
     \<and> 0 < ca_stale_tolerance (cf_cache c)
     \<and> ca_stale_tolerance (cf_cache c) \<le> ca_max_stale (cf_cache c)
     \<and> collector_ok (cf_collector c) \<and> inventory_ok m (cf_inventory c)
     \<and> cf_clusters c \<noteq> [] \<and> distinct (map cg_name (cf_clusters c))
     \<and> list_all (cluster_ok m (cf_collector c)) (cf_clusters c)"

lemma problem_empty [simp]: "problem b e = [] \<longleftrightarrow> \<not> b"
  by (simp add: problem_def)

lemma failure_empty [simp]: "failure f m = [] \<longleftrightarrow> succeeds m"
  by (cases m) (simp_all add: failure_def)

lemma uniqueValues_empty:
  "uniqueValues valid invalid duplicate seen vs = []
    \<longleftrightarrow> list_all valid vs \<and> distinct vs \<and> seen \<inter> set vs = {}"
  by (induction vs arbitrary: seen) auto

lemma conditionalProblems_empty:
  "conditionalProblems name seen vs = []
    \<longleftrightarrow> set vs \<subseteq> set allowedConditional \<and> distinct vs \<and> seen \<inter> set vs = {}"
  by (induction vs arbitrary: seen) auto

lemma readable_empty: "validateReadableFile m path d = [] \<longleftrightarrow> file_ok m path"
  by (simp add: validateReadableFile_def file_ok_def split: sum.splits)

lemma concat_map_order:
  "iterates ord \<Longrightarrow> concat (map f (ord xs)) = [] \<longleftrightarrow> list_all (\<lambda>x. f x = []) xs"
  by (auto simp: list_all_iff dest: iterates_set)

lemma resourceProblems_empty: "resourceProblems name (field, vs) = [] \<longleftrightarrow> names_ok 128 vs"
  by (simp add: resourceProblems_def uniqueValues_empty names_ok_def)

lemma replicationProblems_empty: "replicationProblems name (kind, vs) = [] \<longleftrightarrow> names_ok 512 vs"
  by (simp add: replicationProblems_def uniqueValues_empty names_ok_def)

lemma names_ok_append:
  "names_ok n (xs @ ys) \<longleftrightarrow> names_ok n xs \<and> names_ok n ys \<and> (\<forall>y\<in>set ys. y \<notin> set xs)"
  by (auto simp: names_ok_def)

lemma max_interfaces:
  "EffectiveMaxNetworkInterfaces r \<in> {1..128} \<longleftrightarrow> \<not> (nr_max_interfaces r < 0 \<or> nr_max_interfaces r > 128)"
  by (simp add: EffectiveMaxNetworkInterfaces_def) arith

lemma list_all_pair: "list_all P [x, y] \<longleftrightarrow> P x \<and> P y"
  by simp

lemma if_empty: "(if b then xs else []) = [] \<longleftrightarrow> \<not> b \<or> xs = []"
  by simp

lemma links_empty:
  "concat (map (\<lambda>v. problem (v \<in> A) (f v)) vs) = [] \<longleftrightarrow> (\<forall>v\<in>set vs. v \<notin> A)"
  by simp

lemma validateCluster_empty:
  assumes "iterates ord"
  shows "validateCluster m ord c = [] \<longleftrightarrow>
     validIdentifier (cg_name c) 128 \<and> validIdentifier (cg_site c) 128
     \<and> validIdentifier (cg_environment c) 64
     \<and> originOnly (cg_endpoint c)
     \<and> (cg_username c = []) \<noteq> (cg_username_file c = [])
     \<and> (cg_password c = []) \<noteq> (cg_password_file c = [])
     \<and> (ct_ca_file (cg_tls c) = [] \<or> file_ok m (ct_ca_file (cg_tls c)))
     \<and> set (cg_conditional c) \<subseteq> set allowedConditional \<and> distinct (cg_conditional c)
     \<and> EffectiveMaxNetworkInterfaces (cg_resources c) \<in> {1..128}
     \<and> names_ok 128 (nr_filesystems (cg_resources c)) \<and> names_ok 128 (nr_interfaces (cg_resources c))
     \<and> (''node_disk_capacity'' \<in> set (cg_conditional c) \<longrightarrow> nr_filesystems (cg_resources c) \<noteq> [])
     \<and> names_ok 512 (rg_groups (cg_replication c) @ rg_links (cg_replication c))"
  unfolding validateCluster_def Let_def names_ok_append max_interfaces concat.simps
    append_is_Nil_conv problem_empty conditionalProblems_empty concat_map_order [OF assms]
    list_all_pair resourceProblems_empty replicationProblems_empty links_empty if_empty
    readable_empty Int_empty_left
  by argo

lemma intervals_empty:
  assumes "iterates ord"
  shows "concat (map (\<lambda>(name, d). problem (d \<le> 0) (f name)) (ord xs)) = []
    \<longleftrightarrow> list_all (\<lambda>(_, d). (0::int) < d) xs"
  unfolding concat_map_order [OF assms] by (auto simp: list_all_iff)

definition orders_ok :: "map_orders \<Rightarrow> bool" where
  "orders_ok ord \<longleftrightarrow> iterates (mo_intervals ord) \<and> iterates (mo_overrides ord) \<and> iterates (mo_names ord)"

lemma clusterProblems_empty:
  assumes "orders_ok ord"
  shows "clusterProblems m ord co c = [] \<longleftrightarrow> cluster_ok m co c"
proof -
  have o: "iterates (mo_intervals ord)" "iterates (mo_overrides ord)" "iterates (mo_names ord)"
    using assms by (simp_all add: orders_ok_def)
  show ?thesis
    unfolding clusterProblems_def cluster_ok_def append_is_Nil_conv validateCluster_empty [OF o(3)]
      failure_empty resolveIntervals_order [OF o(2)] intervals_empty [OF o(1)] problem_empty not_not
    by argo
qed

lemma clustersProblems_empty:
  "orders_ok ord \<Longrightarrow> clustersProblems m ord co seen cs = []
    \<longleftrightarrow> list_all (cluster_ok m co) cs \<and> distinct (map cg_name cs) \<and> seen \<inter> cg_name ` set cs = {}"
  by (induction cs arbitrary: seen) (auto simp: clusterProblems_empty)

lemma collectorProblems_empty:
  assumes "iterates ord"
  shows "collectorProblems ord co = [] \<longleftrightarrow> collector_ok co"
  unfolding collectorProblems_def collector_ok_def concat.simps append_is_Nil_conv problem_empty
    intervals_empty [OF assms] not_le not_less de_Morgan_disj atLeastAtMost_iff
  by argo

lemma inventory_empty: "validateInventory m s = [] \<longleftrightarrow> inventory_ok m s"
  by (auto simp: validateInventory_def inventory_ok_def tokenFileProblems_def token_file_ok_def
      CIDR_error_def list_all_iff Let_def split: sum.splits option.splits)

lemma server_empty: "serverProblems m sv = [] \<longleftrightarrow> server_ok m sv"
  by (auto simp: serverProblems_def server_ok_def readable_empty Let_def)

lemma prometheus_empty: "prometheusProblems pm b = [] \<longleftrightarrow> prometheus_ok pm b"
  by (auto simp: prometheusProblems_def prometheus_ok_def)

text \<open>C32: \<^verbatim>\<open>Validate\<close> accepts exactly the configurations that satisfy
  the declarative predicate \<open>valid_config\<close> (ranges, unique names, files, credentials, effective
  intervals and timeouts of every cluster), whatever order Go's maps are walked in.\<close>

theorem validation_spec:
  assumes "orders_ok ord"
  shows "Validate m ord c = Inr () \<longleftrightarrow> valid_config m c"
proof -
  have o: "iterates (mo_intervals ord)" using assms by (simp add: orders_ok_def)
  have "problems m ord c = [] \<longleftrightarrow> valid_config m c"
    unfolding problems_def valid_config_def concat.simps append_is_Nil_conv problem_empty
      server_empty prometheus_empty collectorProblems_empty [OF o] inventory_empty
      clustersProblems_empty [OF assms] Int_empty_left not_le not_less de_Morgan_disj
    by argo
  then show ?thesis by (simp add: Validate_def Let_def)
qed

text \<open>A machine and a configuration with one cluster that validates.\<close>

definition demo_machine :: machine where
  "demo_machine =
     \<lparr>he_read = (\<lambda>p. if p = ''/run/token'' then Inr (''0123456789abcdef'' @ [CHR 0x0A]) else Inr ''secret''),
      he_regular = (\<lambda>_. Inr True), he_env = (\<lambda>_. None), he_tcp = (\<lambda>_. Inr ()),
      he_yaml = (\<lambda>_ c. Inr (c, EndOfInput))\<rparr>"

definition demo_cluster :: cluster_config where
  "demo_cluster =
     \<lparr>cg_name = ''ecs1'', cg_site = ''paris'', cg_environment = ''prod'',
      cg_endpoint = ''https://ecs.example.com'', cg_username = ''monitor'', cg_username_file = [],
      cg_password = [], cg_password_file = ''/run/password'',
      cg_tls = \<lparr>ct_verify = None, ct_ca_file = []\<rparr>,
      cg_timeouts = \<lparr>to_connect = None, to_read = Some second, to_overall = None\<rparr>,
      cg_intervals = \<lparr>io_cluster = None, io_node = Some minute, io_performance = None,
        io_replication = None, io_recovery = None, io_namespace = None, io_bucket = None\<rparr>,
      cg_conditional = [''vdc_performance''],
      cg_resources = \<lparr>nr_filesystems = [''/''], nr_interfaces = [], nr_max_interfaces = 0,
        nr_prefer_bond = None\<rparr>,
      cg_replication = \<lparr>rg_groups = [''rg1''], rg_links = [''link1'']\<rparr>\<rparr>"

definition demo_config :: config where
  "demo_config = Defaults\<lparr>cf_inventory := (cf_inventory Defaults)\<lparr>is_token_file := ''/run/token''\<rparr>,
     cf_clusters := [demo_cluster]\<rparr>"

definition plain_orders :: map_orders where
  "plain_orders = \<lparr>mo_intervals = rev, mo_overrides = rev, mo_names = rev\<rparr>"

lemma plain_orders_ok: "orders_ok plain_orders"
  by (simp add: orders_ok_def plain_orders_def)

lemma demo_identifiers:
  "validIdentifier ''ecs1'' 128" "validIdentifier ''paris'' 128" "validIdentifier ''prod'' 64"
  "validIdentifier ''monitor'' 256" "names_ok 128 [''/'']" "names_ok 512 [''rg1'', ''link1'']"
  "names_ok 128 []" "originOnly ''https://ecs.example.com''"
  by code_simp+

lemma demo_token_text:
  "path_Clean ''/run/token'' = ''/run/token''"
  "trimLineEndings (''0123456789abcdef'' @ [CHR 0x0A]) = ''0123456789abcdef''"
  "\<not> contains_space ''0123456789abcdef''"
  by code_simp+

lemma demo_token: "token_file_ok demo_machine ''/run/token''"
  using demo_token_text by (simp add: token_file_ok_def demo_machine_def)

lemma demo_secret: "resolveSecret demo_machine [] ''/run/password'' = Inr ''secret''"
  by code_simp

lemma demo_username: "\<not> containsControl ''monitor''"
  by code_simp

lemma demo_credentials: "Credentials demo_machine demo_cluster = Inr (''monitor'', ''secret'')"
  using demo_secret demo_username demo_identifiers(4)
  by (simp add: Credentials_def demo_cluster_def resolveSecret_def)

lemma demo_cluster_ok: "cluster_ok demo_machine (cf_collector Defaults) demo_cluster"
  using demo_identifiers demo_credentials
  by (simp add: cluster_ok_def demo_cluster_def allowedConditional_def effectiveIntervals_def
      overridden_def timeoutsValid_def resolveTimeouts_def EffectiveMaxNetworkInterfaces_def
      Defaults_def minute_def second_def)

lemma tenth: "0 \<le> rnd (1 / 10)" "rnd (1 / 10) \<le> 1 / 2"
proof -
  have h: "rnd (1 / 2) = 1 / 2" by (rule rnd_exact [of _ 1 "- 1"]) simp_all
  have "rnd (1 / 10) \<le> rnd (1 / 2)" by (rule rnd_mono) simp_all
  then show "rnd (1 / 10) \<le> 1 / 2" unfolding h .
qed (rule rnd_nonneg, simp)

lemma demo_collector_ok: "collector_ok (cf_collector Defaults)"
  using tenth by (simp add: collector_ok_def Defaults_def second_def minute_def Values_def fle_def fzero_def)

lemma demo_config_valid: "valid_config demo_machine demo_config"
  using demo_cluster_ok demo_collector_ok demo_token
  by (simp add: valid_config_def demo_config_def server_ok_def demo_machine_def inventory_ok_def
     prometheus_ok_def Defaults_def validHTTPPath_def contains_any_def has_prefix_def minute_def hour_def second_def)

theorem validation_spec_witness:
  "Validate demo_machine plain_orders demo_config = Inr ()
   \<and> Validate demo_machine plain_orders (demo_config\<lparr>cf_clusters := [demo_cluster, demo_cluster]\<rparr>) \<noteq> Inr ()"
  using validation_spec [OF plain_orders_ok, of demo_machine demo_config] demo_config_valid
    validation_spec [OF plain_orders_ok, of demo_machine "demo_config\<lparr>cf_clusters := [demo_cluster, demo_cluster]\<rparr>"]
  by (simp add: valid_config_def [of _ "demo_config\<lparr>cf_clusters := [demo_cluster, demo_cluster]\<rparr>"])

end
