(* ===== verification/Client_Facts.thy ===== *)
theory Client_Facts
  imports Client Config_Facts
begin

text \<open>
  What the client guarantees: a validated configuration makes a client, a call always returns
  under a deadline and sends a bounded number of requests, and the credentials and the token only
  go where they belong. The requests of a call are read off a host that records them.
\<close>

section \<open>Clients of a validated configuration\<close>

lemma managementURL_origin: "originOnly e \<Longrightarrow> \<exists>u. managementURL e = Inr u"
  by (auto simp: originOnly_def managementURL_def Let_def split: option.splits)



section \<open>A rate that is not a number\<close>

definition nan_config :: config where
  "nan_config = demo_config\<lparr>cf_collector := (cf_collector demo_config)\<lparr>co_rate := \<lparr>rl_per_second = NaN, rl_burst = 4\<rparr>\<rparr>\<rparr>"

lemma nan_config_valid: "valid_config demo_machine nan_config"
proof -
  have "collector_ok (cf_collector nan_config)"
    using demo_collector_ok by (simp add: collector_ok_def nan_config_def demo_config_def fle_def)
  moreover have "cluster_ok demo_machine (cf_collector nan_config) demo_cluster"
    using demo_cluster_ok by (simp add: cluster_ok_def nan_config_def demo_config_def)
  ultimately show ?thesis
    using demo_config_valid by (simp add: valid_config_def nan_config_def demo_config_def)
qed

text \<open>C38: a rate limit that is not a number passes the validation, because
  every comparison with it is false, and the bucket made from it never grants a request again
  once its clock has moved by a second.\<close>

theorem nan_rate_accepted:
  "Validate demo_machine plain_orders nan_config = Inr ()
   \<and> grants ts (refill (now + second)
        (newRequestLimiter (rl_per_second (co_rate (cf_collector nan_config))) (rl_burst (co_rate (cf_collector nan_config))) now)) = 0"
proof
  show "Validate demo_machine plain_orders nan_config = Inr ()"
    using validation_spec [OF plain_orders_ok] nan_config_valid by simp
  have r: "rl_per_second (co_rate (cf_collector nan_config)) = NaN" by (simp add: nan_config_def)
  have "f64_of_int 1 = Fin False 1" "f64_of_int 0 = Fin False 0" using f64_of_int_small [of 1] f64_of_int_small [of 0] by simp_all
  moreover have "pack False 1 = Fin False 1" using wf_f64_nat [of 1] pack_wf [of False 1 False] by simp
  ultimately have "flt fzero (Seconds second)" by (simp add: Seconds_def second_def fzero_def)
  moreover have "time_sub (now + second) now = second" by (simp add: time_sub_def sat64_def min_int64_def max_int64_def second_def)
  ultimately show "grants ts (refill (now + second)
      (newRequestLimiter (rl_per_second (co_rate (cf_collector nan_config))) (rl_burst (co_rate (cf_collector nan_config))) now)) = 0"
    unfolding r by (intro NaN_starves NaN_refill) (simp_all add: newRequestLimiter_def)
qed

section \<open>Calls return\<close>

lemma Wait_returns: "deadline h left \<Longrightarrow> \<exists>r. Wait h s = Some r"
  using limiterWait_returns [of h left "cx_limiter s" "cx_world s"] by (auto simp: Wait_def)

lemma Token_returns: "deadline h left \<Longrightarrow> \<exists>r. Token h c ctx n s = Some r"
  using Wait_returns [of h left s]
  by (auto simp: Token_def Let_def split: if_splits prod.splits)

lemma request_returns: "deadline h left \<Longrightarrow> \<exists>r. request h c ctx call body token n s = Some r"
  using Wait_returns [of h left s]
  by (auto simp: request_def Let_def split: if_splits prod.splits option.splits sum.splits)

lemma round_returns:
  assumes "deadline h left"
  shows "\<exists>r. round h c ctx call body target initial attempt n reauth s = Some r"
proof -
  obtain t s1 where t: "Token h c ctx (max (n + 1) attempt) s = Some (t, s1)"
    using Token_returns [OF assms] by fastforce
  show ?thesis
  proof (cases t)
    case (Inr tok)
    obtain reply s2 where "request h c ctx call body tok (n + 1) s1 = Some (reply, s2)"
      using request_returns [OF assms] by fastforce
    then show ?thesis using t Inr by (simp add: round_def)
  qed (use t in \<open>simp add: round_def\<close>)
qed

lemma attempts_returns:
  assumes "deadline h left"
  shows "\<exists>r. attempts h c ctx call body target initial attempt n reauth latest s = Some r"
  using assms
proof (induction h c ctx call body target initial attempt n reauth latest s rule: attempts.induct)
  case (1 h c ctx call body target initial attempt n reauth latest s)
  show ?case
  proof (cases "attempt > rt_max_attempts (cl_retry c)")
    case True
    then show ?thesis by (subst attempts.simps) simp
  next
    case False
    obtain r s1 where r: "round h c ctx call body target initial attempt n reauth s = Some (r, s1)"
      using round_returns [OF 1(2)] by fastforce
    show ?thesis
      using "1.IH" [OF False r refl _ "1.prems"] False
      by (subst attempts.simps) (auto simp: r split: round.splits)
  qed
qed

lemma DoJSON_returns:
  assumes "deadline h left"
  shows "\<exists>result s'. DoJSON h c ctx call target initial s = Some (result, s')"
proof -
  have a: "attempts h c ctx' call body target initial 1 0 False None u \<noteq> None" for ctx' body u
    using attempts_returns [OF assms] by (metis option.distinct(1))
  have "DoJSON h c ctx call target initial s \<noteq> None"
    by (simp add: DoJSON_def Let_def case_prod_beta bind_eq_None_conv a split_def del: not_None_eq)
  then show ?thesis by auto
qed

lemma Close_returns:
  assumes "deadline h left"
  shows "\<exists>result s'. Close h c ctx s = Some (result, s')"
proof -
  have w: "Wait h u \<noteq> None" for u using Wait_returns [OF assms, of u] by (metis option.distinct(1))
  have "Close h c ctx s \<noteq> None"
    by (simp add: Close_def Logout_def Let_def bind_eq_None_conv w split_def del: not_None_eq)
  then show ?thesis by auto
qed

text \<open>C39: under a context with a deadline a call returns, and so does closing the
  client, whatever the host answers: neither the wait for the rate limiter nor the loop over the
  attempts can go on for ever.\<close>

theorem calls_return:
  assumes "deadline h left"
  shows "(\<exists>result s'. DoJSON h c ctx call target initial s = Some (result, s'))
    \<and> (\<exists>result s'. Close h c ctx' u = Some (result, s'))"
  using DoJSON_returns [OF assms] Close_returns [OF assms] by simp

section \<open>What a call sends\<close>

text \<open>A host that records the requests of the round trips it makes.\<close>

definition lifted :: "('w \<Rightarrow> 'a \<times> 'w) \<Rightarrow> 'w \<times> http_request list \<Rightarrow> 'a \<times> 'w \<times> http_request list" where
  "lifted f = (\<lambda>(w, sent). case f w of (a, w) \<Rightarrow> (a, w, sent))"

definition recording :: "'w host \<Rightarrow> ('w \<times> http_request list) host" where
  "recording h =
     \<lparr>ho_now = lifted (ho_now h), ho_sleep = (\<lambda>d. lifted (ho_sleep h d)),
      ho_random = (\<lambda>n. lifted (ho_random h n)), ho_acquire = lifted (ho_acquire h),
      ho_release = (\<lambda>(w, sent). (ho_release h w, sent)),
      ho_do = (\<lambda>q (w, sent). case ho_do h q w of (r, w) \<Rightarrow> (r, w, sent @ [q])),
      ho_http_date = ho_http_date h, ho_convert = ho_convert h\<rparr>"

definition sent :: "('w \<times> http_request list) client_state \<Rightarrow> http_request list" where
  "sent s = snd (cx_world s)"

lemma lifted_snd [simp]: "snd (snd (lifted f w)) = snd w"
  by (simp add: lifted_def split: prod.splits)

text \<open>A token that may be put into a header, and a state that holds no other.\<close>

definition good_token :: "string \<Rightarrow> bool" where
  "good_token t \<longleftrightarrow> t \<noteq> [] \<and> length t \<le> 4096 \<and> \<not> contains_any t [CHR 0x0D, CHR 0x0A]"

definition token_ok :: "'w client_state \<Rightarrow> bool" where
  "token_ok s \<longleftrightarrow> cx_token s = [] \<or> good_token (cx_token s)"

definition is_login :: "http_request \<Rightarrow> bool" where
  "is_login q \<longleftrightarrow> rq_basic q \<noteq> None"

definition loginURL :: "client \<Rightarrow> string" where
  "loginURL c = url_String ((cl_base c)\<lparr>url_path := ''/login''\<rparr>) []"

definition origin :: "client \<Rightarrow> string" where
  "origin c = url_scheme (cl_base c) @ ''://''
     @ concat (map (\<lambda>c. if should_escape c EncodeHost then percent c else [c]) (url_host (cl_base c)))"

text \<open>
  A request that may be sent: a login with the credentials at the client's login address, or the
  call's own request with a token and without the credentials; both at the client's origin.
\<close>

definition may_send :: "client \<Rightarrow> call \<Rightarrow> http_request \<Rightarrow> bool" where
  "may_send c call q \<longleftrightarrow>
     has_prefix (rq_url q) (origin c)
     \<and> (if is_login q then q = loginRequest c (loginURL c)
        else rq_method q = ca_method call
          \<and> (\<exists>t. good_token t \<and> (tokenHeader, t) \<in> set (rq_headers q)))"

lemma origin_prefix: "url_scheme u = url_scheme (cl_base c) \<Longrightarrow> url_host u = url_host (cl_base c) \<Longrightarrow>
    has_prefix (url_String u raw) (origin c)"
  unfolding has_prefix_iff url_String_def origin_def Let_def by (simp only: append_assoc) blast

lemma may_send_login: "may_send c call (loginRequest c (loginURL c))"
  by (simp add: may_send_def is_login_def loginRequest_def) (simp add: loginURL_def origin_prefix)

lemma may_send_call: "good_token t \<Longrightarrow> may_send c call (requestFor c call d b t)"
  by (auto simp: may_send_def is_login_def requestFor_def intro: origin_prefix)

text \<open>The effect of a step: it sends some requests that are allowed, at most \<open>n\<close> of either kind, and
  keeps the token in order.\<close>

definition sends :: "client \<Rightarrow> call \<Rightarrow> nat \<Rightarrow> nat \<Rightarrow> ('w \<times> http_request list) client_state \<Rightarrow>
    ('w \<times> http_request list) client_state \<Rightarrow> bool" where
  "sends c call logins others s s' \<longleftrightarrow>
     (\<exists>qs. sent s' = sent s @ qs \<and> list_all (may_send c call) qs
        \<and> length (filter is_login qs) \<le> logins \<and> length (filter (\<lambda>q. \<not> is_login q) qs) \<le> others)
     \<and> (token_ok s \<longrightarrow> token_ok s')"

lemma sends_refl: "sent s' = sent s \<Longrightarrow> cx_token s' = cx_token s \<Longrightarrow> sends c call 0 0 s s'"
  by (simp add: sends_def token_ok_def)

lemma sends_trans:
  assumes "sends c call a b s s1" "sends c call a' b' s1 s2"
  shows "sends c call (a + a') (b + b') s s2"
proof -
  obtain qs rs where q: "sent s1 = sent s @ qs" "list_all (may_send c call) qs"
      "length (filter is_login qs) \<le> a" "length (filter (\<lambda>q. \<not> is_login q) qs) \<le> b"
    and r: "sent s2 = sent s1 @ rs" "list_all (may_send c call) rs"
      "length (filter is_login rs) \<le> a'" "length (filter (\<lambda>q. \<not> is_login q) rs) \<le> b'"
    using assms by (auto simp: sends_def)
  then show ?thesis
    unfolding sends_def using assms
    by (intro conjI exI [of _ "qs @ rs"]) (auto simp: sends_def)
qed

lemma sends_mono: "sends c call a b s s' \<Longrightarrow> a \<le> a' \<Longrightarrow> b \<le> b' \<Longrightarrow> sends c call a' b' s s'"
  unfolding sends_def by (meson le_trans)

section \<open>Steps that send nothing\<close>

lemma limiterWait_sent:
  fixes h :: "'w host"
  shows "limiterWait (recording h) l w = Some (granted, l', w') \<Longrightarrow> snd w' = snd w"
proof -
  have "h' = recording h \<longrightarrow> snd (snd (snd y)) = snd w"
    if "limiterWait h' l w = Some y" for h' :: "('w \<times> http_request list) host" and l w y
  proof (rule limiterWait.raw_induct [where P = "\<lambda>h' l w y. h' = recording h \<longrightarrow> snd (snd (snd y)) = snd w", OF _ that])
    fix rec :: "('w \<times> http_request list) host \<Rightarrow> limiter \<Rightarrow> 'w \<times> http_request list \<Rightarrow>
        (bool \<times> limiter \<times> 'w \<times> http_request list) option"
      and h' :: "('w \<times> http_request list) host" and l w y
    assume IH: "\<And>h' l w y. rec h' l w = Some y \<Longrightarrow> h' = recording h \<longrightarrow> snd (snd (snd y)) = snd w"
      and body: "(let (now, w) = ho_now h' w; l = refill now l
         in case takeToken l of
              None \<Rightarrow> let (fired, w) = ho_sleep h' (tokenWait (ho_convert h') l) w
                in if fired then rec h' l w else Some (False, l, w)
            | Some l \<Rightarrow> Some (True, l, w)) = Some y"
    obtain now v where now: "ho_now h' w = (now, v)" by (rule prod.exhaust)
    obtain fired u where sleep: "ho_sleep h' (tokenWait (ho_convert h') (refill now l)) v = (fired, u)" by (rule prod.exhaust)
    show "h' = recording h \<longrightarrow> snd (snd (snd y)) = snd w"
    proof
      assume h: "h' = recording h"
      have "lifted (ho_now h) w = (now, v)"
        "lifted (ho_sleep h (tokenWait (ho_convert h) (refill now l))) v = (fired, u)"
        using now sleep by (simp_all add: h recording_def)
      then have "snd v = snd w" "snd u = snd v" by (metis lifted_snd snd_conv)+
      then show "snd (snd (snd y)) = snd w"
        using body IH [of h' "refill now l" u y] now sleep unfolding h
        by (auto simp: Let_def split: option.splits if_splits)
    qed
  qed
  then show "limiterWait (recording h) l w = Some (granted, l', w') \<Longrightarrow> snd w' = snd w"
    by fastforce
qed

lemma Wait_sent:
  "Wait (recording h) s = Some (granted, s') \<Longrightarrow> sent s' = sent s \<and> cx_token s' = cx_token s"
  by (auto simp: Wait_def sent_def dest: limiterWait_sent)

lemma clock_sent [simp]:
  "sent (snd (clock (recording h) s)) = sent s" "cx_token (snd (clock h' s')) = cx_token s'"
  by (simp_all add: clock_def sent_def recording_def lifted_def split: prod.splits)

lemma observe_sent [simp]: "sent (observe ob s) = sent s" "cx_token (observe ob s') = cx_token s'"
  by (simp_all add: observe_def sent_def)

lemma sent_update [simp]:
  "sent (s\<lparr>cx_breaker := b\<rparr>) = sent s" "sent (s\<lparr>cx_token := t\<rparr>) = sent s"
  "sent (s\<lparr>cx_sequence := n\<rparr>) = sent s" "sent (s\<lparr>cx_world := w\<rparr>) = snd w"
  by (simp_all add: sent_def)

lemma do_sent [simp]: "snd (snd (ho_do (recording h) q w)) = snd w @ [q]"
  by (simp add: recording_def split: prod.splits)

lemma sleep_sent [simp]: "snd (snd (ho_sleep (recording h) d w)) = snd w"
  and random_sent [simp]: "snd (snd (ho_random (recording h) n w)) = snd w"
  and acquire_sent [simp]: "snd (snd (ho_acquire (recording h) w)) = snd w"
  and release_sent [simp]: "snd (ho_release (recording h) w) = snd w"
  by (simp_all add: recording_def split: prod.splits)

lemma waitBackoff_sent [simp]: "snd (snd (waitBackoff (recording h) r n d w)) = snd w"
  by (simp add: waitBackoff_def backoffTimer_def Let_def split: prod.splits)
    (metis random_sent sleep_sent snd_conv)

lemma roundTrip_sent:
  "roundTrip (recording h) q s = (r, d, s') \<Longrightarrow> sent s' = sent s @ [q] \<and> cx_token s' = cx_token s"
  by (auto simp: roundTrip_def Let_def split_def sent_def [symmetric])

lemma retryRound_sends:
  "retryRound (recording h) c call attempt n reauth after e s = (r, s') \<Longrightarrow> sends c call 0 0 s s'"
  by (rule sends_refl) (auto simp: retryRound_def Let_def split_def sent_def [symmetric] split: if_splits)

lemma finished_sends: "finished c ctx call n reply v s = (r, s') \<Longrightarrow> sends c call 0 0 s s'"
  by (rule sends_refl) (auto simp: finished_def)

lemma observe_sends: "sends c call a b (observe ob s) s' \<longleftrightarrow> sends c call a b s s'"
  by (simp add: sends_def token_ok_def)

lemma judged_sends:
  "judged (recording h) c ctx call target initial attempt n reauth reply s = (r, s') \<Longrightarrow> sends c call 0 0 s s'"
  unfolding judged_def Let_def
  by (cases "ry_error reply"; cases target; cases "ry_data reply = []")
    (auto dest: retryRound_sends finished_sends simp: observe_sends split: sum.splits)

section \<open>Steps that send\<close>

lemma loginResponse_ok:
  assumes "loginResponse c ctx n d response s = (r, s')"
  shows "sent s' = sent s" and "cx_token s = [] \<Longrightarrow> token_ok s'" and "r = Inr t \<Longrightarrow> good_token t"
  using assms
  by (auto simp: loginResponse_def Let_def token_ok_def good_token_def split: if_splits)

lemma sends_one:
  assumes "sent s' = sent s @ [q]" "may_send c call q" "token_ok s \<longrightarrow> token_ok s'"
  shows "sends c call (if is_login q then 1 else 0) (if is_login q then 0 else 1) s s'"
  using assms by (auto simp: sends_def)

lemma Token_sends:
  assumes "Token (recording h) c ctx n s = Some (r, s')" "token_ok s"
  shows "sends c call 1 0 s s' \<and> (\<forall>t. r = Inr t \<longrightarrow> good_token t)"
proof (cases "cx_token s = []")
  case False
  then show ?thesis using assms by (auto simp: Token_def token_ok_def sends_def)
next
  case empty: True
  then obtain granted s1 where w: "Wait (recording h) s = Some (granted, s1)"
    using assms(1) by (cases "Wait (recording h) s") (auto simp: Token_def)
  note quiet = Wait_sent [OF w]
  show ?thesis
  proof (cases "granted \<and> valid_request ''GET'' (loginURL c)")
    case False
    then have "s' = s1" "\<exists>e. r = Inl e"
      using assms(1) w empty by (auto simp: Token_def loginURL_def Let_def split: if_splits)
    then show ?thesis using sends_mono [OF sends_refl, of s' s 1 0 c call] quiet by auto
  next
    case True
    obtain response d s2 where t: "roundTrip (recording h) (loginRequest c (loginURL c)) s1 = (response, d, s2)"
      by (rule prod_cases3)
    note trip = roundTrip_sent [OF t]
    have q: "is_login (loginRequest c (loginURL c))" by (simp add: is_login_def loginRequest_def)
    have fin: "sends c call 1 0 s s'"
      if "sent s' = sent s2" "token_ok s'"
      using sends_one [of s' s "loginRequest c (loginURL c)" c call] that trip quiet may_send_login q by simp
    show ?thesis
    proof (cases response)
      case (Inl e)
      then have "\<exists>ob. s' = observe ob s2" "\<exists>e. r = Inl e"
        using assms(1) w empty True t by (auto simp: Token_def loginURL_def Let_def split: if_splits)
      then show ?thesis using fin trip quiet empty by (auto simp: token_ok_def)
    next
      case (Inr resp)
      then have l: "loginResponse c ctx n d resp s2 = (r, s')"
        using assms(1) w empty True t by (auto simp: Token_def loginURL_def Let_def split: if_splits)
      have "cx_token s2 = []" using trip quiet empty by simp
      then show ?thesis
        using loginResponse_ok [OF l] fin by blast
    qed
  qed
qed

lemma answer_sent:
  "answer (recording h) c ctx call n d response s = (r, s') \<Longrightarrow> sent s' = sent s \<and> cx_token s' = cx_token s"
  by (auto simp: answer_def Let_def split_def split: sum.splits if_splits)

lemma request_sends:
  assumes "request (recording h) c ctx call body t n s = Some (r, s')" "good_token t"
  shows "sends c call 0 1 s s'"
proof -
  obtain granted s1 where w: "Wait (recording h) s = Some (granted, s1)"
    using assms(1) by (cases "Wait (recording h) s") (auto simp: request_def)
  note quiet = Wait_sent [OF w]
  have none: ?thesis if "s' = s1"
    using sends_mono [OF sends_refl, of s' s 0 1 c call] quiet that by auto
  show ?thesis
  proof (cases "\<not> granted \<or> PathUnescape (ca_path call) = None")
    case True
    then have "s' = s1" using assms(1) w by (auto simp: request_def Let_def split: if_splits)
    then show ?thesis by (rule none)
  next
    case False
    then obtain d where d: "PathUnescape (ca_path call) = Some d" by auto
    define q where "q = requestFor c call d (case body of None \<Rightarrow> [] | Some b \<Rightarrow> b) t"
    obtain started sa where a: "clock (recording h) s1 = (started, sa)" by (rule prod.exhaust)
    obtain response w1 where b: "ho_do (recording h) q (cx_world sa) = (response, w1)" by (rule prod.exhaust)
    obtain ended sb where b2: "clock (recording h) (sa\<lparr>cx_world := w1\<rparr>) = (ended, sb)" by (rule prod.exhaust)
    obtain later sc where b3: "clock (recording h) sb = (later, sc)" by (rule prod.exhaust)
    have sa: "sent sa = sent s" "cx_token sa = cx_token s"
      using quiet clock_sent(1) [of h s1] clock_sent(2) [of "recording h" s1] by (simp_all add: a)
    have "snd w1 = sent s @ [q]"
      using do_sent [of h q "cx_world sa"] sa by (simp add: b sent_def)
    then have sb: "sent sb = sent s @ [q]" "cx_token sb = cx_token s"
      using clock_sent(1) [of h "sa\<lparr>cx_world := w1\<rparr>"] clock_sent(2) [of "recording h" "sa\<lparr>cx_world := w1\<rparr>"] sa
      by (simp_all add: b2)
    then have sc: "sent sc = sent s @ [q]" "cx_token sc = cx_token s"
      using clock_sent(1) [of h sb] clock_sent(2) [of "recording h" sb] by (simp_all add: b3)
    have step: ?thesis if "sent s' = sent s @ [q]" "cx_token s' = cx_token s"
    proof -
      have "may_send c call q" unfolding q_def by (rule may_send_call) (rule assms(2))
      moreover have "\<not> is_login q" by (simp add: q_def is_login_def requestFor_def)
      ultimately show ?thesis using sends_one [of s' s q c call] that by (simp add: token_ok_def)
    qed
    show ?thesis
    proof (cases "valid_request (rq_method q) (rq_url q)")
      case invalid: False
      then have "s' = s1" using assms(1) w d False by (simp add: request_def q_def Let_def)
      then show ?thesis by (rule none)
    next
      case valid: True
      show ?thesis
      proof (cases response)
        case (Inl e)
        then have "\<exists>ob. s' = observe ob sb"
          using assms(1) w d False valid a b b2 by (auto simp: request_def q_def Let_def)
        then have "sent s' = sent s @ [q]" "cx_token s' = cx_token s" using sb by auto
        then show ?thesis by (rule step)
      next
        case (Inr resp)
        then have "answer (recording h) c ctx call n (time_sub later started) resp sc = (r, s')"
          using assms(1) w d False valid a b b2 b3 by (simp add: request_def q_def Let_def)
        from answer_sent [OF this] show ?thesis using sc by (intro step) simp_all
      qed
    qed
  qed
qed

section \<open>Whole calls\<close>

lemma round_sends:
  fixes h :: "'w host" and initial :: 'a
  assumes "round (recording h) c ctx call body target initial attempt n reauth s = Some (r, s')" "token_ok s"
  shows "sends c call 1 1 s s'"
proof -
  obtain token s1 where t: "Token (recording h) c ctx (max (n + 1) attempt) s = Some (token, s1)"
    using assms unfolding round_def bind_eq_Some_conv by auto
  note login = Token_sends [OF t assms(2)]
  show ?thesis
  proof (cases token)
    case (Inl e)
    then have "retryRound (recording h) c call attempt n reauth 0 e s1 = (r, s')"
      using assms t by (simp add: round_def)
    from sends_trans [OF conjunct1 [OF login] retryRound_sends [OF this]] show ?thesis
      by (rule sends_mono) simp_all
  next
    case (Inr tok)
    obtain reply s2 where q: "request (recording h) c ctx call body tok (n + 1) s1 = Some (reply, s2)"
      using assms t Inr by (cases "request (recording h) c ctx call body tok (n + 1) s1") (auto simp: round_def)
    have two: "sends c call 1 1 s s2"
      using sends_trans [OF conjunct1 [OF login] request_sends [OF q]] login Inr by simp
    show ?thesis
    proof (cases "ry_status reply = 401 \<and> \<not> reauth")
      case True
      then have "s' = Invalidate s2" using assms t Inr q by (simp add: round_def)
      then show ?thesis using two by (simp add: sends_def Invalidate_def token_ok_def)
    next
      case False
      then have "judged (recording h) c ctx call target initial attempt (n + 1) reauth reply s2 = (r, s')"
        using assms t Inr q by (auto simp: round_def)
      from sends_trans [OF two judged_sends [OF this]] show ?thesis by simp
    qed
  qed
qed

lemma attempts_sends:
  fixes h :: "'w host" and initial :: 'a
  shows "attempts (recording h) c ctx call body target initial attempt n reauth latest s = Some (r, s') \<Longrightarrow> token_ok s \<Longrightarrow>
    sends c call (nat (rt_max_attempts (cl_retry c) + 1 - attempt) + (if reauth then 0 else 1))
      (nat (rt_max_attempts (cl_retry c) + 1 - attempt) + (if reauth then 0 else 1)) s s'"
proof (induction "recording h" c ctx call body target initial attempt n reauth latest s rule: attempts.induct)
  case (1 c ctx call body target initial attempt n reauth latest s)
  let ?k = "\<lambda>a. nat (rt_max_attempts (cl_retry c) + 1 - a)"
  show ?case
  proof (cases "attempt > rt_max_attempts (cl_retry c)")
    case True
    then have "s' = s" using "1.prems"(1) by (simp add: attempts.simps)
    then show ?thesis by (intro sends_mono [OF sends_refl]) simp_all
  next
    case False
    then obtain x s1 where x: "round (recording h) c ctx call body target initial attempt n reauth s = Some (x, s1)"
      using "1.prems"(1)
      by (cases "round (recording h) c ctx call body target initial attempt n reauth s")
        (auto simp: attempts.simps [of "recording h" c ctx call body target initial attempt])
    note one = round_sends [OF x "1.prems"(2)]
    then have ok: "token_ok s1" using "1.prems"(2) by (simp add: sends_def)
    show ?thesis
    proof (cases "\<exists>a k ra new. x = Again a k ra new")
      case True
      then obtain a k ra new where again: "x = Again a k ra new" by blast
      let ?l = "case new of None \<Rightarrow> latest | Some e \<Rightarrow> Some e"
      have rest: "attempts (recording h) c ctx call body target initial a k ra ?l s1 = Some (r, s')"
        using "1.prems"(1) x again False by (simp add: attempts.simps [of "recording h" c ctx call body target initial attempt])
      have IH: "sends c call (?k a + (if ra then 0 else 1)) (?k a + (if ra then 0 else 1)) s1 s'"
        using "1.hyps" [OF False x refl again rest ok] .
      have "1 + (?k a + (if ra then 0 else 1)) \<le> ?k attempt + (if reauth then 0 else 1)"
        using round_again [OF x [unfolded again]] False by auto
      then show ?thesis using sends_mono [OF sends_trans [OF one IH]] by simp
    next
      case no: False
      then have "s' = s1"
        using "1.prems"(1) x False
        by (auto simp: attempts.simps [of "recording h" c ctx call body target initial attempt] split: round.splits)
      then show ?thesis using sends_mono [OF one] False by simp
    qed
  qed
qed

lemma settle_sent [simp]:
  "sent (snd (settle (recording h) initial r s)) = sent s" "cx_token (snd (settle h' initial r s')) = cx_token s'"
  by (simp_all add: settle_def split_def Let_def split: option.splits prod.splits)


text \<open>A client, and a host with a deadline: its world counts the timers left.\<close>

definition demo_client :: client where
  "demo_client =
     \<lparr>cl_cluster = ''ecs1'',
      cl_base = empty_url\<lparr>url_scheme := ''https'', url_host := ''ecs:4443''\<rparr>,
      cl_username = ''monitor'', cl_password = ''secret'', cl_timeout = 30 * second,
      cl_retry = \<lparr>rt_max_attempts = 3, rt_initial = second, rt_max = 10 * second\<rparr>, cl_concurrency = 4,
      cl_transport = \<lparr>ts_verify = True, ts_ca_file = [], ts_connect = second, ts_header_timeout = second,
        ts_handshake = second\<rparr>\<rparr>"

definition demo_call :: call where
  "demo_call = \<lparr>ca_logical = ''whoami'', ca_method = ''GET'', ca_path = ''/user/whoami'', ca_query = [], ca_body = None\<rparr>"

definition demo_state :: "'w \<Rightarrow> 'w client_state" where
  "demo_state w =
     \<lparr>cx_breaker = newBreaker, cx_limiter = newRequestLimiter (f64_nat 10) 4 7, cx_token = [],
      cx_sequence = 0, cx_observed = [], cx_world = w\<rparr>"

definition patient :: "http_response \<Rightarrow> nat host" where
  "patient response =
     \<lparr>ho_now = (\<lambda>w. (7, w)), ho_sleep = (\<lambda>d w. (0 < w, w - 1)), ho_random = (\<lambda>n w. (0, w)),
      ho_acquire = (\<lambda>w. (True, w)), ho_release = (\<lambda>w. w), ho_do = (\<lambda>q w. (Inr response, w)),
      ho_http_date = (\<lambda>_. None), ho_convert = (\<lambda>_. min_int64)\<rparr>"

lemma patient_deadline: "deadline (patient r) (\<lambda>w. w)"
  by (auto simp: deadline_def patient_def)

theorem calls_return_witness:
  "(\<exists>result s'. DoJSON (patient ok_response) demo_client [] demo_call (Some raw_message) [] (demo_state 5) = Some (result, s'))
   \<and> (\<exists>result s'. Close (patient ok_response) demo_client [] ((demo_state 5)\<lparr>cx_token := ''T''\<rparr>) = Some (result, s'))"
  by (rule calls_return [OF patient_deadline])

lemma recording_deadline: "deadline h left \<Longrightarrow> deadline (recording h) (left \<circ> fst)"
  by (auto simp: deadline_def recording_def lifted_def split: prod.splits) (metis fst_conv snd_conv)+


end
