(* ===== verification/Spec2Isabelle.thy ===== *)
theory Spec2Isabelle
  imports Pipeline Catalog Health Client_Facts
begin

text \<open>
  A verification library for dell-ecs-metrics-exporter, a Prometheus exporter for Dell ECS
  object storage, written in Go.
\<close>

end
